(* ===== verification/Rust_Str.thy ===== *)
theory Rust_Str
  imports Prelude
begin

text \<open>
  The operations of \<open>str\<close> the sources use, with the lemmas the components share. A Rust
  \<open>str\<close> is a \<open>string\<close> whose characters are the bytes of its UTF-8 encoding, as in Rust,
  where \<open>len\<close>, slicing and \<open>find\<close> count bytes; the separators searched for are ASCII, so
  searching bytes and searching characters agree.
\<close>

named_theorems str_simps \<open>equations for the operations on strings\<close>

section \<open>Strings\<close>

fun split_on :: "char \<Rightarrow> string \<Rightarrow> string list" where
  "split_on c [] = [[]]"
| "split_on c (x # xs) =
     (if x = c then [] # split_on c xs
      else (case split_on c xs of [] \<Rightarrow> [[x]] | p # ps \<Rightarrow> (x # p) # ps))"

fun join_with :: "string \<Rightarrow> string list \<Rightarrow> string" where
  "join_with sep [] = []"
| "join_with sep [p] = p"
| "join_with sep (p # q # ps) = p @ sep @ join_with sep (q # ps)"

text \<open>\<open>str::split_inclusive\<close>: the separator ends each piece.\<close>

fun split_inclusive :: "char \<Rightarrow> string \<Rightarrow> string list" where
  "split_inclusive c [] = []"
| "split_inclusive c (x # xs) =
     (if x = c then [x] # split_inclusive c xs
      else (case split_inclusive c xs of
              [] \<Rightarrow> [[x]]
            | p # ps \<Rightarrow> (x # p) # ps))"

text \<open>\<open>str::find\<close> of a character: the index of its first occurrence.\<close>

fun find_char :: "char \<Rightarrow> string \<Rightarrow> nat option" where
  "find_char c [] = None"
| "find_char c (x # xs) = (if x = c then Some 0 else map_option Suc (find_char c xs))"

fun strip_prefix :: "string \<Rightarrow> string \<Rightarrow> string option" where
  "strip_prefix [] s = Some s"
| "strip_prefix (p # ps) [] = None"
| "strip_prefix (p # ps) (x # xs) = (if p = x then strip_prefix ps xs else None)"

text \<open>\<open>str::contains\<close> of a string.\<close>

fun contains_str :: "string \<Rightarrow> string \<Rightarrow> bool" where
  "contains_str p [] = (p = [])"
| "contains_str p (x # xs) = (strip_prefix p (x # xs) \<noteq> None \<or> contains_str p xs)"

text \<open>
  \<open>str::trim\<close> removes the characters with the Unicode property \<open>White_Space\<close>. \<open>ws_len\<close> is
  the number of bytes of such a character at the front of a string, 0 if there is none:
  U+0009 to U+000D and U+0020 in one byte, U+0085 and U+00A0 in two, U+1680, U+2000 to
  U+200A, U+2028, U+2029, U+202F, U+205F and U+3000 in three.
\<close>

fun ws_bytes :: "nat list \<Rightarrow> nat" where
  "ws_bytes (a # r) =
     (if (9 \<le> a \<and> a \<le> 13) \<or> a = 32 then 1
      else (case r of [] \<Rightarrow> 0
        | b # r2 \<Rightarrow>
          if a = 194 \<and> (b = 133 \<or> b = 160) then 2
          else (case r2 of [] \<Rightarrow> 0
            | c # _ \<Rightarrow>
              if (a = 225 \<and> b = 154 \<and> c = 128)
               \<or> (a = 226 \<and> b = 128 \<and> ((128 \<le> c \<and> c \<le> 138) \<or> c = 168 \<or> c = 169 \<or> c = 175))
               \<or> (a = 226 \<and> b = 129 \<and> c = 159)
               \<or> (a = 227 \<and> b = 128 \<and> c = 128) then 3 else 0)))"
| "ws_bytes [] = 0"

definition ws_len :: "string \<Rightarrow> nat" where
  "ws_len s = ws_bytes (map of_char (take 3 s))"

definition ws_len_end :: "string \<Rightarrow> nat" where
  "ws_len_end r =
     (if ws_len (rev (take 1 r)) = 1 then 1
      else if ws_len (rev (take 2 r)) = 2 then 2
      else if ws_len (rev (take 3 r)) = 3 then 3 else 0)"

fun trim_start :: "string \<Rightarrow> string" where
  "trim_start [] = []"
| "trim_start (x # xs) =
     (let n = ws_len (x # xs) in if n = 0 then x # xs else trim_start (drop (n - 1) xs))"

text \<open>\<open>trim_rev\<close> works on the reversed string.\<close>

fun trim_rev :: "string \<Rightarrow> string" where
  "trim_rev [] = []"
| "trim_rev (x # xs) =
     (let n = ws_len_end (x # xs) in if n = 0 then x # xs else trim_rev (drop (n - 1) xs))"

definition trim_end :: "string \<Rightarrow> string" where
  "trim_end s = rev (trim_rev (rev s))"

definition trim :: "string \<Rightarrow> string" where
  "trim s = trim_end (trim_start s)"

definition to_ascii_lowercase_char :: "char \<Rightarrow> char" where
  "to_ascii_lowercase_char c =
     (let n = of_char c :: nat in if 65 \<le> n \<and> n \<le> 90 then char_of (n + 32) else c)"

definition eq_ignore_ascii_case :: "string \<Rightarrow> string \<Rightarrow> bool" where
  "eq_ignore_ascii_case s t =
     (map to_ascii_lowercase_char s = map to_ascii_lowercase_char t)"

text \<open>
  A byte offset is a character boundary when it is 0, the length, or points at a byte that
  does not continue a UTF-8 sequence. Slicing a \<open>str\<close> anywhere else panics.
\<close>

definition is_char_boundary :: "string \<Rightarrow> nat \<Rightarrow> bool" where
  "is_char_boundary s i =
     (i = 0 \<or> i = length s \<or>
      (i < length s \<and> \<not> (128 \<le> (of_char (s ! i) :: nat) \<and> (of_char (s ! i) :: nat) < 192)))"

text \<open>\<open>str::as_bytes\<close> and its inverse, byte by byte.\<close>

definition char_byte :: "char \<Rightarrow> u8" where "char_byte c = word_of_nat (of_char c)"

definition byte_char :: "u8 \<Rightarrow> char" where "byte_char b = char_of (unat b)"

definition as_bytes :: "string \<Rightarrow> bytes" where "as_bytes s = map char_byte s"

section \<open>Decimal numbers\<close>

definition digit_of :: "nat \<Rightarrow> char \<Rightarrow> nat option" where
  "digit_of radix c =
     (let n = of_char c :: nat;
          d = (if 48 \<le> n \<and> n \<le> 57 then Some (n - 48)
               else if 97 \<le> n \<and> n \<le> 122 then Some (n - 87)
               else if 65 \<le> n \<and> n \<le> 90 then Some (n - 55) else None)
      in case d of None \<Rightarrow> None | Some v \<Rightarrow> if v < radix then Some v else None)"

fun digits_val :: "nat \<Rightarrow> string \<Rightarrow> nat option" where
  "digits_val acc [] = Some acc"
| "digits_val acc (c # cs) =
     (case digit_of 10 c of None \<Rightarrow> None | Some d \<Rightarrow> digits_val (acc * 10 + d) cs)"

text \<open>
  \<open>parse::<u16>()\<close>: an optional \<open>+\<close>, at least one digit, only digits, and a value of at
  most 65535. The error value is discarded by every caller in the sources.
\<close>

definition strip_plus :: "string \<Rightarrow> string" where
  "strip_plus s = (case s of [] \<Rightarrow> [] | c # cs \<Rightarrow> if c = CHR ''+'' then cs else s)"

definition parse_u16 :: "string \<Rightarrow> u16 option" where
  "parse_u16 s =
     (let ds = strip_plus s
      in if ds = [] then None
         else (case digits_val 0 ds of
                 None \<Rightarrow> None
               | Some n \<Rightarrow> if n < 65536 then Some (word_of_nat n) else None))"

definition digit_char :: "nat \<Rightarrow> char" where
  "digit_char d = char_of (48 + d)"

fun nat_to_string :: "nat \<Rightarrow> string" where
  "nat_to_string n =
     (if n < 10 then [digit_char n] else nat_to_string (n div 10) @ [digit_char (n mod 10)])"

declare nat_to_string.simps [simp del]

section \<open>Splitting and joining\<close>

lemma split_on_not_Nil [simp]: "split_on c s \<noteq> []"
  by (induction s) (auto split: list.split)

lemma split_on_no_sep [str_simps]: "c \<notin> set s \<Longrightarrow> split_on c s = [s]"
  by (induction s) auto

lemma split_on_append_sep [str_simps]:
  "split_on c (a @ c # b) = split_on c a @ split_on c b"
proof (induction a)
  case Nil
  then show ?case by simp
next
  case (Cons x a)
  then show ?case by (cases "split_on c a") (auto split: list.split)
qed

lemma length_split_on [str_simps]: "length (split_on c s) = Suc (count_list s c)"
  by (induction s) (auto split: list.split)

lemma split_on_pieces: "p \<in> set (split_on c s) \<Longrightarrow> c \<notin> set p"
proof (induction s arbitrary: p)
  case Nil
  then show ?case by simp
next
  case (Cons x s)
  then show ?case by (cases "split_on c s") (auto split: if_splits)
qed

lemma join_with_Cons:
  "ps \<noteq> [] \<Longrightarrow> join_with sep (p # ps) = p @ sep @ join_with sep ps"
  by (cases ps) auto

lemma join_split_on [str_simps]: "join_with [c] (split_on c s) = s"
proof (induction s)
  case Nil
  then show ?case by simp
next
  case (Cons x s)
  then show ?case
    by (cases "split_on c s") (auto simp: join_with_Cons split: list.splits, (metis join_with.simps(2,3) append_Cons neq_Nil_conv)+)
qed

lemma length_split_ge2: "c \<in> set s \<Longrightarrow> 2 \<le> length (split_on c s)"
  by (metis Suc_leI count_list_0_iff length_split_on neq0_conv not_less_eq_eq numeral_2_eq_2)

lemma split_on_snoc: "c \<notin> set t \<Longrightarrow> split_on c (h @ c # t) = split_on c h @ [t]"
  by (simp add: split_on_append_sep split_on_no_sep)

lemma find_char_take: "find_char c s = Some i \<Longrightarrow> i < length s \<and> s ! i = c \<and> c \<notin> set (take i s)"
  by (induction s arbitrary: i) (auto split: if_splits simp: nth_Cons')

lemma find_char_append: "c \<notin> set a \<Longrightarrow> find_char c (a @ c # b) = Some (length a)"
  by (induction a) auto

lemma byte_char_char_byte [simp]: "byte_char (char_byte c) = c"
proof -
  have "(of_char c :: nat) < 256" by (rule nat_of_char_less_256)
  then show ?thesis by (simp add: byte_char_def char_byte_def unat_of_nat)
qed

section \<open>Lines\<close>

lemma split_inclusive_concat: "concat (split_inclusive c s) = s"
  by (induction s) (auto split: list.splits)

text \<open>Lines as \<open>split_inclusive\<close> yields them.\<close>

fun is_lines :: "char \<Rightarrow> string list \<Rightarrow> bool" where
  "is_lines c [] = True"
| "is_lines c [l] = (l \<noteq> [] \<and> c \<notin> set (butlast l))"
| "is_lines c (l # m # ls) = (l \<noteq> [] \<and> c \<notin> set (butlast l) \<and> last l = c \<and> is_lines c (m # ls))"

lemma is_lines_Cons:
  "is_lines c (l # ls) \<longleftrightarrow>
     l \<noteq> [] \<and> c \<notin> set (butlast l) \<and> (ls = [] \<or> last l = c) \<and> is_lines c ls"
  by (cases ls) auto

lemma is_lines_split_inclusive: "is_lines c (split_inclusive c s)"
  by (induction s) (auto simp: is_lines_Cons split: list.splits)

lemma split_inclusive_line:
  "c \<notin> set l \<Longrightarrow> split_inclusive c (l @ c # s) = (l @ [c]) # split_inclusive c s"
  by (induction l) auto

lemma split_inclusive_last: "c \<notin> set l \<Longrightarrow> l \<noteq> [] \<Longrightarrow> split_inclusive c l = [l]"
proof (induction l)
  case (Cons x l)
  then show ?case by (cases "l = []") auto
qed simp

lemma split_inclusive_lines: "is_lines c ls \<Longrightarrow> split_inclusive c (concat ls) = ls"
proof (induction ls)
  case (Cons l ls)
  then have l: "l \<noteq> []" "c \<notin> set (butlast l)" "ls = [] \<or> last l = c" "is_lines c ls"
    by (auto simp: is_lines_Cons)
  show ?case
  proof (cases "last l = c")
    case True
    with l have e: "l = butlast l @ [c]" by (metis append_butlast_last_id)
    have "split_inclusive c (concat (l # ls)) = split_inclusive c (butlast l @ c # concat ls)"
      by (subst e) simp
    also have "\<dots> = l # ls" using Cons l e by (simp add: split_inclusive_line)
    finally show ?thesis .
  next
    case False
    with l have "ls = []" "c \<notin> set l" by (auto, metis append_butlast_last_id in_set_butlastD set_ConsD rotate1.simps(2) set_rotate1)
    with l show ?thesis by (simp add: split_inclusive_last)
  qed
qed simp

section \<open>Decimal numbers\<close>

lemma digit_of_digit_char [simp]: "d < 10 \<Longrightarrow> digit_of 10 (digit_char d) = Some d"
  by (simp add: digit_of_def digit_char_def)

lemma digits_val_append:
  "digits_val acc (s @ t) =
     (case digits_val acc s of None \<Rightarrow> None | Some v \<Rightarrow> digits_val v t)"
  by (induction s arbitrary: acc) (auto split: option.split)

lemma digits_val_nat_to_string_eq: "digits_val 0 (nat_to_string n) = Some n"
proof (induction n rule: nat_to_string.induct)
  case (1 n)
  then show ?case
    by (cases "n < 10") (simp_all add: nat_to_string.simps [of n] digits_val_append)
qed

lemma nat_to_string_not_Nil [simp]: "nat_to_string n \<noteq> []"
  by (subst nat_to_string.simps) simp

definition is_digit_char :: "char \<Rightarrow> bool" where
  "is_digit_char c = (digit_of 10 c \<noteq> None)"

lemma is_digit_char_digit_char [simp]: "d < 10 \<Longrightarrow> is_digit_char (digit_char d)"
  by (simp add: is_digit_char_def)

lemma nat_to_string_digits: "c \<in> set (nat_to_string n) \<Longrightarrow> is_digit_char c"
proof (induction n rule: nat_to_string.induct)
  case (1 n)
  then show ?case
    by (cases "n < 10") (auto simp: nat_to_string.simps [of n])
qed

lemma digit_not_special [simp]:
  "\<not> is_digit_char CHR '':''" "\<not> is_digit_char CHR ''.''" "\<not> is_digit_char CHR ''+''"
  "\<not> is_digit_char CHR '' ''"
  by (simp_all add: is_digit_char_def digit_of_def)

lemma strip_plus_digits:
  assumes "\<And>c. c \<in> set s \<Longrightarrow> is_digit_char c"
  shows "strip_plus s = s"
proof (cases s)
  case Nil
  then show ?thesis by (simp add: strip_plus_def)
next
  case (Cons c cs)
  then have "is_digit_char c" using assms by simp
  then have "c \<noteq> CHR ''+''" by auto
  with Cons show ?thesis by (simp add: strip_plus_def)
qed

lemma parse_u16_nat_to_string [str_simps]: "parse_u16 (nat_to_string (unat w)) = Some w"
proof -
  have "strip_plus (nat_to_string (unat w)) = nat_to_string (unat w)"
    by (rule strip_plus_digits) (rule nat_to_string_digits)
  then show ?thesis
    by (simp add: parse_u16_def digits_val_nat_to_string_eq)
qed

lemma nat_to_string_no_sep:
  "CHR '':'' \<notin> set (nat_to_string n)" "CHR ''.'' \<notin> set (nat_to_string n)"
  using nat_to_string_digits digit_not_special by blast+

lemma nat_to_string_inj: "nat_to_string m = nat_to_string n \<Longrightarrow> m = n"
  by (metis digits_val_nat_to_string_eq option.inject)

lemma parse_u16_Some_digits:
  "parse_u16 s = Some p \<Longrightarrow> strip_plus s \<noteq> [] \<and> digits_val 0 (strip_plus s) = Some (unat p)"
  by (auto simp: parse_u16_def Let_def unat_of_nat split: if_splits option.splits)

section \<open>Trimming\<close>

lemma trim_start_id: "ws_len s = 0 \<Longrightarrow> trim_start s = s"
  by (cases s) (auto simp: Let_def)

lemma ws_len_trim_start [simp]: "ws_len (trim_start s) = 0"
proof (induction s rule: trim_start.induct)
  case 1
  then show ?case by (simp add: ws_len_def)
next
  case (2 x xs)
  then show ?case by (simp add: Let_def)
qed

lemma trim_start_idem [simp]: "trim_start (trim_start s) = trim_start s"
  by (rule trim_start_id) simp

lemma length_trim_start_le: "length (trim_start s) \<le> length s"
proof (induction s rule: trim_start.induct)
  case 1
  then show ?case by simp
next
  case (2 x xs)
  then show ?case
    by (cases "ws_len (x # xs) = 0") (auto simp: Let_def intro: le_trans)
qed

lemma trim_start_suffix: "\<exists>w. s = w @ trim_start s"
proof (induction s rule: trim_start.induct)
  case 1
  then show ?case by simp
next
  case (2 x xs)
  show ?case
  proof (cases "ws_len (x # xs) = 0")
    case True
    then show ?thesis by (simp add: Let_def)
  next
    case False
    with 2 obtain w where "drop (ws_len (x # xs) - 1) xs = w @ trim_start (drop (ws_len (x # xs) - 1) xs)"
      by blast
    then have "x # xs = (x # take (ws_len (x # xs) - 1) xs @ w) @ trim_start (drop (ws_len (x # xs) - 1) xs)"
      by (metis append_Cons append_assoc append_take_drop_id)
    moreover from False have "trim_start (x # xs) = trim_start (drop (ws_len (x # xs) - 1) xs)"
      by (simp add: Let_def)
    ultimately show ?thesis by metis
  qed
qed

lemma ws_bytes_le: "ws_bytes xs \<le> 3"
  by (cases xs) (auto split: list.splits)

lemma ws_bytes_le_length: "ws_bytes xs \<le> length xs"
  by (cases xs) (auto split: list.splits)

lemma ws_len_le: "ws_len s \<le> length s"
  using ws_bytes_le_length [of "map of_char (take 3 s)"] by (simp add: ws_len_def)

lemma ws_bytes_take: "0 < ws_bytes xs \<Longrightarrow> ws_bytes (take (ws_bytes xs) xs @ ys) = ws_bytes xs"
proof -
  assume z: "0 < ws_bytes xs"
  consider "xs = []" | a where "xs = [a]" | a b where "xs = [a, b]" | a b c r where "xs = a # b # c # r"
    by (metis list.exhaust)
  then show ?thesis
  proof cases
    case 1
    then show ?thesis using z by simp
  next
    case 2
    with z show ?thesis by (auto split: if_splits)
  next
    case 3
    with z show ?thesis by (auto split: if_splits)
  next
    case 4
    have e: "ws_bytes (a # b # c # r') = ws_bytes [a, b, c]" for r'
      by (simp only: ws_bytes.simps list.case)
    show ?thesis
    proof (cases "9 \<le> a \<and> a \<le> 13 \<or> a = 32 \<or> a = 194 \<and> (b = 133 \<or> b = 160)")
      case True
      with 4 show ?thesis by auto
    next
      case False
      with z 4 have three: "ws_bytes xs = 3" by (auto split: if_splits)
      then have "take (ws_bytes xs) xs @ ys = a # b # c # ys" using 4 by (simp add: numeral_3_eq_3)
      with e [of ys] e [of r] 4 show ?thesis by simp
    qed
  qed
qed


lemma ws_bytes_take3: "ws_bytes (take 3 xs) = ws_bytes xs"
proof (cases "length xs \<le> 3")
  case False
  then have "Suc (Suc (Suc 0)) \<le> length xs" by simp
  then obtain a b c r where "xs = a # b # c # r" by (auto simp: Suc_le_length_iff)
  moreover have "ws_bytes (a # b # c # r) = ws_bytes [a, b, c]"
    by (simp only: ws_bytes.simps list.case)
  ultimately show ?thesis by (simp only: numeral_3_eq_3 take_Suc_Cons take0)
qed simp

lemma ws_len_alt: "ws_len s = ws_bytes (map of_char s)"
  by (simp only: ws_len_def ws_bytes_take3 flip: take_map)

lemma ws_len_take: "0 < ws_len s \<Longrightarrow> ws_len (take (ws_len s) s @ t) = ws_len s"
  using ws_bytes_take [of "map of_char s" "map of_char t"] by (simp add: ws_len_alt take_map)

lemma trim_start_skip: "0 < ws_len s \<Longrightarrow> trim_start s = trim_start (drop (ws_len s) s)"
  by (cases s) (simp_all add: Let_def drop_Cons')

lemma trim_start_other_tail:
  assumes "trim_start (w @ t) = t" "ws_len t' = 0"
  shows "trim_start (w @ t') = t'"
  using assms(1)
proof (induction w rule: length_induct)
  case (1 w)
  show ?case
  proof (cases "w = []")
    case True
    with assms(2) show ?thesis by (simp add: trim_start_id)
  next
    case False
    let ?n = "ws_len (w @ t)"
    have n: "0 < ?n"
    proof (rule ccontr)
      assume "\<not> 0 < ?n"
      then have "trim_start (w @ t) = w @ t" by (simp add: trim_start_id)
      with 1 False show False by simp
    qed
    from trim_start_skip [OF n] 1 have d: "trim_start (drop ?n (w @ t)) = t" by simp
    have le: "?n \<le> length w"
    proof (rule ccontr)
      assume "\<not> ?n \<le> length w"
      then have "length (drop ?n (w @ t)) < length t" if "t \<noteq> []" using that by (cases t) auto
      moreover have "?n \<le> length w" if "t = []"
        using that ws_len_le [of w] by simp
      ultimately show False using d length_trim_start_le [of "drop ?n (w @ t)"] \<open>\<not> ?n \<le> length w\<close>
        by fastforce
    qed
    with d have d': "trim_start (drop ?n w @ t) = t" by simp
    from ws_len_take [OF n, of "drop ?n w @ t'"] le have e: "ws_len (w @ t') = ?n"
      by simp (metis append_assoc append_take_drop_id)
    with n trim_start_skip [of "w @ t'"] le have "trim_start (w @ t') = trim_start (drop ?n w @ t')" by simp
    also have "\<dots> = t'" using 1 d' n le by simp
    finally show ?thesis .
  qed
qed

lemma trim_rev_id: "ws_len_end s = 0 \<Longrightarrow> trim_rev s = s"
  by (cases s) (auto simp: Let_def)

lemma ws_len_end_trim_rev [simp]: "ws_len_end (trim_rev s) = 0"
proof (induction s rule: trim_rev.induct)
  case 1
  then show ?case by (simp add: ws_len_end_def ws_len_def)
next
  case (2 x xs)
  then show ?case by (simp add: Let_def)
qed

lemma trim_rev_suffix: "\<exists>w. s = w @ trim_rev s"
proof (induction s rule: trim_rev.induct)
  case 1
  then show ?case by simp
next
  case (2 x xs)
  show ?case
  proof (cases "ws_len_end (x # xs) = 0")
    case True
    then show ?thesis by (simp add: Let_def)
  next
    case False
    let ?r = "drop (ws_len_end (x # xs) - 1) xs"
    from 2 False obtain w where "?r = w @ trim_rev ?r" by blast
    then have "x # xs = (x # take (ws_len_end (x # xs) - 1) xs @ w) @ trim_rev ?r"
      by (metis append_Cons append_assoc append_take_drop_id)
    moreover from False have "trim_rev (x # xs) = trim_rev ?r" by (simp add: Let_def)
    ultimately show ?thesis by metis
  qed
qed

lemma trim_end_prefix: "\<exists>w. s = trim_end s @ w"
proof -
  from trim_rev_suffix [of "rev s"] obtain w where "rev s = w @ trim_rev (rev s)" by blast
  then have "s = trim_end s @ rev w"
    by (metis rev_append rev_rev_ident trim_end_def)
  then show ?thesis by blast
qed

lemma ws_bytes_mono: "ws_bytes (xs @ ys) = 0 \<Longrightarrow> ws_bytes xs = 0"
proof -
  assume z: "ws_bytes (xs @ ys) = 0"
  consider "xs = []" | a where "xs = [a]" | a b where "xs = [a, b]" | a b c r where "xs = a # b # c # r"
    by (metis list.exhaust)
  then show "ws_bytes xs = 0"
  proof cases
    case 2
    with z show ?thesis by (auto split: if_splits)
  next
    case 3
    with z show ?thesis by (auto split: if_splits)
  next
    case 4
    have "ws_bytes (a # b # c # (r @ ys)) = ws_bytes (a # b # c # r)"
      by (simp only: ws_bytes.simps list.case)
    with z 4 show ?thesis by (simp only: append.simps)
  qed simp
qed

lemma ws_len_prefix: "ws_len (s @ t) = 0 \<Longrightarrow> ws_len s = 0"
  by (auto simp: ws_len_def intro: ws_bytes_mono)

lemma trim_idem [simp]: "trim (trim s) = trim s"
proof -
  obtain w where w: "trim_start s = trim_end (trim_start s) @ w"
    using trim_end_prefix by blast
  have "ws_len (trim_end (trim_start s)) = 0"
    by (rule ws_len_prefix [of _ w]) (simp flip: w)
  then show ?thesis
    by (simp add: trim_def trim_start_id) (simp add: trim_end_def trim_rev_id)
qed

lemma set_trim_start: "set (trim_start s) \<subseteq> set s"
  by (metis Un_upper2 set_append trim_start_suffix)

declare char_byte_def [eval_simps] as_bytes_def [eval_simps]
  trim_def [eval_simps] trim_end_def [eval_simps] ws_len_def [eval_simps]
  ws_len_end_def [eval_simps] digit_of_def [eval_simps] digit_char_def [eval_simps]
  parse_u16_def [eval_simps] strip_plus_def [eval_simps] nat_to_string.simps [eval_simps]
  eq_ignore_ascii_case_def [eval_simps] to_ascii_lowercase_char_def [eval_simps]
  is_char_boundary_def [eval_simps] char_of_eq_iff [eval_simps]

end
