(* ===== verification/Rust_Net.thy ===== *)
theory Rust_Net
  imports Rust_Str "HOL-Library.Monad_Syntax"
begin

text \<open>
  The part of \<open>std::net\<close> the sources use: \<open>IpAddr\<close> and \<open>SocketAddr\<close>, their textual
  forms, and the parser behind \<open>str::parse\<close>. The parser follows the standard library's
  \<open>core::net::parser\<close> reader by reader; each reader returns what it read and the input that
  is left, or \<open>None\<close>, which leaves the input where it was (\<open>read_atomically\<close>).
\<close>

datatype IpAddr = V4 "32 word" | V6 "128 word"

datatype SocketAddr = SockV4 "32 word" u16 | SockV6 "128 word" u16 u32

fun SocketAddr_new :: "IpAddr \<Rightarrow> u16 \<Rightarrow> SocketAddr" where
  "SocketAddr_new (V4 a) p = SockV4 a p"
| "SocketAddr_new (V6 a) p = SockV6 a p 0"

fun sa_ip :: "SocketAddr \<Rightarrow> IpAddr" where
  "sa_ip (SockV4 a p) = V4 a"
| "sa_ip (SockV6 a p s) = V6 a"

fun sa_port :: "SocketAddr \<Rightarrow> u16" where
  "sa_port (SockV4 a p) = p"
| "sa_port (SockV6 a p s) = p"

definition ipv4_new :: "u8 \<Rightarrow> u8 \<Rightarrow> u8 \<Rightarrow> u8 \<Rightarrow> IpAddr" where
  "ipv4_new a b c d = V4 (word_of_nat (be_nat [a, b, c, d]))"

definition ipv4_unspecified :: IpAddr where "ipv4_unspecified = V4 0"

definition ipv4_localhost :: IpAddr where "ipv4_localhost = ipv4_new 127 0 0 1"

section \<open>Display\<close>

definition ipv4_octets :: "32 word \<Rightarrow> bytes" where
  "ipv4_octets a = be_bytes 4 (unat a)"

definition show_ipv4 :: "32 word \<Rightarrow> string" where
  "show_ipv4 a = join_with ''.'' (map (\<lambda>b. nat_to_string (unat b)) (ipv4_octets a))"

definition hex_digit_char :: "nat \<Rightarrow> char" where
  "hex_digit_char d = (if d < 10 then char_of (48 + d) else char_of (87 + d))"

fun nat_to_hex :: "nat \<Rightarrow> string" where
  "nat_to_hex n =
     (if n < 16 then [hex_digit_char n] else nat_to_hex (n div 16) @ [hex_digit_char (n mod 16)])"

declare nat_to_hex.simps [simp del]

fun segments_of :: "nat \<Rightarrow> nat \<Rightarrow> nat list" where
  "segments_of 0 x = []"
| "segments_of (Suc n) x = segments_of n (x div 65536) @ [x mod 65536]"

definition ipv6_segments :: "128 word \<Rightarrow> nat list" where
  "ipv6_segments a = segments_of 8 (unat a)"

text \<open>The longest run of zero segments, the first one of that length: (start, length).\<close>

fun longest_zeroes :: "nat \<Rightarrow> nat list \<Rightarrow> nat \<times> nat \<Rightarrow> nat \<times> nat \<Rightarrow> nat \<times> nat" where
  "longest_zeroes i [] cur best = best"
| "longest_zeroes i (x # xs) cur best =
     (if x = 0
      then let cur' = (if snd cur = 0 then (i, 1) else (fst cur, snd cur + 1))
           in longest_zeroes (Suc i) xs cur' (if snd cur' > snd best then cur' else best)
      else longest_zeroes (Suc i) xs (0, 0) best)"

definition show_ipv6 :: "128 word \<Rightarrow> string" where
  "show_ipv6 a =
     (let gs = ipv6_segments a; z = longest_zeroes 0 gs (0, 0) (0, 0);
          sub = (\<lambda>xs. join_with '':'' (map nat_to_hex xs))
      in if take 6 gs = [0, 0, 0, 0, 0, 65535]
         then ''::ffff:'' @ show_ipv4 (word_of_nat (unat a))
         else if snd z > 1
         then sub (take (fst z) gs) @ ''::'' @ sub (drop (fst z + snd z) gs)
         else sub gs)"

fun show_ip :: "IpAddr \<Rightarrow> string" where
  "show_ip (V4 a) = show_ipv4 a"
| "show_ip (V6 a) = show_ipv6 a"

fun show_sockaddr :: "SocketAddr \<Rightarrow> string" where
  "show_sockaddr (SockV4 a p) = show_ipv4 a @ '':'' @ nat_to_string (unat p)"
| "show_sockaddr (SockV6 a p s) =
     ''['' @ show_ipv6 a @ (if s = 0 then [] else ''%'' @ nat_to_string (unat s))
       @ '']:'' @ nat_to_string (unat p)"

section \<open>Parsing\<close>

fun read_given_char :: "char \<Rightarrow> string \<Rightarrow> string option" where
  "read_given_char c [] = None"
| "read_given_char c (x # xs) = (if x = c then Some xs else None)"

fun take_digits :: "nat \<Rightarrow> string \<Rightarrow> nat list \<times> string" where
  "take_digits radix [] = ([], [])"
| "take_digits radix (c # cs) =
     (case digit_of radix c of
        None \<Rightarrow> ([], c # cs)
      | Some d \<Rightarrow> let (ds, rest) = take_digits radix cs in (d # ds, rest))"

definition read_number ::
  "nat \<Rightarrow> nat option \<Rightarrow> bool \<Rightarrow> nat \<Rightarrow> string \<Rightarrow> (nat \<times> string) option" where
  "read_number radix max_digits allow_zero_prefix bound s =
     (let (ds, rest) = take_digits radix s;
          v = foldl (\<lambda>acc d. acc * radix + d) 0 ds
      in if (case max_digits of None \<Rightarrow> False | Some m \<Rightarrow> length ds > m) then None
         else if ds = [] then None
         else if \<not> allow_zero_prefix \<and> hd ds = 0 \<and> length ds > 1 then None
         else if v < bound then Some (v, rest) else None)"

definition read_separator ::
  "char \<Rightarrow> bool \<Rightarrow> (string \<Rightarrow> ('a \<times> string) option) \<Rightarrow> string \<Rightarrow> ('a \<times> string) option" where
  "read_separator sep first inner s =
     (if first then inner s else Option.bind (read_given_char sep s) inner)"

definition read_octet :: "string \<Rightarrow> (nat \<times> string) option" where
  "read_octet = read_number 10 (Some 3) False 256"

definition read_ipv4_addr :: "string \<Rightarrow> (nat \<times> string) option" where
  "read_ipv4_addr s = do {
     (a, s1) \<leftarrow> read_separator CHR ''.'' True read_octet s;
     (b, s2) \<leftarrow> read_separator CHR ''.'' False read_octet s1;
     (c, s3) \<leftarrow> read_separator CHR ''.'' False read_octet s2;
     (d, s4) \<leftarrow> read_separator CHR ''.'' False read_octet s3;
     Some (((a * 256 + b) * 256 + c) * 256 + d, s4) }"

fun read_groups :: "nat \<Rightarrow> bool \<Rightarrow> string \<Rightarrow> nat list \<times> bool \<times> string" where
  "read_groups 0 first s = ([], False, s)"
| "read_groups (Suc r) first s =
     (case (if 0 < r then read_separator CHR '':'' first read_ipv4_addr s else None) of
        Some (v4, s') \<Rightarrow> ([v4 div 65536, v4 mod 65536], True, s')
      | None \<Rightarrow>
          (case read_separator CHR '':'' first (read_number 16 (Some 4) True 65536) s of
             None \<Rightarrow> ([], False, s)
           | Some (g, s') \<Rightarrow>
               let (gs, v4, s'') = read_groups r False s' in (g # gs, v4, s'')))"

definition read_ipv6_addr :: "string \<Rightarrow> (nat list \<times> string) option" where
  "read_ipv6_addr s =
     (let (head, head_v4, s1) = read_groups 8 True s
      in if length head = 8 then Some (head, s1)
         else if head_v4 then None
         else do {
           s2 \<leftarrow> read_given_char CHR '':'' s1;
           s3 \<leftarrow> read_given_char CHR '':'' s2;
           let (tail, _, s4) = read_groups (7 - length head) True s3;
           Some (head @ replicate (8 - length head - length tail) 0 @ tail, s4) })"

definition v6_of_segments :: "nat list \<Rightarrow> 128 word" where
  "v6_of_segments gs = word_of_nat (foldl (\<lambda>acc g. acc * 65536 + g) 0 gs)"

definition read_ip_addr :: "string \<Rightarrow> (IpAddr \<times> string) option" where
  "read_ip_addr s =
     (case read_ipv4_addr s of
        Some (v, rest) \<Rightarrow> Some (V4 (word_of_nat v), rest)
      | None \<Rightarrow> map_option (\<lambda>(gs, rest). (V6 (v6_of_segments gs), rest)) (read_ipv6_addr s))"

text \<open>\<open>parse::<IpAddr>()\<close>: the whole input must be read.\<close>

definition parse_ip :: "string \<Rightarrow> IpAddr option" where
  "parse_ip s =
     (case read_ip_addr s of Some (ip, []) \<Rightarrow> Some ip | _ \<Rightarrow> None)"

definition read_port :: "string \<Rightarrow> (nat \<times> string) option" where
  "read_port s = Option.bind (read_given_char CHR '':'' s) (read_number 10 None True 65536)"

definition read_scope_id :: "string \<Rightarrow> (nat \<times> string) option" where
  "read_scope_id s =
     Option.bind (read_given_char CHR ''%'' s) (read_number 10 None True 4294967296)"

definition read_socket_addr_v4 :: "string \<Rightarrow> (SocketAddr \<times> string) option" where
  "read_socket_addr_v4 s = do {
     (v, s1) \<leftarrow> read_ipv4_addr s;
     (p, s2) \<leftarrow> read_port s1;
     Some (SockV4 (word_of_nat v) (word_of_nat p), s2) }"

definition read_socket_addr_v6 :: "string \<Rightarrow> (SocketAddr \<times> string) option" where
  "read_socket_addr_v6 s = do {
     s1 \<leftarrow> read_given_char CHR ''['' s;
     (gs, s2) \<leftarrow> read_ipv6_addr s1;
     let (scope, s3) = (case read_scope_id s2 of None \<Rightarrow> (0, s2) | Some r \<Rightarrow> r);
     s4 \<leftarrow> read_given_char CHR '']'' s3;
     (p, s5) \<leftarrow> read_port s4;
     Some (SockV6 (v6_of_segments gs) (word_of_nat p) (word_of_nat scope), s5) }"

definition parse_sockaddr :: "string \<Rightarrow> SocketAddr option" where
  "parse_sockaddr s =
     (case (case read_socket_addr_v4 s of Some r \<Rightarrow> Some r | None \<Rightarrow> read_socket_addr_v6 s) of
        Some (a, []) \<Rightarrow> Some a
      | _ \<Rightarrow> None)"

section \<open>Lemmas\<close>

lemma sa_new [simp]:
  "sa_ip (SocketAddr_new ip p) = ip" "sa_port (SocketAddr_new ip p) = p"
  by (cases ip; simp)+

lemma take_digits_nat_to_string:
  assumes "case rest of [] \<Rightarrow> True | c # _ \<Rightarrow> \<not> is_digit_char c"
    and "\<forall>d\<in>set ds. d < 10"
  shows "take_digits 10 (map digit_char ds @ rest) = (ds, rest)"
  using assms(2)
proof (induction ds)
  case Nil
  from assms(1) show ?case
    by (cases rest) (auto simp: is_digit_char_def)
next
  case (Cons d ds)
  then show ?case by simp
qed

text \<open>The decimal digits of a number, most significant first.\<close>

fun dec_digits :: "nat \<Rightarrow> nat list" where
  "dec_digits n = (if n < 10 then [n] else dec_digits (n div 10) @ [n mod 10])"

declare dec_digits.simps [simp del]

lemma nat_to_string_dec_digits: "nat_to_string n = map digit_char (dec_digits n)"
proof (induction n rule: dec_digits.induct)
  case (1 n)
  then show ?case
    by (cases "n < 10") (simp_all add: dec_digits.simps [of n] nat_to_string.simps [of n])
qed

lemma dec_digits_bound: "d \<in> set (dec_digits n) \<Longrightarrow> d < 10"
proof (induction n rule: dec_digits.induct)
  case (1 n)
  then show ?case by (cases "n < 10") (auto simp: dec_digits.simps [of n])
qed

lemma dec_digits_value: "foldl (\<lambda>acc d. acc * 10 + d) 0 (dec_digits n) = n"
proof (induction n rule: dec_digits.induct)
  case (1 n)
  then show ?case by (cases "n < 10") (simp_all add: dec_digits.simps [of n])
qed

lemma dec_digits_octet:
  assumes "n < 256"
  shows "length (dec_digits n) \<le> 3" "dec_digits n \<noteq> []"
    "hd (dec_digits n) = 0 \<Longrightarrow> length (dec_digits n) \<le> 1"
proof -
  have "n div 10 < 10 \<longleftrightarrow> n < 100" "n div 10 div 10 < 10" using assms by auto
  then have eq: "dec_digits n = (if n < 10 then [n] else if n < 100 then [n div 10, n mod 10]
      else [n div 10 div 10, n div 10 mod 10, n mod 10])"
    by (auto simp: dec_digits.simps [of n] dec_digits.simps [of "n div 10"]
        dec_digits.simps [of "n div 10 div 10"])
  show "length (dec_digits n) \<le> 3" "dec_digits n \<noteq> []" by (simp_all add: eq)
  show "length (dec_digits n) \<le> 1" if "hd (dec_digits n) = 0"
    using that by (auto simp: eq split: if_splits)
qed

lemma read_octet_nat_to_string:
  assumes "n < 256" "case rest of [] \<Rightarrow> True | c # _ \<Rightarrow> \<not> is_digit_char c"
  shows "read_octet (nat_to_string n @ rest) = Some (n, rest)"
proof -
  have td: "take_digits 10 (nat_to_string n @ rest) = (dec_digits n, rest)"
    unfolding nat_to_string_dec_digits
    by (rule take_digits_nat_to_string [OF assms(2)]) (simp add: dec_digits_bound)
  show ?thesis
    using dec_digits_octet [OF assms(1)] assms(1)
    by (auto simp: read_octet_def read_number_def td dec_digits_value)
qed

lemma read_ipv4_addr_show:
  "read_ipv4_addr (show_ipv4 a) = Some (unat a, [])"
proof -
  have "length (ipv4_octets a) = 4" by (simp add: ipv4_octets_def)
  then obtain o1 o2 o3 o4 where octs: "ipv4_octets a = [o1, o2, o3, o4]"
    by (auto simp: length_Suc_conv numeral_eq_Suc)
  have "be_nat (ipv4_octets a) = unat a"
    by (simp add: ipv4_octets_def be_nat_be_bytes)
  then have v: "((unat o1 * 256 + unat o2) * 256 + unat o3) * 256 + unat o4 = unat a"
    by (simp add: octs be_nat_def)
  have "read_octet (nat_to_string (unat o4)) = Some (unat o4, [])"
    using read_octet_nat_to_string [of "unat o4" "[]"] by simp
  with v show ?thesis
    by (simp add: read_ipv4_addr_def show_ipv4_def octs read_separator_def
        read_octet_nat_to_string)
qed

lemma parse_ip_show_ipv4: "parse_ip (show_ip (V4 a)) = Some (V4 a)"
  using read_ipv4_addr_show [of a] by (simp add: parse_ip_def read_ip_addr_def)

lemma read_groups_numeral [eval_simps]:
  "read_groups (numeral k) first s =
     (case (if 0 < (pred_numeral k :: nat)
            then read_separator CHR '':'' first read_ipv4_addr s else None) of
        Some (v4, s') \<Rightarrow> ([v4 div 65536, v4 mod 65536], True, s')
      | None \<Rightarrow>
          (case read_separator CHR '':'' first (read_number 16 (Some 4) True 65536) s of
             None \<Rightarrow> ([], False, s)
           | Some (g, s') \<Rightarrow>
               let (gs, v4, s'') = read_groups (pred_numeral k) False s' in (g # gs, v4, s'')))"
  by (subst numeral_eq_Suc) (rule read_groups.simps)

lemma segments_of_numeral [eval_simps]:
  "segments_of (numeral k) x = segments_of (pred_numeral k) (x div 65536) @ [x mod 65536]"
  by (subst numeral_eq_Suc) (rule segments_of.simps)

declare ipv4_new_def [eval_simps] ipv4_unspecified_def [eval_simps] ipv4_localhost_def [eval_simps]
  ipv4_octets_def [eval_simps] show_ipv4_def [eval_simps] hex_digit_char_def [eval_simps]
  nat_to_hex.simps [eval_simps] ipv6_segments_def [eval_simps] show_ipv6_def [eval_simps]
  read_number_def [eval_simps] read_separator_def [eval_simps] read_octet_def [eval_simps]
  read_ipv4_addr_def [eval_simps] read_ipv6_addr_def [eval_simps] v6_of_segments_def [eval_simps]
  read_ip_addr_def [eval_simps] parse_ip_def [eval_simps] read_port_def [eval_simps]
  read_scope_id_def [eval_simps] read_socket_addr_v4_def [eval_simps]
  read_socket_addr_v6_def [eval_simps] parse_sockaddr_def [eval_simps]

end
