(* ===== verification/Errors.thy ===== *)
theory Errors
  imports Rust_Str
begin

text \<open>
  The error types of \<^verbatim>\<open>src/src/error/types.rs\<close>: one constructor per variant, the \<open>Display\<close>
  texts generated from the \<open>#[error(...)]\<close> attributes, the classification functions
  \<open>is_recoverable\<close> and \<open>severity\<close>, and the \<open>ErrorExt\<close> combinators. Where two enums share
  a variant name, the second one carries a prefix here.

  \<open>std::io::Error\<close> is its kind and its text; \<open>toml::de::Error\<close>, which belongs to the
  \<open>toml\<close> crate, is the three observations the sources make of it: its message, its span and
  its text.
\<close>

datatype ErrorKind =
    NotFound | PermissionDeniedKind | ConnectionRefused | ConnectionResetKind
  | ConnectionAborted | NotConnected | AddrInUse | BrokenPipe | WouldBlock | TimedOut
  | Interrupted | UnexpectedEof | WriteZero | InvalidData | OtherKind

datatype IoError = IoError (io_kind: ErrorKind) (io_text: string)

datatype TomlError =
  TomlError (toml_message: string) (toml_span: "(nat \<times> nat) option") (toml_text: string)

datatype ConfigError =
    InvalidIpAddress string
  | PortInUse u16
  | PortBindError u16 string
  | InsufficientPrivileges u16
  | InvalidPort u16
  | InvalidTomlFormat string
  | InvalidConfigValue (cfg_path: string) (cfg_reason: string)
  | MissingRequiredField string
  | ConfigFileNotFound string
  | ReadFailed string
  | InvalidConfig string

datatype NetworkError =
    ConnectionFailed string
  | ListenFailed string
  | SocketCreationFailed string
  | AddressResolutionFailed string
  | ConnectionTimeout
  | ConnectionClosed
  | ConnectionReset
  | NetworkUnreachable
  | InvalidBufferSize nat
  | InvalidSocketOption string

datatype ProxyError =
    StartupFailed string
  | StopFailed string
  | ForwardingFailed string
  | ConnectionPoolError string
  | BufferPoolError string
  | InvalidProxyConfig string
  | InstanceNotFound string
  | ForwardingStrategyError string

datatype PerformanceError =
    TcpOptimizationFailed string
  | BufferPoolInitFailed string
  | ConnectionPoolInitFailed string
  | InsufficientResources string
  | InvalidPerformanceParameter string
  | ZeroCopyFailed string

datatype SystemError =
    SignalHandlingFailed string
  | InsufficientFileDescriptors
  | SystemCallFailed string
  | PermissionDenied string
  | ResourceExhausted string

datatype ReverseProxyError =
    ProtocolError string
  | HandshakeFailed string
  | ClientDisconnected
  | InvalidMessage string
  | SerializationFailed string
  | DeserializationFailed string
  | ControlChannelError string
  | PortAllocationError string
  | MultiplexingError string
  | RpConnectionFailed string
  | UnsupportedVersion u8
  | CryptoError string

datatype AppError =
    Config ConfigError
  | Network NetworkError
  | Proxy ProxyError
  | Performance PerformanceError
  | System SystemError
  | ReverseProxy ReverseProxyError
  | Io IoError
  | Serialization TomlError
  | Internal (internal_message: string)

section \<open>Display\<close>

fun show_ConfigError :: "ConfigError \<Rightarrow> string" where
  "show_ConfigError (InvalidIpAddress s) = ''Invalid IP address: '' @ s"
| "show_ConfigError (PortInUse p) =
     ''Port '' @ nat_to_string (unat p) @ '' is already in use''"
| "show_ConfigError (PortBindError p s) =
     ''Cannot bind to port '' @ nat_to_string (unat p) @ '': '' @ s"
| "show_ConfigError (InsufficientPrivileges p) =
     ''Insufficient privileges to bind to port '' @ nat_to_string (unat p)"
| "show_ConfigError (InvalidPort p) = ''Invalid port: '' @ nat_to_string (unat p)"
| "show_ConfigError (InvalidTomlFormat s) = ''Invalid TOML format: '' @ s"
| "show_ConfigError (InvalidConfigValue path reason) =
     ''Invalid configuration value at '' @ path @ '': '' @ reason"
| "show_ConfigError (MissingRequiredField s) =
     ''Missing required configuration field: '' @ s"
| "show_ConfigError (ConfigFileNotFound s) = ''Configuration file not found: '' @ s"
| "show_ConfigError (ReadFailed s) = ''Configuration file read failed: '' @ s"
| "show_ConfigError (InvalidConfig s) = ''Invalid configuration: '' @ s"

fun show_NetworkError :: "NetworkError \<Rightarrow> string" where
  "show_NetworkError (ConnectionFailed s) = ''Connection failed: '' @ s"
| "show_NetworkError (ListenFailed s) = ''Listen failed: '' @ s"
| "show_NetworkError (SocketCreationFailed s) = ''Socket creation failed: '' @ s"
| "show_NetworkError (AddressResolutionFailed s) = ''Address resolution failed: '' @ s"
| "show_NetworkError ConnectionTimeout = ''Connection timeout''"
| "show_NetworkError ConnectionClosed = ''Connection closed by remote''"
| "show_NetworkError ConnectionReset = ''Connection reset''"
| "show_NetworkError NetworkUnreachable = ''Network unreachable''"
| "show_NetworkError (InvalidBufferSize n) = ''Invalid buffer size: '' @ nat_to_string n"
| "show_NetworkError (InvalidSocketOption s) = ''Invalid socket option: '' @ s"

fun show_ProxyError :: "ProxyError \<Rightarrow> string" where
  "show_ProxyError (StartupFailed s) = ''Proxy startup failed: '' @ s"
| "show_ProxyError (StopFailed s) = ''Proxy stop failed: '' @ s"
| "show_ProxyError (ForwardingFailed s) = ''Data forwarding failed: '' @ s"
| "show_ProxyError (ConnectionPoolError s) = ''Connection pool error: '' @ s"
| "show_ProxyError (BufferPoolError s) = ''Buffer pool error: '' @ s"
| "show_ProxyError (InvalidProxyConfig s) = ''Invalid proxy configuration: '' @ s"
| "show_ProxyError (InstanceNotFound s) = ''Proxy instance not found: '' @ s"
| "show_ProxyError (ForwardingStrategyError s) = ''Forwarding strategy error: '' @ s"

fun show_PerformanceError :: "PerformanceError \<Rightarrow> string" where
  "show_PerformanceError (TcpOptimizationFailed s) = ''TCP optimization failed: '' @ s"
| "show_PerformanceError (BufferPoolInitFailed s) = ''Buffer pool initialization failed: '' @ s"
| "show_PerformanceError (ConnectionPoolInitFailed s) =
     ''Connection pool initialization failed: '' @ s"
| "show_PerformanceError (InsufficientResources s) = ''Insufficient system resources: '' @ s"
| "show_PerformanceError (InvalidPerformanceParameter s) =
     ''Invalid performance parameter: '' @ s"
| "show_PerformanceError (ZeroCopyFailed s) = ''Zero-Copy operation failed: '' @ s"

fun show_SystemError :: "SystemError \<Rightarrow> string" where
  "show_SystemError (SignalHandlingFailed s) = ''Signal handling failed: '' @ s"
| "show_SystemError InsufficientFileDescriptors = ''Insufficient file descriptors''"
| "show_SystemError (SystemCallFailed s) = ''System call failed: '' @ s"
| "show_SystemError (PermissionDenied s) = ''Permission denied: '' @ s"
| "show_SystemError (ResourceExhausted s) = ''System resource exhausted: '' @ s"

fun show_ReverseProxyError :: "ReverseProxyError \<Rightarrow> string" where
  "show_ReverseProxyError (ProtocolError s) = ''Protocol error: '' @ s"
| "show_ReverseProxyError (HandshakeFailed s) = ''Handshake failed: '' @ s"
| "show_ReverseProxyError ClientDisconnected = ''Client disconnected''"
| "show_ReverseProxyError (InvalidMessage s) = ''Invalid message: '' @ s"
| "show_ReverseProxyError (SerializationFailed s) = ''Message serialization failed: '' @ s"
| "show_ReverseProxyError (DeserializationFailed s) = ''Message deserialization failed: '' @ s"
| "show_ReverseProxyError (ControlChannelError s) = ''Control channel error: '' @ s"
| "show_ReverseProxyError (PortAllocationError s) = ''Port allocation failed: '' @ s"
| "show_ReverseProxyError (MultiplexingError s) = ''Connection multiplexing error: '' @ s"
| "show_ReverseProxyError (RpConnectionFailed s) = ''Connection failed: '' @ s"
| "show_ReverseProxyError (UnsupportedVersion v) =
     ''Unsupported protocol version: '' @ nat_to_string (unat v)"
| "show_ReverseProxyError (CryptoError s) = ''Cryptography error: '' @ s"

fun show_AppError :: "AppError \<Rightarrow> string" where
  "show_AppError (Config e) = ''Configuration error: '' @ show_ConfigError e"
| "show_AppError (Network e) = ''Network error: '' @ show_NetworkError e"
| "show_AppError (Proxy e) = ''Proxy error: '' @ show_ProxyError e"
| "show_AppError (Performance e) = ''Performance error: '' @ show_PerformanceError e"
| "show_AppError (System e) = ''System error: '' @ show_SystemError e"
| "show_AppError (ReverseProxy e) = ''Reverse proxy error: '' @ show_ReverseProxyError e"
| "show_AppError (Io e) = ''IO error: '' @ io_text e"
| "show_AppError (Serialization e) = ''Serialization error: '' @ toml_text e"
| "show_AppError (Internal m) = ''Internal error: '' @ m"

section \<open>Classification\<close>

datatype ErrorSeverity = Fatal | Error | Warning | Info

fun is_recoverable :: "AppError \<Rightarrow> bool" where
  "is_recoverable (Network ConnectionTimeout) = True"
| "is_recoverable (Network ConnectionClosed) = True"
| "is_recoverable (Network ConnectionReset) = True"
| "is_recoverable (System InsufficientFileDescriptors) = False"
| "is_recoverable (Config (InsufficientPrivileges _)) = False"
| "is_recoverable _ = True"

fun severity :: "AppError \<Rightarrow> ErrorSeverity" where
  "severity (Config _) = Fatal"
| "severity (System InsufficientFileDescriptors) = Fatal"
| "severity (Network ConnectionClosed) = Warning"
| "severity (Network ConnectionTimeout) = Error"
| "severity _ = Error"

text \<open>The \<open>ErrorExt\<close> combinators, for a result whose error is already an \<open>AppError\<close>.\<close>

definition with_context :: "string \<Rightarrow> AppError + 'a \<Rightarrow> AppError + 'a" where
  "with_context context r = map_err (\<lambda>e. Internal (context @ '': '' @ show_AppError e)) r"

definition AppError_internal :: "string \<Rightarrow> AppError" where
  "AppError_internal message = Internal message"

definition internal_error :: "AppError + 'a \<Rightarrow> AppError + 'a" where
  "internal_error r = map_err (\<lambda>e. Internal (''Internal error: '' @ show_AppError e)) r"

section \<open>Properties\<close>

lemma is_recoverable_iff:
  "is_recoverable e \<longleftrightarrow>
     e \<noteq> System InsufficientFileDescriptors \<and> (\<forall>p. e \<noteq> Config (InsufficientPrivileges p))"
  by (cases e rule: is_recoverable.cases) auto

lemma severity_Fatal_iff:
  "severity e = Fatal \<longleftrightarrow> (\<exists>c. e = Config c) \<or> e = System InsufficientFileDescriptors"
  by (cases e rule: severity.cases) auto

text \<open>
  An error the code calls unrecoverable is always one it rates fatal, and adding context to
  a result turns exactly its errors into \<open>Internal\<close> errors that still quote the original text.
\<close>

theorem unrecoverable_is_fatal:
  "(\<not> is_recoverable e \<longrightarrow> severity e = Fatal)
   \<and> with_context ctx (Err e :: AppError + 'a) = Err (Internal (ctx @ '': '' @ show_AppError e))
   \<and> with_context ctx (Ok a) = (Ok a :: AppError + 'a)"
  by (auto simp: is_recoverable_iff severity_Fatal_iff with_context_def)

theorem unrecoverable_is_fatal_witness:
  "\<not> is_recoverable (Config (InsufficientPrivileges 80))
   \<and> severity (Config (InsufficientPrivileges 80)) = Fatal"
proof -
  have "\<not> is_recoverable (Config (InsufficientPrivileges 80))" by simp
  with unrecoverable_is_fatal [of "Config (InsufficientPrivileges 80)" "[]" "()"]
  show ?thesis by blast
qed

end
