(* ===== verification/Config_Loader.thy ===== *)
theory Config_Loader
  imports Rust_Net Errors Complex_Main
begin

text \<open>
  The configuration file of \<^verbatim>\<open>src/src/config/loader.rs\<close>: its sections as records, the accessors that
  take host and port out of an address text, \<open>validate\<close>, the text pass that quotes a bare
  \<open>null\<close>, the error positions, and the search for a configuration file.

  A step that panics (slicing a \<open>str\<close> off a character boundary) is the value \<open>None\<close> of an
  outer option. \<open>toml::from_str\<close> is a parameter, as are the files: \<open>exists_path\<close> answers
  \<open>Path::exists\<close> and \<open>read_file\<close> is \<open>fs::read_to_string\<close>. What is written to standard error is
  the list of events returned beside a result.
\<close>

section \<open>Sections\<close>

text \<open>
  An \<open>f64\<close> is not a number, an infinity (positive or negative) or a rational number. The
  cast \<open>as usize\<close> truncates and saturates.
\<close>

datatype f64 = NaN | Infinite bool | Finite rat

fun f64_as_usize :: "f64 \<Rightarrow> nat" where
  "f64_as_usize NaN = 0"
| "f64_as_usize (Infinite positive) = (if positive then 2 ^ 64 - 1 else 0)"
| "f64_as_usize (Finite r) = min (nat \<lfloor>r\<rfloor>) (2 ^ 64 - 1)"

record ServerSection =
  bind_ip :: "string option"
  debug :: "bool option"

datatype AuthMode = AuthNone | Single | Multiple

definition ServerSection_default :: ServerSection where
  "ServerSection_default = \<lparr>bind_ip = Some ''127.0.0.1'', debug = Some False\<rparr>"

record ProxySection =
  px_local :: string
  px_remote :: string
  px_source_ip :: "string option"
  px_allow_ips :: "string list option"
  px_max_conns_per_ip :: "nat option"
  px_cps_limit :: "f64 option"

record ReverseProxySection =
  rp_server :: string
  rp_local :: string
  rp_source_ip :: "string option"

record ReverseProxyServerSection =
  rs_port :: u16
  rs_allowed_tokens :: "string list"
  rs_totp_secret :: "string option"

definition ReverseProxyServerSection_default :: ReverseProxyServerSection where
  "ReverseProxyServerSection_default =
     \<lparr>rs_port = 9001, rs_allowed_tokens = [], rs_totp_secret = None\<rparr>"

record ReverseProxyClientSection =
  rc_server :: string
  rc_token :: "string option"
  rc_totp_secret :: "string option"

record ConfigFile =
  server :: "ServerSection option"
  proxies :: "ProxySection list"
  token :: "string option"
  totp_secret :: "string option"
  reverse_proxies :: "ReverseProxySection list"
  reverse_proxy_server :: "ReverseProxyServerSection option"
  reverse_proxy_client :: "ReverseProxyClientSection option"

section \<open>Host and port of an address text\<close>

definition config_value_error :: "string \<Rightarrow> string \<Rightarrow> AppError" where
  "config_value_error path reason = Config (InvalidConfigValue path reason)"

definition parse_port_or :: "AppError \<Rightarrow> string \<Rightarrow> AppError + u16" where
  "parse_port_or e s = ok_or e (parse_u16 s)"

definition get_local_port :: "ProxySection \<Rightarrow> AppError + u16" where
  "get_local_port p =
     (let l = px_local p in
      if CHR '':'' \<in> set l then
        (let parts = split_on CHR '':'' l in
         if length parts \<noteq> 2 then
           Err (config_value_error ''local''
             (''Invalid local format '' @ [CHR 0x27] @ l @ [CHR 0x27] @ '', expected ''
              @ [CHR 0x27] @ ''IP:PORT'' @ [CHR 0x27] @ '' or '' @ [CHR 0x27] @ ''PORT'' @ [CHR 0x27]))
         else parse_port_or
           (config_value_error ''local'' (''Invalid port number in '' @ [CHR 0x27] @ l @ [CHR 0x27]))
           (parts ! 1))
      else parse_port_or
        (config_value_error ''local'' (''Invalid port number '' @ [CHR 0x27] @ l @ [CHR 0x27])) l)"

definition get_local_ip :: "ProxySection \<Rightarrow> string option" where
  "get_local_ip p =
     (let l = px_local p in
      if CHR '':'' \<in> set l then
        (let parts = split_on CHR '':'' l in
         if length parts = 2 then Some (parts ! 0) else None)
      else None)"

definition get_remote_host :: "ProxySection \<Rightarrow> AppError + string" where
  "get_remote_host p =
     (let r = px_remote p in
      if CHR '':'' \<in> set r then
        (let parts = split_on CHR '':'' r in
         if length parts < 2 then
           Err (config_value_error ''remote''
             (''Invalid remote format '' @ [CHR 0x27] @ r @ [CHR 0x27] @ '', expected ''
              @ [CHR 0x27] @ ''HOST:PORT'' @ [CHR 0x27] @ '' or '' @ [CHR 0x27] @ ''PORT'' @ [CHR 0x27]))
         else Ok (join_with '':'' (butlast parts)))
      else Ok ''localhost'')"

text \<open>
  The four port accessors that search from the right share their shape; the code spells each
  out with its own field name in the error.
\<close>

definition rsplit_port :: "string \<Rightarrow> string \<Rightarrow> AppError + u16" where
  "rsplit_port field s =
     (if CHR '':'' \<in> set s then
        (let parts = rev (split_on CHR '':'' s) in
         if length parts < 2 then
           Err (config_value_error field
             (''Invalid '' @ field @ '' format '' @ [CHR 0x27] @ s @ [CHR 0x27]))
         else parse_port_or
           (config_value_error field (''Invalid port number in '' @ [CHR 0x27] @ s @ [CHR 0x27]))
           (parts ! 0))
      else parse_port_or
        (config_value_error field (''Invalid port number '' @ [CHR 0x27] @ s @ [CHR 0x27])) s)"

definition get_remote_port :: "ProxySection \<Rightarrow> AppError + u16" where
  "get_remote_port p = rsplit_port ''remote'' (px_remote p)"

definition get_server_port :: "ReverseProxySection \<Rightarrow> AppError + u16" where
  "get_server_port r = rsplit_port ''server'' (rp_server r)"

definition get_reverse_local_port :: "ReverseProxySection \<Rightarrow> AppError + u16" where
  "get_reverse_local_port r = rsplit_port ''local'' (rp_local r)"

definition get_server_ip :: "ReverseProxySection \<Rightarrow> string option" where
  "get_server_ip r =
     (let s = rp_server r in
      if CHR '':'' \<in> set s then
        (let parts = split_on CHR '':'' s in
         if 2 \<le> length parts then Some (join_with '':'' (butlast parts)) else None)
      else None)"

definition get_local_host :: "ReverseProxySection \<Rightarrow> string option" where
  "get_local_host r =
     (let s = rp_local r in
      if CHR '':'' \<in> set s then
        (let parts = split_on CHR '':'' s in
         if 2 \<le> length parts then Some (join_with '':'' (butlast parts))
         else Some ''localhost'')
      else Some ''localhost'')"

definition get_runtime_mode :: "ConfigFile \<Rightarrow> string" where
  "get_runtime_mode c =
     (if reverse_proxy_client c \<noteq> None then ''reverse_client''
      else if reverse_proxy_server c \<noteq> None then ''reverse_server''
      else if proxies c \<noteq> [] then ''forward''
      else ''unknown'')"

section \<open>Validation\<close>

definition quoted :: "string \<Rightarrow> string" where
  "quoted s = [CHR 0x27] @ s @ [CHR 0x27]"

text \<open>Each step returns the errors and the warnings it pushes and the values it updates.\<close>

definition validate_server ::
  "ServerSection option \<Rightarrow> string list \<times> string list \<times> ServerSection option" where
  "validate_server so =
     (case so of None \<Rightarrow> ([], [], None)
      | Some srv \<Rightarrow>
        (case bind_ip srv of None \<Rightarrow> ([], [], Some srv)
         | Some current \<Rightarrow>
           (let trimmed = trim current in
            if trimmed = [] then
              ([], [''server.bind_ip is empty, falling back to default 127.0.0.1''],
               Some (srv\<lparr>bind_ip := Some ''127.0.0.1''\<rparr>))
            else if parse_ip trimmed = None then
              ([''server.bind_ip '' @ quoted trimmed @ '' is not a valid IP address''], [], Some srv)
            else if trimmed \<noteq> current then ([], [], Some (srv\<lparr>bind_ip := Some trimmed\<rparr>))
            else ([], [], Some srv))))"

text \<open>The outcome of checking a \<open>source_ip\<close>; the last component says whether to clear it.\<close>

definition validate_source_ip ::
  "string \<Rightarrow> string option \<Rightarrow> string list \<times> string list \<times> bool" where
  "validate_source_ip prefix so =
     (case so of None \<Rightarrow> ([], [], False)
      | Some source_ip \<Rightarrow>
        (let trimmed = trim source_ip in
         if trimmed = [] then
           ([], [prefix @ ''.source_ip is empty and will be ignored''], True)
         else if eq_ignore_ascii_case trimmed ''null'' then
           ([], [prefix @ ''.source_ip contains '' @ quoted ''null'' @ '' value; will be ignored''],
            True)
         else if parse_ip trimmed = None then
           ([prefix @ ''.source_ip '' @ quoted trimmed @ '' is not a valid IP address''], [], False)
         else ([], [], False)))"

definition validate_proxy ::
  "nat \<Rightarrow> u16 set \<Rightarrow> ProxySection
   \<Rightarrow> string list \<times> string list \<times> u16 set \<times> ProxySection" where
  "validate_proxy index local_ports p =
     (let prefix = ''proxies['' @ nat_to_string index @ '']'' in
      case get_local_port p of
        Inl e \<Rightarrow> ([prefix @ ''.local: '' @ show_AppError e], [], local_ports, p)
      | Inr local_port \<Rightarrow>
        (let e1 = (if local_port = 0
                   then [prefix @ ''.local port must be between 1 and 65535''] else []) in
         case get_remote_host p of
           Inl e \<Rightarrow> (e1 @ [prefix @ ''.remote: '' @ show_AppError e], [], local_ports, p)
         | Inr _ \<Rightarrow>
           (case get_remote_port p of
              Inl e \<Rightarrow> (e1 @ [prefix @ ''.remote: '' @ show_AppError e], [], local_ports, p)
            | Inr remote_port \<Rightarrow>
              (let e2 = (if remote_port = 0
                         then [prefix @ ''.remote port must be between 1 and 65535''] else []);
                   e3 = (if local_port \<in> local_ports
                         then [''Duplicate local port '' @ nat_to_string (unat local_port)
                               @ '' detected in '' @ prefix] else []);
                   (e4, w, clear) = validate_source_ip prefix (px_source_ip p)
               in (e1 @ e2 @ e3 @ e4, w, insert local_port local_ports,
                   if clear then p\<lparr>px_source_ip := None\<rparr> else p)))))"

fun validate_proxies ::
  "nat \<Rightarrow> u16 set \<Rightarrow> ProxySection list
   \<Rightarrow> string list \<times> string list \<times> ProxySection list" where
  "validate_proxies index local_ports [] = ([], [], [])"
| "validate_proxies index local_ports (p # ps) =
     (let (e, w, local_ports', p') = validate_proxy index local_ports p;
          (es, ws, ps') = validate_proxies (Suc index) local_ports' ps
      in (e @ es, w @ ws, p' # ps'))"

definition validate_reverse_proxy ::
  "nat \<Rightarrow> u16 set \<Rightarrow> ReverseProxySection \<Rightarrow> string list \<times> string list \<times> u16 set" where
  "validate_reverse_proxy index server_ports r =
     (let prefix = ''reverse_proxies['' @ nat_to_string index @ '']'' in
      case get_server_port r of
        Inl e \<Rightarrow> ([prefix @ ''.server: '' @ show_AppError e], [], server_ports)
      | Inr server_port \<Rightarrow>
        (let e1 = (if server_port = 0
                   then [prefix @ ''.server port must be between 1 and 65535''] else []);
             e2 = (if server_port \<in> server_ports
                   then [''Duplicate server port '' @ nat_to_string (unat server_port)
                         @ '' detected in '' @ prefix] else []);
             server_ports' = insert server_port server_ports
         in case get_reverse_local_port r of
              Inl e \<Rightarrow> (e1 @ e2 @ [prefix @ ''.local: '' @ show_AppError e], [], server_ports')
            | Inr local_port \<Rightarrow>
              (let e3 = (if local_port = 0
                         then [prefix @ ''.local port must be between 1 and 65535''] else []);
                   (e4, w, _) = validate_source_ip prefix (rp_source_ip r)
               in (e1 @ e2 @ e3 @ e4, w, server_ports'))))"

fun validate_reverse_proxies ::
  "nat \<Rightarrow> u16 set \<Rightarrow> ReverseProxySection list \<Rightarrow> string list \<times> string list" where
  "validate_reverse_proxies index server_ports [] = ([], [])"
| "validate_reverse_proxies index server_ports (r # rs) =
     (let (e, w, server_ports') = validate_reverse_proxy index server_ports r;
          (es, ws) = validate_reverse_proxies (Suc index) server_ports' rs
      in (e @ es, w @ ws))"

text \<open>\<open>validate\<close> updates the configuration it is called on, also when it fails.\<close>

definition validate :: "ConfigFile \<Rightarrow> (ConfigError + string list) \<times> ConfigFile" where
  "validate c =
     (let e0 = (if reverse_proxies c \<noteq> [] \<and> reverse_proxy_server c = None
                   \<and> reverse_proxy_client c = None
                then [''Reverse proxies configured but neither reverse_proxy_server nor reverse_proxy_client specified'']
                else []);
          (e1, w1, srv') = validate_server (server c);
          (e2, w2, ps') = validate_proxies 0 {} (proxies c);
          (e3, w3) = validate_reverse_proxies 0 {} (reverse_proxies c);
          errors = e0 @ e1 @ e2 @ e3;
          c' = c\<lparr>server := srv', proxies := ps'\<rparr>
      in if errors \<noteq> []
         then (Err (InvalidConfigValue ''config'' (join_with ''; '' errors)), c')
         else (Ok (w1 @ w2 @ w3), c'))"

section \<open>The text pass before parsing\<close>

definition strip_newline :: "string \<Rightarrow> string \<times> string" where
  "strip_newline raw_line =
     (if raw_line \<noteq> [] \<and> last raw_line = CHR 0x0A then (butlast raw_line, [CHR 0x0A])
      else (raw_line, []))"

definition starts_with_ws_or_hash :: "string \<Rightarrow> bool" where
  "starts_with_ws_or_hash s = (ws_len s \<noteq> 0 \<or> (s \<noteq> [] \<and> hd s = CHR ''#''))"

text \<open>One line without its newline; \<open>None\<close> when \<open>trimmed_rest[..4]\<close> panics.\<close>

definition sanitize_line :: "string \<Rightarrow> string option" where
  "sanitize_line line_body =
     (case find_char CHR ''='' line_body of
        None \<Rightarrow> Some line_body
      | Some eq_index \<Rightarrow>
        (let key_part = take eq_index line_body in
         if eq_ignore_ascii_case (trim key_part) ''source_ip'' then
           (let prefix = take (Suc eq_index) line_body;
                rest = drop (Suc eq_index) line_body;
                trimmed_rest = trim_start rest
            in if 4 \<le> length trimmed_rest then
                 (if \<not> is_char_boundary trimmed_rest 4 then None
                  else if eq_ignore_ascii_case (take 4 trimmed_rest) ''null'' then
                    (let remainder = drop 4 trimmed_rest in
                     if remainder = [] \<or> starts_with_ws_or_hash remainder then
                       (let whitespace_len = length rest - length trimmed_rest in
                        Some (prefix @ take whitespace_len rest
                              @ [CHR 0x22] @ ''null'' @ [CHR 0x22]
                              @ drop (whitespace_len + 4) rest))
                     else Some line_body)
                  else Some line_body)
               else Some line_body)
         else Some line_body))"

fun sanitize_lines :: "string list \<Rightarrow> string option" where
  "sanitize_lines [] = Some []"
| "sanitize_lines (raw_line # ls) =
     (let (line_body, newline) = strip_newline raw_line in
      Option.bind (sanitize_line line_body) (\<lambda>replaced_line.
      Option.bind (sanitize_lines ls) (\<lambda>rest. Some (replaced_line @ newline @ rest))))"

definition ends_with_newline :: "string \<Rightarrow> bool" where
  "ends_with_newline s = (s \<noteq> [] \<and> last s = CHR 0x0A)"

definition sanitize_special_values :: "string \<Rightarrow> (string \<times> string list) option" where
  "sanitize_special_values content =
     Option.bind (sanitize_lines (split_inclusive CHR 0x0A content)) (\<lambda>sanitized.
       Some (if \<not> ends_with_newline content \<and> ends_with_newline sanitized
             then butlast sanitized else sanitized, []))"

section \<open>Errors of the TOML parser\<close>

fun line_col_loop :: "nat \<Rightarrow> nat \<Rightarrow> string \<Rightarrow> nat \<times> nat" where
  "line_col_loop line column [] = (line, column)"
| "line_col_loop line column (b # bs) =
     (if b = CHR 0x0A then line_col_loop (line + 1) 1 bs
      else if b = CHR 0x0D then line_col_loop line 1 bs
      else line_col_loop line (column + 1) bs)"

definition offset_to_line_col :: "string \<Rightarrow> nat \<Rightarrow> nat \<times> nat" where
  "offset_to_line_col content offset =
     line_col_loop 1 1 (take (min offset (length content)) content)"

definition toml_format_error :: "string \<Rightarrow> TomlError \<Rightarrow> ConfigError" where
  "toml_format_error content err =
     (let (line, column) = (case toml_span err of
                              None \<Rightarrow> (0, 0)
                            | Some (start, _) \<Rightarrow> offset_to_line_col content start)
      in InvalidTomlFormat
           (''TOML parse error at line '' @ nat_to_string line @ '', column ''
            @ nat_to_string column @ '': '' @ toml_message err @ [CHR 0x0A]
            @ ''Tip: Check for syntax errors like '' @ quoted ''null''
            @ '' values (should be omitted), missing quotes, or invalid data types''))"

definition map_toml_error :: "string \<Rightarrow> TomlError \<Rightarrow> ConfigError" where
  "map_toml_error content err =
     (case strip_prefix ''missing field `'' (toml_message err) of
        None \<Rightarrow> toml_format_error content err
      | Some field \<Rightarrow>
        (case find_char CHR 0x60 field of
           None \<Rightarrow> toml_format_error content err
         | Some end_ix \<Rightarrow> MissingRequiredField (take end_ix field)))"

section \<open>Loading\<close>

definition load_from_str_with_warnings ::
  "(string \<Rightarrow> TomlError + ConfigFile) \<Rightarrow> string
   \<Rightarrow> (ConfigError + ConfigFile \<times> string list) option" where
  "load_from_str_with_warnings from_str content =
     Option.bind (sanitize_special_values content) (\<lambda>(sanitized, warnings).
       Some (and_then (map_err (map_toml_error sanitized) (from_str sanitized)) (\<lambda>config.
         (case validate config of
            (Inl e, _) \<Rightarrow> Err e
          | (Inr validation_warnings, config') \<Rightarrow> Ok (config', warnings @ validation_warnings)))))"

datatype LogEvent =
    ConfigurationWarning string
  | CliLoadFailed string AppError
  | LoadFailed string AppError

definition emit_warnings :: "string list \<Rightarrow> LogEvent list" where
  "emit_warnings warnings = map ConfigurationWarning warnings"

definition load_from_str ::
  "(string \<Rightarrow> TomlError + ConfigFile) \<Rightarrow> string
   \<Rightarrow> (LogEvent list \<times> (AppError + ConfigFile)) option" where
  "load_from_str from_str content =
     Option.bind (load_from_str_with_warnings from_str content) (\<lambda>r.
       Some (case r of
               Inl e \<Rightarrow> ([], Err (Config e))
             | Inr (config, warnings) \<Rightarrow> (emit_warnings warnings, Ok config)))"

definition load_from_file ::
  "(string \<Rightarrow> TomlError + ConfigFile) \<Rightarrow> (string \<Rightarrow> IoError + string) \<Rightarrow> string
   \<Rightarrow> (LogEvent list \<times> (AppError + ConfigFile)) option" where
  "load_from_file from_str read_file path =
     (case read_file path of
        Inl e \<Rightarrow>
          Some ([], Err (Config
            (if io_kind e = NotFound then ConfigFileNotFound path
             else ReadFailed (''Failed to read config file '' @ quoted path @ '': '' @ io_text e))))
      | Inr content \<Rightarrow>
          Option.bind (load_from_str_with_warnings from_str content) (\<lambda>r.
            Some (case r of
                    Inl e \<Rightarrow> ([], Err (Config e))
                  | Inr (config, warnings) \<Rightarrow> (emit_warnings warnings, Ok config))))"

definition parse_ip_address :: "string \<Rightarrow> AppError + IpAddr" where
  "parse_ip_address ip_str =
     (let trimmed = trim ip_str in
      ok_or (Config (InvalidIpAddress trimmed)) (parse_ip trimmed))"

definition create_socket_addr :: "string \<Rightarrow> u16 \<Rightarrow> AppError + SocketAddr" where
  "create_socket_addr host port =
     ok_or (Config (InvalidIpAddress
              (''Invalid IP address '' @ quoted host @ ''. Tunnel proxy requires IP addresses, not hostnames. Use nslookup or dig to resolve hostnames manually.'')))
       (map_option (\<lambda>ip. SocketAddr_new ip port) (parse_ip host))"

text \<open>The \<open>Debug\<close> text of a path: quoted, with quotes, backslashes and control bytes escaped.\<close>

definition debug_char :: "char \<Rightarrow> string" where
  "debug_char c =
     (let n = of_char c :: nat; bs = CHR 0x5C in
      if c = CHR 0x22 \<or> c = bs then [bs, c]
      else if n = 9 then [bs, CHR ''t''] else if n = 10 then [bs, CHR ''n'']
      else if n = 13 then [bs, CHR ''r''] else if n = 0 then [bs, CHR ''0'']
      else if n < 32 \<or> n = 127 then [bs] @ ''u{'' @ nat_to_hex n @ ''}''
      else [c])"

definition debug_str :: "string \<Rightarrow> string" where
  "debug_str s = [CHR 0x22] @ concat (map debug_char s) @ [CHR 0x22]"

definition debug_list :: "string list \<Rightarrow> string" where
  "debug_list xs = ''['' @ join_with '', '' (map debug_str xs) @ '']''"

fun cli_scan :: "string list \<Rightarrow> string option" where
  "cli_scan (a # b # rest) =
     (if a = ''-c'' \<or> a = ''--config'' then Some b else cli_scan (b # rest))"
| "cli_scan _ = None"

definition get_cli_config_path :: "string list \<Rightarrow> string option" where
  "get_cli_config_path args = cli_scan (tl args)"

definition get_config_search_paths :: "string list" where
  "get_config_search_paths = [''default.toml'', ''config.toml'', ''gsc-fq.toml'']"

fun search_paths_loop ::
  "(string \<Rightarrow> TomlError + ConfigFile) \<Rightarrow> (string \<Rightarrow> bool) \<Rightarrow> (string \<Rightarrow> IoError + string)
   \<Rightarrow> string list \<Rightarrow> (LogEvent list \<times> (ConfigFile \<times> string) option) option" where
  "search_paths_loop from_str exists_path read_file [] = Some ([], None)"
| "search_paths_loop from_str exists_path read_file (path # paths) =
     (if exists_path path then
        (case load_from_file from_str read_file path of
           None \<Rightarrow> None
         | Some (evs, Inr config) \<Rightarrow> Some (evs, Some (config, path))
         | Some (evs, Inl e) \<Rightarrow>
             map_option (apfst (\<lambda>l. evs @ [LoadFailed path e] @ l))
               (search_paths_loop from_str exists_path read_file paths))
      else search_paths_loop from_str exists_path read_file paths)"

definition load_with_search ::
  "(string \<Rightarrow> TomlError + ConfigFile) \<Rightarrow> (string \<Rightarrow> bool) \<Rightarrow> (string \<Rightarrow> IoError + string)
   \<Rightarrow> string list \<Rightarrow> (LogEvent list \<times> (AppError + ConfigFile \<times> string)) option" where
  "load_with_search from_str exists_path read_file args =
     (case get_cli_config_path args of
        Some path \<Rightarrow>
          if exists_path path then
            map_option
              (\<lambda>(evs, r). case r of
                 Inr config \<Rightarrow> (evs, Ok (config, path))
               | Inl e \<Rightarrow> (evs @ [CliLoadFailed path e], Err e))
              (load_from_file from_str read_file path)
          else Some ([], Err (Config (ConfigFileNotFound
                 (''CLI specified config file not found: '' @ debug_str path))))
      | None \<Rightarrow>
          map_option
            (\<lambda>(evs, found). (evs, case found of
               Some cp \<Rightarrow> Ok cp
             | None \<Rightarrow> Err (Config (ConfigFileNotFound
                 (''No configuration file found. Searched: ''
                  @ debug_list get_config_search_paths)))))
            (search_paths_loop from_str exists_path read_file get_config_search_paths))"

section \<open>Addresses\<close>

lemma colon_notin_nat: "CHR '':'' \<notin> set (nat_to_string n)"
  by (meson digit_not_special nat_to_string_digits)

lemma get_remote_host_Ok:
  "get_remote_host p =
     Ok (if CHR '':'' \<in> set (px_remote p) then join_with '':'' (butlast (split_on CHR '':'' (px_remote p)))
         else ''localhost'')"
  using length_split_ge2 [of "CHR '':''" "px_remote p"] by (auto simp: get_remote_host_def Let_def)

lemma rsplit_port_roundtrip: "rsplit_port field (h @ CHR '':'' # nat_to_string (unat port)) = Ok port"
  by (simp add: rsplit_port_def Let_def split_on_snoc colon_notin_nat parse_port_or_def
      parse_u16_nat_to_string)

lemma rsplit_port_bare: "rsplit_port field (nat_to_string (unat port)) = Ok port"
  by (simp add: rsplit_port_def colon_notin_nat parse_port_or_def parse_u16_nat_to_string)

lemma get_local_port_colon:
  "px_local p = h @ '':'' @ nat_to_string (unat port) \<Longrightarrow>
   (if CHR '':'' \<in> set h then \<not> is_ok (get_local_port p) \<and> get_local_ip p = None
    else get_local_port p = Ok port \<and> get_local_ip p = Some h)"
  using length_split_ge2 [of "CHR '':''" h]
  by (auto simp: get_local_port_def get_local_ip_def Let_def split_on_snoc colon_notin_nat
      split_on_no_sep parse_port_or_def parse_u16_nat_to_string)

text \<open>
  C36. Address texts round trip: from \<open>host:port\<close> the accessors recover exactly the host (with any
  colons of its own) and the port, for the remote side of a forward proxy and for both sides
  of a reverse proxy, and from a bare port they recover the port with host \<open>localhost\<close>. The
  local side of a forward proxy is the exception: it is refused when the host contains a colon,
  so an IPv6 address cannot be bound.
\<close>

theorem address_text_roundtrip:
  "get_remote_host (p\<lparr>px_remote := h @ '':'' @ nat_to_string (unat port)\<rparr>) = Ok h
   \<and> get_remote_port (p\<lparr>px_remote := h @ '':'' @ nat_to_string (unat port)\<rparr>) = Ok port
   \<and> get_server_ip (r\<lparr>rp_server := h @ '':'' @ nat_to_string (unat port)\<rparr>) = Some h
   \<and> get_server_port (r\<lparr>rp_server := h @ '':'' @ nat_to_string (unat port)\<rparr>) = Ok port
   \<and> get_local_host (r\<lparr>rp_local := h @ '':'' @ nat_to_string (unat port)\<rparr>) = Some h
   \<and> get_reverse_local_port (r\<lparr>rp_local := h @ '':'' @ nat_to_string (unat port)\<rparr>) = Ok port
   \<and> get_remote_host (p\<lparr>px_remote := nat_to_string (unat port)\<rparr>) = Ok ''localhost''
   \<and> get_remote_port (p\<lparr>px_remote := nat_to_string (unat port)\<rparr>) = Ok port
   \<and> is_ok (get_local_port (p\<lparr>px_local := h @ '':'' @ nat_to_string (unat port)\<rparr>))
       = (CHR '':'' \<notin> set h)"
  using get_local_port_colon [of "p\<lparr>px_local := h @ '':'' @ nat_to_string (unat port)\<rparr>" h port]
  by (auto simp: get_remote_host_def get_remote_port_def get_server_ip_def get_server_port_def
      get_local_host_def get_reverse_local_port_def rsplit_port_roundtrip rsplit_port_bare Let_def
      split_on_snoc join_split_on colon_notin_nat Suc_le_eq split: if_splits)

section \<open>What validation accepts\<close>

definition source_ip_ok :: "string option \<Rightarrow> bool" where
  "source_ip_ok so =
     (case so of None \<Rightarrow> True
      | Some s \<Rightarrow> trim s = [] \<or> eq_ignore_ascii_case (trim s) ''null'' \<or> parse_ip (trim s) \<noteq> None)"

definition bind_ip_ok :: "ServerSection option \<Rightarrow> bool" where
  "bind_ip_ok so =
     (case Option.bind so bind_ip of None \<Rightarrow> True
      | Some b \<Rightarrow> trim b = [] \<or> parse_ip (trim b) \<noteq> None)"

definition port_ok :: "AppError + u16 \<Rightarrow> bool" where
  "port_ok r = (case r of Inl _ \<Rightarrow> False | Inr p \<Rightarrow> p \<noteq> 0)"

definition proxy_ok :: "ProxySection \<Rightarrow> bool" where
  "proxy_ok p = (port_ok (get_local_port p) \<and> port_ok (get_remote_port p)
                 \<and> source_ip_ok (px_source_ip p))"

definition reverse_proxy_ok :: "ReverseProxySection \<Rightarrow> bool" where
  "reverse_proxy_ok r = (port_ok (get_server_port r) \<and> port_ok (get_reverse_local_port r)
                         \<and> source_ip_ok (rp_source_ip r))"

definition config_ok :: "ConfigFile \<Rightarrow> bool" where
  "config_ok c =
     ((reverse_proxies c = [] \<or> reverse_proxy_server c \<noteq> None \<or> reverse_proxy_client c \<noteq> None)
      \<and> bind_ip_ok (server c)
      \<and> list_all proxy_ok (proxies c) \<and> distinct (map get_local_port (proxies c))
      \<and> list_all reverse_proxy_ok (reverse_proxies c)
      \<and> distinct (map get_server_port (reverse_proxies c)))"

lemma validate_source_ip_errors:
  "fst (validate_source_ip prefix so) = [] \<longleftrightarrow> source_ip_ok so"
  by (auto simp: validate_source_ip_def source_ip_ok_def Let_def split: option.splits)

lemma validate_server_errors: "fst (validate_server so) = [] \<longleftrightarrow> bind_ip_ok so"
  by (auto simp: validate_server_def bind_ip_ok_def Let_def split: option.splits)

lemma validate_proxy_errors:
  "fst (validate_proxy i S p) = [] \<longleftrightarrow> proxy_ok p \<and> get_local_port p \<notin> Inr ` S"
  using validate_source_ip_errors [of "''proxies['' @ nat_to_string i @ '']''" "px_source_ip p"]
  by (auto simp: validate_proxy_def proxy_ok_def port_ok_def get_remote_host_Ok Let_def
           split: sum.splits prod.splits)

lemma validate_proxy_ports:
  "proxy_ok p \<Longrightarrow> Inr ` fst (snd (snd (validate_proxy i S p))) = insert (get_local_port p) (Inr ` S)"
  by (auto simp: validate_proxy_def proxy_ok_def port_ok_def get_remote_host_Ok Let_def
           split: sum.splits prod.splits)

lemma validate_proxies_errors:
  "fst (validate_proxies i S ps) = [] \<longleftrightarrow>
     list_all proxy_ok ps \<and> distinct (map get_local_port ps)
     \<and> get_local_port ` set ps \<inter> Inr ` S = {}"
proof (induction ps arbitrary: i S)
  case (Cons p ps)
  obtain e w S' p' where v: "validate_proxy i S p = (e, w, S', p')" by (metis prod_cases4)
  show ?case
  proof (cases "proxy_ok p")
    case True
    with v validate_proxy_ports [of p i S] have "Inr ` S' = insert (get_local_port p) (Inr ` S)" by simp
    with True v Cons [of "Suc i" S'] validate_proxy_errors [of i S p] show ?thesis
      by (auto split: prod.splits)
  next
    case False
    with v validate_proxy_errors [of i S p] show ?thesis by (auto split: prod.splits)
  qed
qed simp

lemma validate_reverse_proxy_errors:
  "fst (validate_reverse_proxy i S r) = [] \<longleftrightarrow> reverse_proxy_ok r \<and> get_server_port r \<notin> Inr ` S"
  using validate_source_ip_errors [of "''reverse_proxies['' @ nat_to_string i @ '']''" "rp_source_ip r"]
  by (auto simp: validate_reverse_proxy_def reverse_proxy_ok_def port_ok_def Let_def
           split: sum.splits prod.splits)

lemma validate_reverse_proxy_ports:
  "reverse_proxy_ok r \<Longrightarrow>
     Inr ` snd (snd (validate_reverse_proxy i S r)) = insert (get_server_port r) (Inr ` S)"
  by (auto simp: validate_reverse_proxy_def reverse_proxy_ok_def port_ok_def Let_def
           split: sum.splits prod.splits)

lemma validate_reverse_proxies_errors:
  "fst (validate_reverse_proxies i S rs) = [] \<longleftrightarrow>
     list_all reverse_proxy_ok rs \<and> distinct (map get_server_port rs)
     \<and> get_server_port ` set rs \<inter> Inr ` S = {}"
proof (induction rs arbitrary: i S)
  case (Cons r rs)
  obtain e w S' where v: "validate_reverse_proxy i S r = (e, w, S')" by (metis prod_cases3)
  show ?case
  proof (cases "reverse_proxy_ok r")
    case True
    with v validate_reverse_proxy_ports [of r i S] have "Inr ` S' = insert (get_server_port r) (Inr ` S)"
      by simp
    with True v Cons [of "Suc i" S'] validate_reverse_proxy_errors [of i S r] show ?thesis
      by (auto split: prod.splits)
  next
    case False
    with v validate_reverse_proxy_errors [of i S r] show ?thesis by (auto split: prod.splits)
  qed
qed simp

lemma validate_ok_iff: "is_ok (fst (validate c)) \<longleftrightarrow> config_ok c"
proof -
  obtain e1 w1 s' e2 w2 ps' e3 w3 where v: "validate_server (server c) = (e1, w1, s')"
    "validate_proxies 0 {} (proxies c) = (e2, w2, ps')"
    "validate_reverse_proxies 0 {} (reverse_proxies c) = (e3, w3)"
    by (metis prod_cases3 surj_pair)
  with validate_server_errors [of "server c"] validate_proxies_errors [of 0 "{}" "proxies c"]
    validate_reverse_proxies_errors [of 0 "{}" "reverse_proxies c"]
  show ?thesis by (simp add: validate_def config_ok_def Let_def)
qed

text \<open>
  C1. \<open>validate\<close> accepts exactly the well-formed configurations: every port text parses to a
  non-zero port, no two forward proxies share a local port and no two reverse proxies a server
  port, every source address and the bind address is empty or an IP address (a source address
  may also be \<open>null\<close>), and reverse proxies come with a server or a client section.
\<close>

theorem validate_accepts_exactly_config_ok: "is_ok (fst (validate c)) \<longleftrightarrow> config_ok c"
  by (rule validate_ok_iff)

lemma parse_ip_localhost [simp]: "parse_ip ''127.0.0.1'' = Some (V4 2130706433)"
  by (simp add: eval_simps)

lemma trim_localhost [simp]: "trim ''127.0.0.1'' = ''127.0.0.1''"
  by (simp add: eval_simps)

lemma validate_server_normal:
  "validate_server so = ([], ws, so') \<Longrightarrow> validate_server so' = ([], [], so')"
  by (auto simp: validate_server_def Let_def split: option.splits if_splits)

lemma validate_source_ip_cleared:
  "validate_source_ip prefix so = ([], w, clear) \<Longrightarrow>
     validate_source_ip prefix (if clear then None else so) = ([], [], False)"
  by (auto simp: validate_source_ip_def Let_def split: option.splits if_splits)

lemma get_ports_source_ip [simp]:
  "get_local_port (p\<lparr>px_source_ip := x\<rparr>) = get_local_port p"
  "get_remote_port (p\<lparr>px_source_ip := x\<rparr>) = get_remote_port p"
  by (simp_all add: get_local_port_def get_remote_port_def)

lemma validate_proxy_normal:
  assumes "validate_proxy i S p = ([], w, S', p')"
  shows "validate_proxy i S p' = ([], [], S', p')"
proof -
  let ?prefix = "''proxies['' @ nat_to_string i @ '']''"
  obtain e w' clear where s: "validate_source_ip ?prefix (px_source_ip p) = (e, w', clear)"
    by (metis prod_cases3)
  with assms have e: "e = []" and p': "p' = (if clear then p\<lparr>px_source_ip := None\<rparr> else p)"
    by (auto simp: validate_proxy_def get_remote_host_Ok Let_def split: sum.splits)
  from p' have sp: "px_source_ip p' = (if clear then None else px_source_ip p)" by simp
  from validate_source_ip_cleared [OF s [unfolded e]]
  have "validate_source_ip ?prefix (px_source_ip p') = ([], [], False)" by (simp only: sp)
  with assms p' s show ?thesis
    by (auto simp: validate_proxy_def get_remote_host_Ok Let_def split: sum.splits)
qed

lemma validate_proxies_normal:
  "validate_proxies i S ps = ([], ws, ps') \<Longrightarrow> validate_proxies i S ps' = ([], [], ps')"
proof (induction ps arbitrary: i S ws ps')
  case (Cons p ps)
  obtain e w S' p' where v: "validate_proxy i S p = (e, w, S', p')" by (metis prod_cases4)
  obtain es ws2 ps2 where vs: "validate_proxies (Suc i) S' ps = (es, ws2, ps2)" by (metis prod_cases3)
  from Cons.prems v vs have *: "e = []" "es = []" "ps' = p' # ps2" by auto
  with v validate_proxy_normal have "validate_proxy i S p' = ([], [], S', p')" by simp
  with Cons.IH [of "Suc i" S' ws2 ps2] vs * show ?case by simp
qed simp

lemma bind_ip_update_id: "srv\<lparr>bind_ip := v\<rparr> = srv \<Longrightarrow> bind_ip srv = v"
  by (cases srv) simp

lemma validate_server_bind_parses:
  "validate_server so = ([], [], so) \<Longrightarrow> Option.bind so bind_ip = Some b \<Longrightarrow> parse_ip b \<noteq> None"
  by (auto simp: validate_server_def Let_def split: option.splits if_splits dest!: bind_ip_update_id)

lemma validate_proxy_source_parses:
  assumes "validate_proxy i S p = ([], [], S', p)" "px_source_ip p = Some x"
  shows "parse_ip (trim x) \<noteq> None"
  using assms
  by (auto simp: validate_proxy_def validate_source_ip_def get_remote_host_Ok Let_def
      split: sum.splits if_splits)

lemma validate_proxies_source_parses:
  "validate_proxies i S ps = ([], [], ps) \<Longrightarrow> p \<in> set ps \<Longrightarrow> px_source_ip p = Some x \<Longrightarrow>
   parse_ip (trim x) \<noteq> None"
proof (induction ps arbitrary: i S)
  case (Cons q ps)
  obtain e w S' q' where v: "validate_proxy i S q = (e, w, S', q')" by (metis prod_cases4)
  obtain es ws ps' where vs: "validate_proxies (Suc i) S' ps = (es, ws, ps')" by (metis prod_cases3)
  from Cons.prems v vs have *: "e = []" "w = []" "q' = q" "es = []" "ws = []" "ps' = ps" by auto
  show ?case
  proof (cases "p = q")
    case True
    with v * Cons.prems validate_proxy_source_parses show ?thesis by blast
  next
    case False
    with vs * Cons show ?thesis by auto
  qed
qed simp

lemma validate_normal:
  assumes "validate c = (Ok ws, c')"
  shows "(\<exists>n. validate c' = (Ok (drop n ws), c'))
    \<and> (\<forall>b. Option.bind (server c') bind_ip = Some b \<longrightarrow> parse_ip b \<noteq> None)
    \<and> (\<forall>p \<in> set (proxies c'). \<forall>x. px_source_ip p = Some x \<longrightarrow> parse_ip (trim x) \<noteq> None)"
proof -
  obtain e1 w1 s' e2 w2 ps' e3 w3 where v: "validate_server (server c) = (e1, w1, s')"
    "validate_proxies 0 {} (proxies c) = (e2, w2, ps')"
    "validate_reverse_proxies 0 {} (reverse_proxies c) = (e3, w3)"
    by (metis prod_cases3 surj_pair)
  with assms have e: "e1 = []" "e2 = []" "e3 = []" "ws = w1 @ w2 @ w3"
    "c' = c\<lparr>server := s', proxies := ps'\<rparr>"
    by (auto simp: validate_def Let_def split: if_splits)
  with v validate_server_normal validate_proxies_normal
  have n: "validate_server s' = ([], [], s')" "validate_proxies 0 {} ps' = ([], [], ps')" by metis+
  with v e assms have "validate c' = (Ok w3, c')"
    by (auto simp: validate_def Let_def split: if_splits)
  moreover from e have "drop (length (w1 @ w2)) ws = w3" by simp
  ultimately have "\<exists>n. validate c' = (Ok (drop n ws), c')" by metis
  with n e validate_server_bind_parses [of s'] validate_proxies_source_parses [of 0 "{}" ps']
  show ?thesis by auto
qed

text \<open>
  C18. A configuration that \<open>validate\<close> has accepted is in normal form: validating it again
  changes nothing and repeats only warnings given before, its bind address parses as it
  stands, and every source address that is left on a forward proxy is an IP address.
\<close>

theorem validate_normalises:
  assumes "validate c = (Ok ws, c')"
  shows "(\<exists>n. validate c' = (Ok (drop n ws), c'))
    \<and> (\<forall>b. Option.bind (server c') bind_ip = Some b \<longrightarrow> parse_ip b \<noteq> None)
    \<and> (\<forall>p \<in> set (proxies c'). \<forall>x. px_source_ip p = Some x \<longrightarrow> parse_ip (trim x) \<noteq> None)"
  by (rule validate_normal [OF assms])

definition sample_config :: ConfigFile where
  "sample_config =
     \<lparr>server = Some \<lparr>bind_ip = Some '' 10.0.0.1 '', debug = None\<rparr>,
      proxies = [\<lparr>px_local = ''8080'', px_remote = ''192.168.1.100:80'', px_source_ip = Some ''NULL'',
                  px_allow_ips = None, px_max_conns_per_ip = Some 2, px_cps_limit = None\<rparr>],
      token = None, totp_secret = None, reverse_proxies = [],
      reverse_proxy_server = None, reverse_proxy_client = None\<rparr>"

definition sample_config_validated :: ConfigFile where
  "sample_config_validated = sample_config
     \<lparr>server := Some \<lparr>bind_ip = Some ''10.0.0.1'', debug = None\<rparr>,
      proxies := [(hd (proxies sample_config))\<lparr>px_source_ip := None\<rparr>]\<rparr>"

lemma validate_sample_config:
  "validate sample_config =
     (Ok [''proxies[0].source_ip contains '' @ quoted ''null'' @ '' value; will be ignored''],
      sample_config_validated)"
  by (simp add: validate_def sample_config_def sample_config_validated_def validate_server_def
      validate_proxy_def validate_source_ip_def get_local_port_def get_remote_host_Ok
      get_remote_port_def rsplit_port_def parse_port_or_def eval_simps)

theorem validate_normalises_witness:
  "parse_ip ''10.0.0.1'' \<noteq> None \<and> (\<exists>ws. validate sample_config_validated = (Ok ws, sample_config_validated))"
proof -
  from validate_normalises [OF validate_sample_config]
  have "\<forall>b. Option.bind (server sample_config_validated) bind_ip = Some b \<longrightarrow> parse_ip b \<noteq> None"
    and "\<exists>ws. validate sample_config_validated = (Ok ws, sample_config_validated)" by blast+
  moreover have "Option.bind (server sample_config_validated) bind_ip = Some ''10.0.0.1''"
    by (simp add: sample_config_validated_def)
  ultimately show ?thesis by blast
qed

section \<open>The text pass\<close>

lemma sanitize_line_shape:
  assumes "sanitize_line b = Some b'" "b' \<noteq> b"
  shows "\<exists>k w n r. b = k @ CHR ''='' # w @ n @ r \<and> CHR ''='' \<notin> set k
           \<and> eq_ignore_ascii_case (trim k) ''source_ip''
           \<and> eq_ignore_ascii_case n ''null'' \<and> trim_start (w @ n @ r) = n @ r
           \<and> b' = k @ CHR ''='' # w @ [CHR 0x22] @ ''null'' @ [CHR 0x22] @ r"
proof -
  from assms obtain i where f: "find_char CHR ''='' b = Some i"
    by (auto simp: sanitize_line_def split: option.splits)
  define rest where "rest = drop (Suc i) b"
  define t where "t = trim_start rest"
  obtain w where w: "rest = w @ t" using trim_start_suffix [of rest] by (auto simp: t_def)
  from find_char_take [OF f] have i: "i < length b" "b ! i = CHR ''=''" "CHR ''='' \<notin> set (take i b)" by auto
  then have b: "b = take i b @ CHR ''='' # rest" by (metis id_take_nth_drop rest_def)
  have tw: "take (length rest - length t) rest = w" "drop (length rest - length t + 4) rest = drop 4 t"
    using w by simp_all
  have step: "sanitize_line b =
     (if eq_ignore_ascii_case (trim (take i b)) ''source_ip'' then
        (if 4 \<le> length t then
           (if \<not> is_char_boundary t 4 then None
            else if eq_ignore_ascii_case (take 4 t) ''null'' then
              (if drop 4 t = [] \<or> starts_with_ws_or_hash (drop 4 t) then
                 Some (take (Suc i) b @ w @ [CHR 0x22] @ ''null'' @ [CHR 0x22] @ drop 4 t)
               else Some b)
            else Some b)
         else Some b)
      else Some b)"
    unfolding sanitize_line_def f option.case Let_def rest_def [symmetric] t_def [symmetric] tw ..
  have k: "eq_ignore_ascii_case (trim (take i b)) ''source_ip''"
    and l: "eq_ignore_ascii_case (take 4 t) ''null''"
    and b': "b' = take (Suc i) b @ w @ [CHR 0x22] @ ''null'' @ [CHR 0x22] @ drop 4 t"
    using assms unfolding step by (metis option.distinct(1) option.inject)+
  have "take (Suc i) b = take i b @ [CHR ''='']"
    using i by (simp add: take_Suc_conv_app_nth)
  then have "b' = take i b @ CHR ''='' # w @ [CHR 0x22] @ ''null'' @ [CHR 0x22] @ drop 4 t"
    using b' by simp
  moreover have "b = take i b @ CHR ''='' # w @ take 4 t @ drop 4 t"
    by (metis b w append_take_drop_id)
  moreover have "trim_start (w @ take 4 t @ drop 4 t) = take 4 t @ drop 4 t"
    using t_def w by simp
  ultimately show ?thesis using i(3) k l by blast
qed

lemma sanitize_line_idem:
  assumes "sanitize_line b = Some b'"
  shows "sanitize_line b' = Some b'"
proof (cases "b' = b")
  case False
  from sanitize_line_shape [OF assms False] obtain k w n r where
    k: "CHR ''='' \<notin> set k" "trim_start (w @ n @ r) = n @ r"
    "b' = k @ CHR ''='' # w @ [CHR 0x22] @ ''null'' @ [CHR 0x22] @ r" by blast
  have "trim_start (w @ [CHR 0x22] @ ''null'' @ [CHR 0x22] @ r) = [CHR 0x22] @ ''null'' @ [CHR 0x22] @ r"
    by (rule trim_start_other_tail [OF k(2)]) (simp add: ws_len_alt)
  with k find_char_append [OF k(1)] show ?thesis
    by (simp add: sanitize_line_def eval_simps)
qed (use assms in simp)


lemma eq_ignore_ascii_case_newline:
  "eq_ignore_ascii_case n s \<Longrightarrow> CHR 0x0A \<notin> set s \<Longrightarrow> CHR 0x0A \<notin> set n"
proof
  assume "eq_ignore_ascii_case n s" "CHR 0x0A \<notin> set s" "CHR 0x0A \<in> set n"
  then have "to_ascii_lowercase_char CHR 0x0A \<in> set (map to_ascii_lowercase_char s)"
    unfolding eq_ignore_ascii_case_def by (metis image_eqI list.set_map)
  then obtain c where c: "c \<in> set s" "to_ascii_lowercase_char c = CHR 0x0A"
    by (auto simp: to_ascii_lowercase_char_def)
  then have "(of_char (to_ascii_lowercase_char c) :: nat) = 10" by simp
  then have "(of_char c :: nat) = 10"
    by (auto simp: to_ascii_lowercase_char_def Let_def split: if_splits)
  then have "of_char c = (of_char CHR 0x0A :: nat)" by simp
  then have "c = CHR 0x0A" by (simp only: of_char_eq_iff)
  with c \<open>CHR 0x0A \<notin> set s\<close> show False by simp
qed

lemma sanitize_line_newline:
  assumes "sanitize_line b = Some b'" "CHR 0x0A \<notin> set b"
  shows "CHR 0x0A \<notin> set b'"
proof (cases "b' = b")
  case False
  from sanitize_line_shape [OF assms(1) False] show ?thesis using assms(2) by auto
qed (use assms in simp)


lemma sanitize_line_Nil: "sanitize_line b = Some b' \<Longrightarrow> b' = [] \<longleftrightarrow> b = []"
  using sanitize_line_shape [of b b'] by (cases "b' = b") auto

lemma strip_newline_cases:
  assumes "strip_newline l = (b, nl)"
  obtains (no) "nl = []" "l = b" "l = [] \<or> last l \<noteq> CHR 0x0A" | (yes) "nl = [CHR 0x0A]" "l = b @ [CHR 0x0A]"
  using assms by (auto simp: strip_newline_def split: if_splits) (metis append_butlast_last_id)

lemma strip_newline_simps [simp]:
  "strip_newline (b @ [CHR 0x0A]) = (b, [CHR 0x0A])"
  "CHR 0x0A \<notin> set b \<Longrightarrow> strip_newline b = (b, [])"
  by (auto simp: strip_newline_def dest: last_in_set)

lemma concat_lines_Nil: "is_lines c ls \<Longrightarrow> concat ls = [] \<longleftrightarrow> ls = []"
  by (induction ls) (auto simp: is_lines_Cons)

lemma sanitize_lines_lines:
  assumes "sanitize_lines ls = Some t" "is_lines CHR 0x0A ls"
  shows "\<exists>ms. is_lines CHR 0x0A ms \<and> length ms = length ls \<and> t = concat ms
          \<and> sanitize_lines ms = Some t \<and> ends_with_newline t = ends_with_newline (concat ls)"
  using assms
proof (induction ls arbitrary: t)
  case (Cons l ls)
  obtain b nl where bn: "strip_newline l = (b, nl)" by fastforce
  from Cons.prems bn obtain b' r where r: "sanitize_line b = Some b'" "sanitize_lines ls = Some r" "t = b' @ nl @ r"
    by (auto simp: bind_eq_Some_conv)
  from Cons.prems(2) have l: "l \<noteq> []" "CHR 0x0A \<notin> set (butlast l)" "ls = [] \<or> last l = CHR 0x0A"
    "is_lines CHR 0x0A ls" by (auto simp: is_lines_Cons)
  from Cons.IH [OF r(2) l(4)] obtain ms where ms: "is_lines CHR 0x0A ms" "length ms = length ls"
    "r = concat ms" "sanitize_lines ms = Some r" "ends_with_newline r = ends_with_newline (concat ls)" by blast
  from bn have nb: "CHR 0x0A \<notin> set b"
  proof (cases rule: strip_newline_cases)
    case no
    with l show ?thesis by (metis append_butlast_last_id empty_iff list.set(1) rotate1.simps(2) set_ConsD set_rotate1)
  next
    case yes
    with l show ?thesis by simp
  qed
  with r sanitize_line_newline have nb': "CHR 0x0A \<notin> set b'" by blast
  note b'Nil = sanitize_line_Nil [OF r(1)]
  have lines: "is_lines CHR 0x0A ((b' @ nl) # ms) \<and> strip_newline (b' @ nl) = (b', nl)"
    using bn by (cases rule: strip_newline_cases)
      (use nb' b'Nil l ms in \<open>auto simp: is_lines_Cons dest: in_set_butlastD\<close>)
  have "ends_with_newline (b' @ nl) = ends_with_newline l"
    using bn by (cases rule: strip_newline_cases)
      (use b'Nil nb' nb in \<open>auto simp: ends_with_newline_def dest: last_in_set\<close>)
  moreover have "r \<noteq> [] \<and> concat ls \<noteq> []" if "ls \<noteq> []"
    using that ms l by (auto simp: concat_lines_Nil simp del: concat_eq_Nil_conv)
  ultimately have "ends_with_newline t = ends_with_newline (concat (l # ls))"
    using r ms by (cases "ls = []") (auto simp: ends_with_newline_def)
  with r ms lines sanitize_line_idem show ?case
    by (intro exI [of _ "(b' @ nl) # ms"]) simp
qed simp

lemma sanitize_special_values_lines:
  assumes "sanitize_special_values s = Some (t, ws)"
  shows "ws = [] \<and> sanitize_special_values t = Some (t, [])
         \<and> length (split_inclusive CHR 0x0A t) = length (split_inclusive CHR 0x0A s)"
proof -
  let ?ls = "split_inclusive CHR 0x0A s"
  from assms obtain u where u: "sanitize_lines ?ls = Some u"
    by (auto simp: sanitize_special_values_def bind_eq_Some_conv)
  from sanitize_lines_lines [OF u is_lines_split_inclusive] obtain ms where
    ms: "is_lines CHR 0x0A ms" "length ms = length ?ls" "u = concat ms" "sanitize_lines ms = Some u"
    "ends_with_newline u = ends_with_newline s" by (auto simp: split_inclusive_concat)
  with assms u have "ws = []" "t = u" by (auto simp: sanitize_special_values_def)
  with ms show ?thesis by (simp add: sanitize_special_values_def split_inclusive_lines)
qed

lemma sanitize_line_ascii:
  assumes "\<forall>c \<in> set b. (of_char c :: nat) < 128"
  shows "sanitize_line b \<noteq> None"
proof -
  have "is_char_boundary (trim_start (drop n b)) 4" if "4 \<le> length (trim_start (drop n b))" for n
  proof -
    let ?t = "trim_start (drop n b)"
    have "set ?t \<subseteq> set b" using set_trim_start [of "drop n b"] set_drop_subset by fastforce
    then have "(of_char (?t ! 4) :: nat) < 128" if "4 < length ?t" using assms that nth_mem by blast
    with that show ?thesis by (auto simp: is_char_boundary_def)
  qed
  then show ?thesis by (auto simp: sanitize_line_def Let_def split: option.splits)
qed

lemma sanitize_lines_ascii:
  "\<forall>l \<in> set ls. \<forall>c \<in> set l. (of_char c :: nat) < 128 \<Longrightarrow> sanitize_lines ls \<noteq> None"
proof (induction ls)
  case (Cons l ls)
  obtain b nl where bn: "strip_newline l = (b, nl)" by fastforce
  then have "set b \<subseteq> set l" by (auto simp: strip_newline_def split: if_splits dest: in_set_butlastD)
  with Cons sanitize_line_ascii [of b] have "sanitize_line b \<noteq> None" by auto
  with Cons bn show ?case by auto
qed simp

lemma sanitize_ascii:
  "\<forall>c \<in> set s. (of_char c :: nat) < 128 \<Longrightarrow> sanitize_special_values s \<noteq> None"
  using sanitize_lines_ascii [of "split_inclusive CHR 0x0A s"]
  by (metis (no_types, lifting) bind.bind_lunit not_None_eq option.simps(3) sanitize_special_values_def
      set_concat split_inclusive_concat UN_iff)

text \<open>
  The text pass is stable: applying it to its own output changes nothing, it never emits
  a warning, and it keeps the number of lines, so that the line numbers the TOML parser reports
  for the sanitized text are those of the user's file.
\<close>

theorem sanitize_special_values_stable:
  assumes "sanitize_special_values s = Some (t, ws)"
  shows "ws = [] \<and> sanitize_special_values t = Some (t, [])
         \<and> length (split_inclusive CHR 0x0A t) = length (split_inclusive CHR 0x0A s)"
  using sanitize_special_values_lines [OF assms] .

lemma sanitize_sample:
  "sanitize_special_values (''source_ip = null # none'' @ [CHR 0x0A]) =
     Some (''source_ip = '' @ [CHR 0x22] @ ''null'' @ [CHR 0x22] @ '' # none'' @ [CHR 0x0A], [])"
  by (simp add: sanitize_special_values_def sanitize_line_def strip_newline_def
      ends_with_newline_def starts_with_ws_or_hash_def eval_simps)

theorem sanitize_special_values_stable_witness:
  "sanitize_special_values
     (''source_ip = '' @ [CHR 0x22] @ ''null'' @ [CHR 0x22] @ '' # none'' @ [CHR 0x0A]) =
   Some (''source_ip = '' @ [CHR 0x22] @ ''null'' @ [CHR 0x22] @ '' # none'' @ [CHR 0x0A], [])"
  using sanitize_special_values_stable [OF sanitize_sample] by blast

text \<open>
  The text pass returns on every ASCII text, but it cuts the value of \<open>source_ip\<close> after four
  bytes and so panics when that is inside a character: on the value U+65E5 U+672C, for
  example, the program dies instead of reporting an invalid address.
\<close>

theorem sanitize_special_values_panics:
  "((\<forall>c \<in> set s. (of_char c :: nat) < 128) \<longrightarrow> sanitize_special_values s \<noteq> None)
   \<and> sanitize_special_values
       (''source_ip = '' @ map char_of [0xE6 :: nat, 0x97, 0xA5, 0xE6, 0x9C, 0xAC]) = None"
  using sanitize_ascii [of s]
  by (simp add: sanitize_special_values_def sanitize_line_def strip_newline_def eval_simps)

theorem sanitize_special_values_panics_witness:
  "sanitize_special_values ''local = 1'' \<noteq> None"
  using sanitize_special_values_panics [of "''local = 1''"] by simp

section \<open>Error positions\<close>

lemma line_col_loop_eq:
  "line_col_loop l c bs =
     (l + count_list bs CHR 0x0A,
      (if CHR 0x0A \<in> set bs \<or> CHR 0x0D \<in> set bs then 1 else c)
        + length (takeWhile (\<lambda>b. b \<noteq> CHR 0x0A \<and> b \<noteq> CHR 0x0D) (rev bs)))"
proof (induction bs arbitrary: l c)
  case (Cons b bs)
  have "length (takeWhile (\<lambda>b. b \<noteq> CHR 0x0A \<and> b \<noteq> CHR 0x0D) (rev bs)) = length bs"
    if "CHR 0x0A \<notin> set bs" "CHR 0x0D \<notin> set bs"
    using that by (subst takeWhile_eq_all_conv [THEN iffD2]) auto
  with Cons show ?case by (auto simp: takeWhile_append)
qed simp

text \<open>
  The position of an error: the line is one more than the newlines before the offset, the
  column one more than the bytes since the last line end, and an offset past the end of the
  text is the position of its end.
\<close>

theorem offset_to_line_col_spec:
  "offset_to_line_col content offset =
     (1 + count_list (take offset content) CHR 0x0A,
      1 + length (takeWhile (\<lambda>b. b \<noteq> CHR 0x0A \<and> b \<noteq> CHR 0x0D) (rev (take offset content))))"
  by (simp add: offset_to_line_col_def line_col_loop_eq min_def)

section \<open>The search for a configuration file\<close>

lemma search_paths_loop_found:
  "search_paths_loop from_str ex rd paths = Some (evs, found) \<Longrightarrow>
   (case found of
      Some (config, path) \<Rightarrow>
        (\<exists>before after. paths = before @ path # after \<and> ex path
           \<and> (\<exists>l. load_from_file from_str rd path = Some (l, Ok config))
           \<and> (\<forall>q \<in> set before. ex q \<longrightarrow> (\<exists>l e. load_from_file from_str rd q = Some (l, Err e))))
    | None \<Rightarrow> (\<forall>q \<in> set paths. ex q \<longrightarrow> (\<exists>l e. load_from_file from_str rd q = Some (l, Err e))))"
proof (induction paths arbitrary: evs found)
  case (Cons p ps)
  show ?case
  proof (cases "ex p \<and> (\<exists>l c. load_from_file from_str rd p = Some (l, Ok c))")
    case True
    then obtain l c where "ex p" "load_from_file from_str rd p = Some (l, Ok c)" by blast
    moreover from this Cons.prems have "found = Some (c, p)" by simp
    ultimately show ?thesis
      by simp (rule exI [of _ "[]"], simp)
  next
    case False
    with Cons.prems obtain l where l: "search_paths_loop from_str ex rd ps = Some (l, found)"
      and p: "ex p \<longrightarrow> (\<exists>l e. load_from_file from_str rd p = Some (l, Err e))"
      by (auto split: if_splits option.splits sum.splits)
    show ?thesis
    proof (cases found)
      case None
      with Cons.IH [OF l] p show ?thesis by simp
    next
      case (Some cp)
      obtain c q where cp: "cp = (c, q)" by fastforce
      from Cons.IH [OF l] Some cp obtain before after where ba: "ps = before @ q # after" "ex q"
        "\<exists>l. load_from_file from_str rd q = Some (l, Ok c)"
        "\<forall>x \<in> set before. ex x \<longrightarrow> (\<exists>l e. load_from_file from_str rd x = Some (l, Err e))" by auto
      then have "p # ps = (p # before) @ q # after"
        "\<forall>x \<in> set (p # before). ex x \<longrightarrow> (\<exists>l e. load_from_file from_str rd x = Some (l, Err e))"
        using p by simp_all
      with ba(2,3) show ?thesis unfolding Some cp option.case prod.case by blast
    qed
  qed
qed simp

text \<open>
  C19. The search for a configuration: a path given with \<open>-c\<close> or \<open>--config\<close> is decisive, its
  configuration or its error is the result and the default names are never tried; without
  one, the result is the first default name whose file exists and loads, and it is an error
  only when no existing default file loads.
\<close>

theorem load_with_search_spec:
  assumes "load_with_search from_str ex rd args = Some (evs, r)"
  shows "case get_cli_config_path args of
      Some path \<Rightarrow>
        (case r of
           Inr (config, q) \<Rightarrow> q = path \<and> ex path
             \<and> (\<exists>l. load_from_file from_str rd path = Some (l, Ok config))
         | Inl e \<Rightarrow> ex path \<longrightarrow> (\<exists>l. load_from_file from_str rd path = Some (l, Err e)))
    | None \<Rightarrow>
        (case r of
           Inr (config, path) \<Rightarrow>
             (\<exists>before after. get_config_search_paths = before @ path # after \<and> ex path
                \<and> (\<exists>l. load_from_file from_str rd path = Some (l, Ok config))
                \<and> (\<forall>q \<in> set before. ex q \<longrightarrow> (\<exists>l e. load_from_file from_str rd q = Some (l, Err e))))
         | Inl e \<Rightarrow>
             (\<forall>q \<in> set get_config_search_paths.
                ex q \<longrightarrow> (\<exists>l e. load_from_file from_str rd q = Some (l, Err e))))"
proof (cases "get_cli_config_path args")
  case None
  with assms obtain found where
    f: "search_paths_loop from_str ex rd get_config_search_paths = Some (evs, found)"
    and r: "r = (case found of Some cp \<Rightarrow> Ok cp
             | None \<Rightarrow> Err (Config (ConfigFileNotFound
                 (''No configuration file found. Searched: '' @ debug_list get_config_search_paths))))"
    by (auto simp: load_with_search_def)
  from search_paths_loop_found [OF f] r None show ?thesis by (cases found) auto
next
  case (Some path)
  show ?thesis
  proof (cases "ex path")
    case True
    with assms Some obtain l s where l: "load_from_file from_str rd path = Some (l, s)"
      and "(evs, r) = (case s of Inr config \<Rightarrow> (l, Ok (config, path))
                       | Inl e \<Rightarrow> (l @ [CliLoadFailed path e], Err e))"
      by (auto simp: load_with_search_def)
    with Some True show ?thesis by (cases s) auto
  next
    case False
    with assms Some show ?thesis by (auto simp: load_with_search_def)
  qed
qed

text \<open>A file system with one file, whose text is parsed to the sample configuration.\<close>

definition sample_from_str :: "string \<Rightarrow> TomlError + ConfigFile" where
  "sample_from_str s = Ok sample_config"

definition sample_read :: "string \<Rightarrow> IoError + string" where
  "sample_read path =
     (if path = ''config.toml'' then Ok ''debug = true'' else Err (IoError NotFound ''not found''))"

lemma load_sample:
  "load_with_search sample_from_str (\<lambda>p. p = ''config.toml'') sample_read [''gsc-fq''] =
     Some ([ConfigurationWarning (''proxies[0].source_ip contains '' @ quoted ''null''
             @ '' value; will be ignored'')], Ok (sample_config_validated, ''config.toml''))"
  by (simp add: load_with_search_def get_cli_config_path_def get_config_search_paths_def
      load_from_file_def load_from_str_with_warnings_def sample_read_def sample_from_str_def
      sanitize_special_values_def sanitize_line_def strip_newline_def ends_with_newline_def
      validate_sample_config emit_warnings_def eval_simps)

theorem load_with_search_spec_witness:
  "\<exists>before after. get_config_search_paths = before @ ''config.toml'' # after
     \<and> (\<exists>l. load_from_file sample_from_str sample_read ''config.toml'' = Some (l, Ok sample_config_validated))"
  using load_with_search_spec [OF load_sample] by (simp add: get_cli_config_path_def) blast

end
