(* ===== verification/Totp.thy ===== *)
theory Totp
  imports Errors
begin

text \<open>
  Time-based one-time passwords, \<^verbatim>\<open>src/src/utils/totp.rs\<close>.

  HMAC-SHA1 belongs to the \<open>ring\<close> crate and Base32 to \<open>data_encoding\<close>: they are the parameters
  \<open>hmac\<close>, \<open>encode\<close> and \<open>decode\<close>. The Unicode table behind \<open>str::to_uppercase\<close> is the parameter
  \<open>to_uppercase\<close>. The clock is an argument. A panic (an index out of range, a division by
  zero) is the value \<open>None\<close>.
\<close>

unbundle bit_operations_syntax

section \<open>The password generator\<close>

record Totp =
  secret :: bytes
  digits :: u32
  step_secs :: u64

definition Totp_new :: "bytes \<Rightarrow> Totp" where
  "Totp_new s = \<lparr>secret = s, digits = 6, step_secs = 30\<rparr>"

definition with_digits :: "bytes \<Rightarrow> u32 \<Rightarrow> Totp" where
  "with_digits s d = \<lparr>secret = s, digits = d, step_secs = 30\<rparr>"

text \<open>The padding loop of \<open>from_base32\<close>.\<close>

function pad_base32 :: "string \<Rightarrow> string" where
  "pad_base32 s = (if length s mod 8 \<noteq> 0 then pad_base32 (s @ ''='') else s)"
  by pat_completeness auto
termination
proof (relation "measure (\<lambda>s. (8 - length s mod 8) mod 8)", goal_cases)
  case (2 s)
  then show ?case by (simp add: mod_Suc) presburger
qed simp

declare pad_base32.simps [simp del]

definition from_base32 ::
  "(string \<Rightarrow> string) \<Rightarrow> (string \<Rightarrow> string + bytes) \<Rightarrow> string \<Rightarrow> string + Totp" where
  "from_base32 to_uppercase decode secret_b32 =
     (let clean_secret = pad_base32 (to_uppercase (filter (\<lambda>c. c \<noteq> CHR '' '') secret_b32))
      in and_then (map_err (\<lambda>e. ''Invalid Base32 secret: '' @ e) (decode clean_secret))
           (\<lambda>bs. Ok (Totp_new bs)))"

definition generate_otpauth_uri :: "(bytes \<Rightarrow> string) \<Rightarrow> Totp \<Rightarrow> string \<Rightarrow> string \<Rightarrow> string" where
  "generate_otpauth_uri encode t label issuer =
     ''otpauth://totp/'' @ label @ ''?secret='' @ encode (secret t) @ ''&issuer='' @ issuer
     @ ''&digits='' @ nat_to_string (unat (digits t)) @ ''&period='' @ nat_to_string (unat (step_secs t))"

text \<open>The ten random bytes are an argument.\<close>

definition generate_random :: "(bytes \<Rightarrow> string) \<Rightarrow> bytes \<Rightarrow> Totp \<times> string" where
  "generate_random encode random = (Totp_new random, encode random)"

text \<open>The dynamic truncation, with the source's masks and shifts.\<close>

definition truncate_tag :: "bytes \<Rightarrow> u32 option" where
  "truncate_tag hmac_result =
     (if hmac_result = [] then None
      else
        (let offset = unat (last hmac_result AND 0x0f) in
         if length hmac_result \<le> offset + 3 then None
         else
           (let b1 = push_bit 24 (ucast (hmac_result ! offset) AND 0x7f :: u32);
                b2 = push_bit 16 (ucast (hmac_result ! (offset + 1)) AND 0xff :: u32);
                b3 = push_bit 8 (ucast (hmac_result ! (offset + 2)) AND 0xff :: u32);
                b4 = (ucast (hmac_result ! (offset + 3)) AND 0xff :: u32)
            in Some (b1 OR b2 OR b3 OR b4))))"

definition generate :: "(bytes \<Rightarrow> bytes \<Rightarrow> bytes) \<Rightarrow> Totp \<Rightarrow> u64 \<Rightarrow> u32 option" where
  "generate hmac t timestamp =
     (if step_secs t = 0 then None
      else
        (let counter = timestamp div step_secs t;
             counter_bytes = u64_to_be_bytes counter;
             hmac_result = hmac (secret t) counter_bytes;
             modulus = (10 :: u32) ^ unat (digits t)
         in case truncate_tag hmac_result of
              None \<Rightarrow> None
            | Some code \<Rightarrow> if modulus = 0 then None else Some (code mod modulus)))"

text \<open>The clock, in seconds; a clock before 1970 is \<open>None\<close> and a panic.\<close>

definition generate_current :: "(bytes \<Rightarrow> bytes \<Rightarrow> bytes) \<Rightarrow> u64 option \<Rightarrow> Totp \<Rightarrow> u32 option" where
  "generate_current hmac clock t = Option.bind clock (generate hmac t)"

text \<open>\<open>verify\<close> compares with the previous, the current and the next step, in this order.\<close>

fun verify_loop :: "(u64 \<Rightarrow> u32 option) \<Rightarrow> u32 \<Rightarrow> u64 list \<Rightarrow> bool option" where
  "verify_loop gen code [] = Some False"
| "verify_loop gen code (ts # tss) =
     (case gen ts of None \<Rightarrow> None
      | Some g \<Rightarrow> if g = code then Some True else verify_loop gen code tss)"

definition verify :: "(bytes \<Rightarrow> bytes \<Rightarrow> bytes) \<Rightarrow> Totp \<Rightarrow> u64 \<Rightarrow> u32 \<Rightarrow> bool option" where
  "verify hmac t now code =
     verify_loop (generate hmac t) code
       [saturating_sub now (step_secs t), now, saturating_add now (step_secs t)]"

section \<open>Dynamic truncation\<close>

lemma and_0x7f: "(w :: u32) AND 0x7f = take_bit 7 w"
  by (simp add: take_bit_eq_mask mask_eq_exp_minus_1)

lemma and_0xff: "(w :: u32) AND 0xff = take_bit 8 w"
  by (simp add: take_bit_eq_mask mask_eq_exp_minus_1)

lemma and_0x0f: "(w :: u8) AND 0x0f = take_bit 4 w"
  by (simp add: take_bit_eq_mask mask_eq_exp_minus_1)

lemma offset_bound: "unat ((b :: u8) AND 0x0f) = unat b mod 16"
  by (simp add: and_0x0f take_bit_eq_mod unat_mod)

lemma take_bit_ucast_u8:
  "take_bit 7 (ucast (b :: u8) :: u32) = word_of_nat (unat b mod 128)"
  "take_bit 8 (ucast (b :: u8) :: u32) = word_of_nat (unat b)"
proof -
  have u: "(ucast b :: u32) = word_of_nat (unat b)" by simp
  have 7: "take_bit 7 (word_of_nat n :: u32) = word_of_nat (n mod 128)" for n
    by (simp add: take_bit_of_nat) (simp add: take_bit_eq_mod)
  have 8: "take_bit 8 (word_of_nat n :: u32) = word_of_nat (n mod 256)" for n
    by (simp add: take_bit_of_nat) (simp add: take_bit_eq_mod)
  show "take_bit 7 (ucast (b :: u8) :: u32) = word_of_nat (unat b mod 128)"
    by (simp only: u 7)
  show "take_bit 8 (ucast (b :: u8) :: u32) = word_of_nat (unat b)"
    by (simp only: u 8) simp
qed

lemma or_is_plus:
  fixes a b c d :: u32
  shows "push_bit 24 (take_bit 7 a) OR push_bit 16 (take_bit 8 b) OR push_bit 8 (take_bit 8 c) OR take_bit 8 d
    = push_bit 24 (take_bit 7 a) + (push_bit 16 (take_bit 8 b) + (push_bit 8 (take_bit 8 c) + take_bit 8 d))"
proof -
  have 1: "push_bit 8 (take_bit 8 c) OR take_bit 8 d = push_bit 8 (take_bit 8 c) + take_bit 8 d"
    by (rule disjunctive_add_eq_or [symmetric], rule bit_word_eqI) (auto simp: bit_simps)
  have 2: "push_bit 16 (take_bit 8 b) OR (push_bit 8 (take_bit 8 c) OR take_bit 8 d)
     = push_bit 16 (take_bit 8 b) + (push_bit 8 (take_bit 8 c) OR take_bit 8 d)"
    by (rule disjunctive_add_eq_or [symmetric], rule bit_word_eqI) (auto simp: bit_simps)
  have 3: "push_bit 24 (take_bit 7 a) OR (push_bit 16 (take_bit 8 b) OR (push_bit 8 (take_bit 8 c) OR take_bit 8 d))
     = push_bit 24 (take_bit 7 a) + (push_bit 16 (take_bit 8 b) OR (push_bit 8 (take_bit 8 c) OR take_bit 8 d))"
    by (rule disjunctive_add_eq_or [symmetric], rule bit_word_eqI) (auto simp: bit_simps)
  show ?thesis by (simp only: 3) (simp only: 2, simp only: 1)
qed

lemma mod_shift_24: "l < 2 ^ 24 \<Longrightarrow> (x * 2 ^ 24 + l) mod 2 ^ 31 = (x mod 128) * 2 ^ 24 + l" for x l :: nat
proof -
  assume l: "l < 2 ^ 24"
  have "(2 :: nat) ^ 31 = 2 ^ 24 * 128" by simp
  then have "(x * 2 ^ 24 + l) mod 2 ^ 31
     = 2 ^ 24 * ((x * 2 ^ 24 + l) div 2 ^ 24 mod 128) + (x * 2 ^ 24 + l) mod 2 ^ 24"
    by (simp only: mod_mult2_eq)
  then show ?thesis using l by simp
qed

lemma be_nat_truncate:
  "be_nat [a, b, c, d] mod 2 ^ 31
     = (unat a mod 128) * 2 ^ 24 + (unat b * 2 ^ 16 + (unat c * 2 ^ 8 + unat d))"
proof -
  have "unat b * 65536 + (unat c * 256 + unat d) < 16777216"
    using unat_u8_less [of b] unat_u8_less [of c] unat_u8_less [of d] by linarith
  then have l: "unat b * 2 ^ 16 + (unat c * 2 ^ 8 + unat d) < 2 ^ 24" by simp
  have "be_nat [a, b, c, d] = unat a * 2 ^ 24 + (unat b * 2 ^ 16 + (unat c * 2 ^ 8 + unat d))"
    by (simp add: be_nat_def)
  then show ?thesis by (simp only: mod_shift_24 [OF l])
qed

lemma truncate_word:
  "push_bit 24 (ucast (a::u8) AND 0x7f :: u32) OR push_bit 16 (ucast (b::u8) AND 0xff)
     OR push_bit 8 (ucast (c::u8) AND 0xff) OR (ucast (d::u8) AND 0xff)
   = word_of_nat (be_nat [a, b, c, d] mod 2 ^ 31)"
  unfolding and_0x7f and_0xff or_is_plus be_nat_truncate
  by (simp only: take_bit_ucast_u8 push_bit_eq_mult of_nat_add of_nat_mult of_nat_power
      of_nat_numeral)

section \<open>The RFC definition\<close>

text \<open>RFC 4226, section 5.3, and RFC 6238, section 4.2, over natural numbers.\<close>

definition rfc4226_truncate :: "bytes \<Rightarrow> nat" where
  "rfc4226_truncate tag = be_nat (take 4 (drop (unat (last tag) mod 16) tag)) mod 2 ^ 31"

definition rfc6238_code :: "(bytes \<Rightarrow> bytes \<Rightarrow> bytes) \<Rightarrow> bytes \<Rightarrow> nat \<Rightarrow> nat \<Rightarrow> nat" where
  "rfc6238_code hmac key counter d = rfc4226_truncate (hmac key (be_bytes 8 counter)) mod 10 ^ d"

lemma take4_drop:
  "n + 3 < length xs \<Longrightarrow> take 4 (drop n xs) = [xs ! n, xs ! (n + 1), xs ! (n + 2), xs ! (n + 3)]"
  by (rule nth_equalityI) (auto simp: less_Suc_eq numeral_eq_Suc)

lemma truncate_tag_20:
  assumes "length tag = 20"
  shows "truncate_tag tag = Some (word_of_nat (rfc4226_truncate tag))"
proof -
  let ?o = "unat (last tag) mod 16"
  have o: "unat (last tag AND 0x0f) = ?o" by (rule offset_bound)
  have l: "?o + 3 < length tag" using assms by (simp add: less_diff_conv [symmetric])
  moreover have "tag \<noteq> []" using assms by auto
  ultimately show ?thesis
    by (simp only: truncate_tag_def o Let_def rfc4226_truncate_def take4_drop [OF l] truncate_word
        not_le [symmetric] if_False)
qed

lemma unat_rfc: "unat (word_of_nat (rfc4226_truncate tag) :: u32) = rfc4226_truncate tag"
proof -
  have "rfc4226_truncate tag < 2 ^ 31" by (simp add: rfc4226_truncate_def)
  then show ?thesis by (simp add: unat_of_nat)
qed

lemma pow10_u32: "d \<le> 9 \<Longrightarrow> unat ((10 :: u32) ^ d) = 10 ^ d"
proof -
  assume "d \<le> 9"
  then have "(10 :: nat) ^ d \<le> 10 ^ 9" by (intro power_increasing) auto
  then have "(10 :: nat) ^ d < 2 ^ 32" by simp
  moreover have "(10 :: u32) ^ d = word_of_nat (10 ^ d)" by simp
  ultimately show ?thesis by (simp only: unat_of_nat) simp
qed

lemma pow10_u32_zero: "(10 :: u32) ^ d = 0 \<longleftrightarrow> 32 \<le> d"
proof -
  have "(10 :: u32) ^ d = word_of_nat (10 ^ d)" by simp
  then have "(10 :: u32) ^ d = 0 \<longleftrightarrow> (2 :: nat) ^ 32 dvd 10 ^ d"
    by (simp only: word_of_nat_eq_0_iff) simp
  also have "(10 :: nat) ^ d = 2 ^ d * 5 ^ d" by (simp flip: power_mult_distrib)
  also have "(2 :: nat) ^ 32 dvd 2 ^ d * 5 ^ d \<longleftrightarrow> 2 ^ 32 dvd (2 :: nat) ^ d"
    by (rule coprime_dvd_mult_left_iff)
      (simp only: coprime_power_left_iff coprime_power_right_iff, simp add: coprime_left_2_iff_odd)
  also have "\<dots> \<longleftrightarrow> 32 \<le> d" by (simp only: dvd_power_iff_le)
  finally show ?thesis .
qed

lemma generate_rfc6238:
  assumes tag: "\<forall>k m. length (hmac k m) = 20" and step: "step_secs t \<noteq> 0"
  shows "(unat (digits t) \<le> 9 \<longrightarrow>
      (\<exists>c. generate hmac t ts = Some c
         \<and> unat c = rfc6238_code hmac (secret t) (unat ts div unat (step_secs t)) (unat (digits t))
         \<and> unat c < 10 ^ unat (digits t)))
    \<and> (generate hmac t ts = None \<longleftrightarrow> 32 \<le> unat (digits t))"
proof -
  let ?tag = "hmac (secret t) (be_bytes 8 (unat ts div unat (step_secs t)))"
  have g: "generate hmac t ts = (if 32 \<le> unat (digits t) then None
      else Some (word_of_nat (rfc4226_truncate ?tag) mod 10 ^ unat (digits t)))"
    using tag step by (simp add: generate_def Let_def truncate_tag_20 pow10_u32_zero u64_to_be_bytes_def unat_div)
  moreover have "unat (word_of_nat (rfc4226_truncate ?tag) mod (10 :: u32) ^ unat (digits t))
     = rfc6238_code hmac (secret t) (unat ts div unat (step_secs t)) (unat (digits t))"
    if "unat (digits t) \<le> 9"
    using that by (simp add: unat_mod unat_rfc pow10_u32 rfc6238_code_def)
  ultimately show ?thesis by (auto simp: rfc6238_code_def)
qed

text \<open>
  C7. For up to nine digits \<open>generate\<close> is the code of RFC 6238 for the step the timestamp falls
  in, and it is below ten to the number of digits. The modulus is computed in 32 bits, so from
  32 digits on it is zero and the division panics; that is the only way to get no code.
  \<open>tag\<close> is the documented length of an HMAC-SHA1 tag.
\<close>

theorem generate_is_rfc6238:
  assumes tag: "\<forall>k m. length (hmac k m) = 20" and step: "step_secs t \<noteq> 0"
  shows "(unat (digits t) \<le> 9 \<longrightarrow>
      (\<exists>c. generate hmac t ts = Some c
         \<and> unat c = rfc6238_code hmac (secret t) (unat ts div unat (step_secs t)) (unat (digits t))
         \<and> unat c < 10 ^ unat (digits t)))
    \<and> (generate hmac t ts = None \<longleftrightarrow> 32 \<le> unat (digits t))"
  by (rule generate_rfc6238 [OF tag step])

definition sample_hmac :: "bytes \<Rightarrow> bytes \<Rightarrow> bytes" where
  "sample_hmac key msg = take 20 (msg @ key @ replicate 20 7)"

lemma length_sample_hmac: "length (sample_hmac key msg) = 20"
  by (simp add: sample_hmac_def)

theorem generate_is_rfc6238_witness:
  "(\<exists>c. generate sample_hmac (Totp_new [1, 2, 3]) 59 = Some c \<and> unat c < 10 ^ 6)
   \<and> generate sample_hmac (with_digits [1, 2, 3] 32) 59 = None"
proof -
  have t: "\<forall>k m. length (sample_hmac k m) = 20" by (simp add: length_sample_hmac)
  from generate_is_rfc6238 [OF t, of "Totp_new [1, 2, 3]" 59]
    generate_is_rfc6238 [OF t, of "with_digits [1, 2, 3] 32" 59]
  show ?thesis by (auto simp: Totp_new_def with_digits_def)
qed

section \<open>Verification\<close>

lemma verify_loop_Some:
  assumes "\<forall>ts \<in> set tss. gen ts \<noteq> None"
  shows "verify_loop gen code tss = Some (\<exists>ts \<in> set tss. gen ts = Some code)"
  using assms by (induction tss) auto

lemma saturating_sub_div:
  "unat (saturating_sub now step) div unat step = unat now div unat step - 1"
  if "step \<noteq> 0" for now step :: u64
proof (cases "now < step")
  case True
  then show ?thesis by (simp add: saturating_sub_def word_less_nat_alt)
next
  case False
  then have "unat (now - step) = unat now - unat step" by (simp add: unat_sub not_less)
  with False that show ?thesis
    by (simp add: saturating_sub_def word_less_nat_alt unat_gt_0 le_div_geq not_less)
qed

lemma saturating_add_div:
  "unat now + unat step < 2 ^ 64 \<Longrightarrow> step \<noteq> 0 \<Longrightarrow>
   unat (saturating_add now step) div unat step = unat now div unat step + 1"
  for now step :: u64
proof -
  assume a: "unat now + unat step < 2 ^ 64" "step \<noteq> 0"
  then have "unat (now + step) = unat now + unat step" by (simp add: unat_plus_if_size word_size)
  moreover from a have "unat step \<noteq> 0" by (simp add: unat_eq_zero)
  then have "(unat now + unat step) div unat step = unat now div unat step + 1"
    by (rule div_add_self2)
  ultimately show ?thesis using a by (simp only: saturating_add_def) simp
qed

lemma verify_rfc6238:
  assumes tag: "\<forall>k m. length (hmac k m) = 20" and step: "step_secs t \<noteq> 0"
    and digits: "unat (digits t) \<le> 9" and now: "unat now + unat (step_secs t) < 2 ^ 64"
  shows "verify hmac t now code = Some
     (let counter = unat now div unat (step_secs t) in
      \<exists>k \<in> {counter - 1, counter, counter + 1}.
        unat code = rfc6238_code hmac (secret t) k (unat (digits t)))"
proof -
  have gen: "\<exists>c. generate hmac t ts = Some c
       \<and> unat c = rfc6238_code hmac (secret t) (unat ts div unat (step_secs t)) (unat (digits t))" for ts
    using generate_rfc6238 [OF tag step] digits by blast
  then have eq: "generate hmac t ts = Some code \<longleftrightarrow>
     unat code = rfc6238_code hmac (secret t) (unat ts div unat (step_secs t)) (unat (digits t))" for ts
    by (metis option.inject word_unat_eq_iff)
  have "verify hmac t now code = Some (\<exists>ts \<in> {saturating_sub now (step_secs t), now,
      saturating_add now (step_secs t)}. generate hmac t ts = Some code)"
    unfolding verify_def by (subst verify_loop_Some) (use gen in force)+
  then show ?thesis
    using step now by (simp add: eq saturating_sub_div saturating_add_div Let_def)
qed

text \<open>
  C8. \<open>verify\<close> accepts a code exactly when it is the RFC 6238 code of the current step, of the
  one before or of the one after (the clock being more than a step away from the end of 64 bits).
\<close>

theorem verify_window:
  assumes tag: "\<forall>k m. length (hmac k m) = 20" and step: "step_secs t \<noteq> 0"
    and digits: "unat (digits t) \<le> 9" and now: "unat now + unat (step_secs t) < 2 ^ 64"
  shows "verify hmac t now code = Some
     (let counter = unat now div unat (step_secs t) in
      \<exists>k \<in> {counter - 1, counter, counter + 1}.
        unat code = rfc6238_code hmac (secret t) k (unat (digits t)))"
  by (rule verify_rfc6238 [OF tag step digits now])

theorem verify_window_witness:
  "\<forall>code. verify sample_hmac (Totp_new [1, 2, 3]) 59 code = Some
     (\<exists>k \<in> {0, 1, 2 :: nat}. unat code = rfc6238_code sample_hmac [1, 2, 3] k 6)"
proof -
  have "\<forall>k m. length (sample_hmac k m) = 20" by (simp add: length_sample_hmac)
  from verify_window [OF this, of "Totp_new [1, 2, 3]" 59]
  show ?thesis by (simp add: Totp_new_def flip: numeral_2_eq_2)
qed

text \<open>The code of this moment is accepted, at this moment and as long as the clock of the verifier is within a step.\<close>

lemma current_code_verifies:
  assumes tag: "\<forall>k m. length (hmac k m) = 20" and step: "step_secs t \<noteq> 0" and digits: "unat (digits t) \<le> 9"
    and now: "unat now' + unat (step_secs t) < 2 ^ 64"
    and near: "unat now div unat (step_secs t) \<in> {unat now' div unat (step_secs t) - 1 .. unat now' div unat (step_secs t) + 1}"
    and code: "generate_current hmac (Some now) t = Some code"
  shows "verify hmac t now' code = Some True"
proof -
  from generate_rfc6238 [OF tag step, of now] digits code
  have "unat code = rfc6238_code hmac (secret t) (unat now div unat (step_secs t)) (unat (digits t))"
    by (simp add: generate_current_def)
  moreover have "unat now div unat (step_secs t) \<in> {unat now' div unat (step_secs t) - 1, unat now' div unat (step_secs t),
      unat now' div unat (step_secs t) + 1}" using near by auto
  ultimately show ?thesis unfolding verify_rfc6238 [OF tag step digits now] Let_def by auto
qed

section \<open>Secrets\<close>

lemma pad_count: "k < 8 \<Longrightarrow> k \<noteq> 0 \<Longrightarrow> (8 - k) mod 8 = Suc ((8 - Suc k mod 8) mod 8)" for k :: nat
proof -
  assume "k < 8" "k \<noteq> 0"
  then consider "k = 1" | "k = 2" | "k = 3" | "k = 4" | "k = 5" | "k = 6" | "k = 7" by linarith
  then show ?thesis by cases simp_all
qed

lemma pad_count_unique: "n < 8 \<Longrightarrow> (k + n) mod 8 = 0 \<Longrightarrow> (8 - k mod 8) mod 8 = n" for k n :: nat
proof -
  assume n: "n < 8" and m: "(k + n) mod 8 = 0"
  from m have "(k mod 8 + n) mod 8 = 0" by (simp add: mod_add_left_eq)
  then obtain q where q: "k mod 8 + n = 8 * q" by (auto simp: mod_eq_0_iff_dvd)
  moreover have "k mod 8 < 8" by simp
  ultimately have "q = 0 \<or> q = 1" using n by linarith
  with q n show ?thesis by auto
qed

lemma pad_base32_eq: "pad_base32 s = s @ replicate ((8 - length s mod 8) mod 8) CHR ''=''"
proof (induction s rule: pad_base32.induct)
  case (1 s)
  show ?case
  proof (cases "length s mod 8 = 0")
    case False
    let ?k = "length s mod 8"
    have k: "?k < 8" by simp
    have e: "(8 - ?k) mod 8 = Suc ((8 - Suc (length s) mod 8) mod 8)"
      using pad_count [OF k False] by (simp only: mod_Suc_eq)
    from False have "pad_base32 s = pad_base32 (s @ ''='')" by (simp add: pad_base32.simps [of s])
    also have "\<dots> = (s @ ''='') @ replicate ((8 - Suc (length s) mod 8) mod 8) CHR ''=''" using 1 False by simp
    finally show ?thesis by (simp add: e)
  qed (simp add: pad_base32.simps)
qed


text \<open>
  A secret that was printed in Base32 is read back, also when the padding was dropped and
  blanks were put in, or letters turned to lower case: what \<open>from_base32\<close> decodes is the
  upper-case text without blanks, padded to a multiple of eight characters. \<open>decode\<close> is
  assumed only to invert \<open>encode\<close> on this secret.
\<close>

theorem from_base32_reads_secret:
  assumes enc: "encode key = body @ replicate n CHR ''=''" "n < 8" "length (encode key) mod 8 = 0"
    and dec: "decode (encode key) = Ok key"
    and given: "to_uppercase (filter (\<lambda>c. c \<noteq> CHR '' '') given) = body"
  shows "from_base32 to_uppercase decode given = Ok (Totp_new key)"
proof -
  from enc have "(length body + n) mod 8 = 0" by simp
  with enc(2) have "(8 - length body mod 8) mod 8 = n" by (rule pad_count_unique)
  with enc have "pad_base32 body = encode key" by (simp only: pad_base32_eq)
  with given dec show ?thesis by (simp only: from_base32_def Let_def) simp
qed

definition sample_upper :: "string \<Rightarrow> string" where
  "sample_upper = map (\<lambda>c. if 97 \<le> (of_char c :: nat) \<and> (of_char c :: nat) \<le> 122
                           then char_of (of_char c - 32 :: nat) else c)"

definition sample_decode :: "string \<Rightarrow> string + bytes" where
  "sample_decode s = (if s = ''JA======'' then Ok [0x48] else Err ''invalid symbol'')"

theorem from_base32_reads_secret_witness:
  "from_base32 sample_upper sample_decode ''j a'' = Ok (Totp_new [0x48])"
  by (rule from_base32_reads_secret [where encode = "\<lambda>_. ''JA======''" and body = "''JA''" and n = 6])
     (simp_all add: sample_upper_def sample_decode_def eval_simps)

end
