(* ===== verification/Transition.thy ===== *)
theory Transition
  imports Main
begin

text \<open>
  Reachable states of a step relation, and invariants. The components that several tasks share
  are given as a predicate for the initial states and a step relation; the locale \<open>invariant\<close>
  is the proof rule by which their properties are established.
\<close>

inductive reach :: "('s \<Rightarrow> bool) \<Rightarrow> ('s \<Rightarrow> 's \<Rightarrow> bool) \<Rightarrow> 's \<Rightarrow> bool"
  for init :: "'s \<Rightarrow> bool" and step :: "'s \<Rightarrow> 's \<Rightarrow> bool" where
  reach_init: "init s \<Longrightarrow> reach init step s"
| reach_step: "reach init step s \<Longrightarrow> step s t \<Longrightarrow> reach init step t"

locale invariant =
  fixes init :: "'s \<Rightarrow> bool" and step :: "'s \<Rightarrow> 's \<Rightarrow> bool" and inv :: "'s \<Rightarrow> bool"
  assumes init_inv: "init s \<Longrightarrow> inv s"
    and step_inv: "inv s \<Longrightarrow> step s t \<Longrightarrow> inv t"
begin

lemma reach_inv: "reach init step s \<Longrightarrow> inv s"
  by (induction rule: reach.induct) (auto intro: init_inv step_inv)

lemma steps_inv: "step\<^sup>*\<^sup>* s t \<Longrightarrow> inv s \<Longrightarrow> inv t"
  by (induction rule: rtranclp_induct) (auto intro: step_inv)

end

text \<open>
  The path a list of labels takes through a labelled step relation, and the proof rule by which a
  component whose operations are functions is shown to follow an abstract step relation.
\<close>

primrec label_path :: "('a \<Rightarrow> 's \<Rightarrow> 's \<Rightarrow> bool) \<Rightarrow> 'a list \<Rightarrow> 's \<Rightarrow> 's \<Rightarrow> bool" where
  "label_path R [] s t \<longleftrightarrow> s = t"
| "label_path R (a # as) s t \<longleftrightarrow> (\<exists>u. R a s u \<and> label_path R as u t)"

lemma label_path_append: "label_path R (as @ bs) s t \<longleftrightarrow> (\<exists>u. label_path R as s u \<and> label_path R bs u t)"
  by (induction as arbitrary: s) auto

lemma label_path_first:
  assumes "label_path R as s t" "P s" "\<not> P t"
  obtains xs a ys u v where "as = xs @ a # ys" "label_path R xs s u" "P u" "R a u v" "\<not> P v" "label_path R ys v t"
  using assms
proof (induction as arbitrary: s thesis)
  case (Cons a as)
  then obtain u where u: "R a s u" "label_path R as u t" by auto
  show ?case
  proof (cases "P u")
    case True
    from Cons.IH [OF _ u(2) True Cons.prems(4)] obtain xs b ys v w where
      "as = xs @ b # ys" "label_path R xs u v" "P v" "R b v w" "\<not> P w" "label_path R ys w t" by blast
    with u(1) show thesis by (intro Cons.prems(1) [of "a # xs" b ys v w]) auto
  next
    case False
    with u Cons.prems(3) show thesis by (intro Cons.prems(1) [of "[]" a as s u]) auto
  qed
qed simp

locale simulation =
  fixes inv :: "'s \<Rightarrow> bool" and step :: "'a \<Rightarrow> 's \<Rightarrow> 's" and abs_state :: "'s \<Rightarrow> 't"
    and abs_step :: "'a \<Rightarrow> 't \<Rightarrow> 't \<Rightarrow> bool"
  assumes step_keeps: "inv s \<Longrightarrow> inv (step a s)"
    and step_simulates: "inv s \<Longrightarrow> abs_step a (abs_state s) (abs_state (step a s))"
begin

lemma fold_keeps: "inv s \<Longrightarrow> inv (fold step as s)"
  by (induction as arbitrary: s) (auto intro: step_keeps)

lemma fold_simulates: "inv s \<Longrightarrow> label_path abs_step as (abs_state s) (abs_state (fold step as s))"
  by (induction as arbitrary: s) (auto intro: step_keeps step_simulates)

end

end
