(* ===== verification/Stealth_Conn.thy ===== *)
theory Stealth_Conn
  imports Config_Loader Transition
begin

text \<open>
  The connection handler of a forward proxy, \<^verbatim>\<open>src/src/proxy/stealth_connection_handler.rs\<close>, and the stealth
  handler it calls, \<^verbatim>\<open>src/src/proxy/stealth_handler.rs\<close>: the access list, the limits per client address, the
  counters, UDP sessions, and what happens when the remote server refuses.

  The shared maps and counters are one record. Instants are nanoseconds. The 64-bit counters wrap,
  as atomic addition does. What the network does is given by arguments.
\<close>

section \<open>State\<close>

record IpSecurityStats =
  ip_active :: nat
  recent_connections :: "nat list"

definition IpSecurityStats_new :: IpSecurityStats where
  "IpSecurityStats_new = \<lparr>ip_active = 0, recent_connections = []\<rparr>"

record StealthConnectionCounters =
  total_connections :: u64
  active_connections :: u64
  successful_connections :: u64
  failed_connections :: u64
  bytes_transferred :: u64

definition StealthConnectionCounters_new :: StealthConnectionCounters where
  "StealthConnectionCounters_new =
     \<lparr>total_connections = 0, active_connections = 0, successful_connections = 0,
      failed_connections = 0, bytes_transferred = 0\<rparr>"

record StealthConnectionHandler =
  remote_addr :: SocketAddr
  source_ip :: "IpAddr option"
  stats :: StealthConnectionCounters
  udp_sessions :: "SocketAddr \<rightharpoonup> nat"
  allow_ips :: "string list option"
  max_conns_per_ip :: "nat option"
  cps_limit :: "f64 option"
  ip_stats :: "IpAddr \<rightharpoonup> IpSecurityStats"

definition StealthConnectionHandler_new ::
  "SocketAddr \<Rightarrow> IpAddr option \<Rightarrow> string list option \<Rightarrow> nat option \<Rightarrow> f64 option
   \<Rightarrow> StealthConnectionHandler" where
  "StealthConnectionHandler_new addr src allow max_conns cps =
     \<lparr>remote_addr = addr, source_ip = src, stats = StealthConnectionCounters_new,
      udp_sessions = Map.empty, allow_ips = allow, max_conns_per_ip = max_conns,
      cps_limit = cps, ip_stats = Map.empty\<rparr>"

text \<open>\<open>snapshot\<close> and the accessors of the counters: the plain values.\<close>

definition snapshot :: "StealthConnectionCounters \<Rightarrow> u64 \<times> u64 \<times> u64 \<times> u64 \<times> u64" where
  "snapshot c = (total_connections c, active_connections c, successful_connections c,
                 failed_connections c, bytes_transferred c)"

section \<open>Access list and limits\<close>

definition forwarding_failed :: "string \<Rightarrow> AppError" where
  "forwarding_failed s = Proxy (ForwardingFailed s)"

definition pattern_matches :: "string \<Rightarrow> string \<Rightarrow> bool" where
  "pattern_matches ip_str pattern =
     (ip_str = pattern \<or> pattern = ''0.0.0.0/0'' \<or> pattern = ''::/0'')"

fun match_found :: "string \<Rightarrow> string list \<Rightarrow> bool" where
  "match_found ip_str [] = False"
| "match_found ip_str (p # ps) = (if pattern_matches ip_str p then True else match_found ip_str ps)"

definition acl_allows :: "StealthConnectionHandler \<Rightarrow> IpAddr \<Rightarrow> bool" where
  "acl_allows h ip =
     (case allow_ips h of None \<Rightarrow> True | Some allowed \<Rightarrow> match_found (show_ip ip) allowed)"

definition one_second :: nat where "one_second = 10 ^ 9"

text \<open>
  The part under the lock, on the entry of the address: the error, if any, and the entry as it
  is left. \<open>Instant::duration_since\<close> is zero for a later instant.
\<close>

definition check_limits ::
  "nat option \<Rightarrow> f64 option \<Rightarrow> IpAddr \<Rightarrow> nat \<Rightarrow> IpSecurityStats \<Rightarrow> AppError option \<times> IpSecurityStats" where
  "check_limits max_conns cps ip now st =
     (if (case max_conns of Some max_active \<Rightarrow> max_active \<le> ip_active st | None \<Rightarrow> False) then
        (Some (forwarding_failed (''Max connections per IP reached for '' @ show_ip ip)), st)
      else
        (case cps of
           None \<Rightarrow> (None, st\<lparr>ip_active := ip_active st + 1\<rparr>)
         | Some limit \<Rightarrow>
             (let recent = filter (\<lambda>t. now - t < one_second) (recent_connections st) in
              if f64_as_usize limit \<le> length recent then
                (Some (forwarding_failed (''Connection rate limit exceeded for '' @ show_ip ip)),
                 st\<lparr>recent_connections := recent\<rparr>)
              else
                (None, st\<lparr>recent_connections := recent @ [now], ip_active := ip_active st + 1\<rparr>))))"

definition ip_entry :: "StealthConnectionHandler \<Rightarrow> IpAddr \<Rightarrow> IpSecurityStats" where
  "ip_entry h ip = (case ip_stats h ip of None \<Rightarrow> IpSecurityStats_new | Some st \<Rightarrow> st)"

definition check_security ::
  "IpAddr \<Rightarrow> nat \<Rightarrow> StealthConnectionHandler \<Rightarrow> (AppError + unit) \<times> StealthConnectionHandler" where
  "check_security ip now h =
     (if \<not> acl_allows h ip then
        (Err (forwarding_failed (''IP '' @ show_ip ip @ '' not in allow list'')), h)
      else if max_conns_per_ip h \<noteq> None \<or> cps_limit h \<noteq> None then
        (let (e, st) = check_limits (max_conns_per_ip h) (cps_limit h) ip now (ip_entry h ip);
             h' = h\<lparr>ip_stats := (ip_stats h)(ip \<mapsto> st)\<rparr>
         in case e of Some err \<Rightarrow> (Err err, h') | None \<Rightarrow> (Ok (), h'))
      else (Ok (), h))"

definition register_disconnection ::
  "IpAddr \<Rightarrow> StealthConnectionHandler \<Rightarrow> StealthConnectionHandler" where
  "register_disconnection ip h =
     (if max_conns_per_ip h \<noteq> None then
        (case ip_stats h ip of
           None \<Rightarrow> h
         | Some st \<Rightarrow> h\<lparr>ip_stats := (ip_stats h)(ip \<mapsto> st\<lparr>ip_active := ip_active st - 1\<rparr>)\<rparr>)
      else h)"

section \<open>TCP connections\<close>

text \<open>
  \<open>handle_connection\<close> in two parts: up to the counters, and after the stealth handler has
  returned. \<open>client\<close> is the peer address, if it could be read.
\<close>

definition count_start :: "StealthConnectionHandler \<Rightarrow> StealthConnectionHandler" where
  "count_start h = h\<lparr>stats := (stats h)
     \<lparr>total_connections := total_connections (stats h) + 1,
      active_connections := active_connections (stats h) + 1\<rparr>\<rparr>"

definition connection_begin ::
  "SocketAddr option \<Rightarrow> nat \<Rightarrow> StealthConnectionHandler
   \<Rightarrow> (AppError + unit) \<times> StealthConnectionHandler" where
  "connection_begin client now h =
     (case client of
        None \<Rightarrow> (Ok (), count_start h)
      | Some addr \<Rightarrow>
          (case check_security (sa_ip addr) now h of
             (Inl e, h1) \<Rightarrow> (Err e, h1)
           | (Inr _, h1) \<Rightarrow> (Ok (), count_start h1)))"

definition disconnect_client ::
  "SocketAddr option \<Rightarrow> StealthConnectionHandler \<Rightarrow> StealthConnectionHandler" where
  "disconnect_client client h =
     (case client of None \<Rightarrow> h | Some addr \<Rightarrow> register_disconnection (sa_ip addr) h)"

definition connection_end ::
  "SocketAddr option \<Rightarrow> ProxyError + unit \<Rightarrow> StealthConnectionHandler
   \<Rightarrow> (AppError + unit) \<times> StealthConnectionHandler" where
  "connection_end client outcome h =
     (case outcome of
        Inr _ \<Rightarrow>
          (let h1 = h\<lparr>stats := (stats h)
                     \<lparr>successful_connections := successful_connections (stats h) + 1\<rparr>\<rparr>;
               h2 = disconnect_client client h1
           in (Ok (), h2\<lparr>stats := (stats h2)
                  \<lparr>active_connections := active_connections (stats h2) - 1\<rparr>\<rparr>))
      | Inl e \<Rightarrow>
          (let h1 = disconnect_client client h
           in (Err (Proxy e), h1\<lparr>stats := (stats h1)
                  \<lparr>failed_connections := failed_connections (stats h1) + 1\<rparr>\<rparr>)))"

definition apply_tcp_optimizations :: "IoError option \<Rightarrow> AppError + unit" where
  "apply_tcp_optimizations nodelay =
     (case nodelay of
        None \<Rightarrow> Ok ()
      | Some e \<Rightarrow> Err (forwarding_failed (''Failed to set nodelay: '' @ io_text e)))"

definition handle_connection ::
  "SocketAddr option \<Rightarrow> nat \<Rightarrow> IoError option \<Rightarrow> ProxyError + unit \<Rightarrow> StealthConnectionHandler
   \<Rightarrow> (AppError + unit) \<times> StealthConnectionHandler" where
  "handle_connection client now nodelay outcome h =
     (case connection_begin client now h of
        (Inl e, h1) \<Rightarrow> (Err e, h1)
      | (Inr _, h1) \<Rightarrow>
          (case apply_tcp_optimizations nodelay of
             Inl e \<Rightarrow> (Err e, h1)
           | Inr _ \<Rightarrow> connection_end client outcome h1))"

section \<open>UDP packets\<close>

text \<open>
  \<open>fresh\<close> names the socket a new session would get; \<open>bound\<close>, \<open>linked\<close> and \<open>sent\<close> are the outcomes of
  binding, connecting and sending. The last component is the socket the data went to.
\<close>

definition handle_udp_packet ::
  "nat \<Rightarrow> IoError option \<Rightarrow> IoError option \<Rightarrow> IoError option \<Rightarrow> SocketAddr \<Rightarrow> nat
   \<Rightarrow> StealthConnectionHandler \<Rightarrow> (AppError + nat) \<times> StealthConnectionHandler" where
  "handle_udp_packet fresh bound linked sent client_addr now h =
     (case check_security (sa_ip client_addr) now h of
        (Inl e, h1) \<Rightarrow> (Err e, h1)
      | (Inr _, h1) \<Rightarrow>
          (case
             (case udp_sessions h1 client_addr of
                Some socket \<Rightarrow> Inr (socket, h1)
              | None \<Rightarrow>
                  (case bound of
                     Some e \<Rightarrow> Inl (''Failed to bind backend UDP socket: '' @ io_text e)
                   | None \<Rightarrow>
                       (case linked of
                          Some e \<Rightarrow> Inl (''Failed to connect to remote UDP ''
                                          @ show_sockaddr (remote_addr h1) @ '': '' @ io_text e)
                        | None \<Rightarrow>
                            Inr (fresh, h1\<lparr>udp_sessions := (udp_sessions h1)(client_addr \<mapsto> fresh)\<rparr>))))
           of
             Inl msg \<Rightarrow> (Err (forwarding_failed msg), h1)
           | Inr (socket, h2) \<Rightarrow>
               (case sent of
                  Some e \<Rightarrow> (Err (forwarding_failed (''Failed to forward UDP packet: '' @ io_text e)), h2)
                | None \<Rightarrow> (Ok socket, h2))))"

datatype RelayEvent =
    Received bytes bool
  | RecvError
  | RelayTimeout

text \<open>The relay of responses: what reaches the client until a send fails, an error or a timeout.\<close>

fun udp_relay :: "RelayEvent list \<Rightarrow> bytes list" where
  "udp_relay [] = []"
| "udp_relay (Received d sent # evs) = (if sent then d # udp_relay evs else [])"
| "udp_relay (RecvError # evs) = []"
| "udp_relay (RelayTimeout # evs) = []"

definition udp_session_end :: "SocketAddr \<Rightarrow> StealthConnectionHandler \<Rightarrow> StealthConnectionHandler" where
  "udp_session_end client_addr h = h\<lparr>udp_sessions := (udp_sessions h)(client_addr := None)\<rparr>"

section \<open>The stealth handler\<close>

text \<open>\<open>seed\<close> is the clock in nanoseconds cast to 64 bits; \<open>None\<close> is a division by zero.\<close>

definition pseudo_random_range :: "u64 \<Rightarrow> u64 \<Rightarrow> u64 \<Rightarrow> u64 option" where
  "pseudo_random_range seed lo hi =
     (let a = 1664525; c = 1013904223; m = 2 ^ 32;
          result = (a * seed + c) mod m;
          width = hi - lo + 1
      in if width = 0 then None else Some (lo + result mod width))"

definition is_io_rejection :: "IoError \<Rightarrow> bool" where
  "is_io_rejection e =
     (io_kind e \<in> {ConnectionResetKind, ConnectionRefused, ConnectionAborted, BrokenPipe})"

definition is_rejection :: "ProxyError \<Rightarrow> bool" where
  "is_rejection err =
     (case err of
        ForwardingFailed msg \<Rightarrow>
          contains_str ''refused'' msg \<or> contains_str ''reset'' msg
          \<or> contains_str ''rejected'' msg \<or> contains_str ''timeout'' msg
      | _ \<Rightarrow> False)"

definition is_connection_error_rejection :: "string \<Rightarrow> bool" where
  "is_connection_error_rejection msg =
     (contains_str ''refused'' msg \<or> contains_str ''reset'' msg \<or> contains_str ''rejected'' msg
      \<or> contains_str ''timeout'' msg \<or> contains_str ''connection'' msg)"

text \<open>
  The blackhole loop. An event comes with the time elapsed when the loop condition is tested
  before it; when the events are used up the sleep has fired. The result is the number of
  bytes discarded.
\<close>

datatype ReadEvent =
    ReadBytes nat
  | ReadFailed IoError

fun blackhole_loop :: "nat \<Rightarrow> (nat \<times> ReadEvent) list \<Rightarrow> nat" where
  "blackhole_loop delay [] = 0"
| "blackhole_loop delay ((elapsed, ev) # evs) =
     (if elapsed < delay then
        (case ev of
           ReadBytes n \<Rightarrow> if n = 0 then 0 else n + blackhole_loop delay evs
         | ReadFailed e \<Rightarrow> 0)
      else 0)"

definition enter_blackhole_mode ::
  "u64 \<Rightarrow> (nat \<times> ReadEvent) list \<Rightarrow> (nat \<times> (ProxyError + unit)) option" where
  "enter_blackhole_mode seed evs =
     (case pseudo_random_range seed 5 30 of
        None \<Rightarrow> None
      | Some delay_seconds \<Rightarrow>
          Some (blackhole_loop (unat delay_seconds * one_second) evs, Ok ()))"

text \<open>The result of the copier decides that of forwarding.\<close>

definition normal_forwarding :: "AppError + nat \<times> nat \<Rightarrow> ProxyError + unit" where
  "normal_forwarding copied =
     (case copied of
        Inl e \<Rightarrow> Err (ForwardingFailed (''Zero-copy failed: '' @ show_AppError e))
      | Inr _ \<Rightarrow> Ok ())"

text \<open>\<open>outcome\<close> is the outcome of connecting, and of copying on the connection.\<close>

definition handle_stealth ::
  "u64 \<Rightarrow> (nat \<times> ReadEvent) list \<Rightarrow> IoError + (AppError + nat \<times> nat) \<Rightarrow> (ProxyError + unit) option" where
  "handle_stealth seed evs outcome =
     (case outcome of
        Inr copied \<Rightarrow> Some (normal_forwarding copied)
      | Inl e \<Rightarrow>
          if is_io_rejection e \<or> is_connection_error_rejection (io_text e)
          then map_option snd (enter_blackhole_mode seed evs)
          else Some (Err (ForwardingFailed (''Connection failed: '' @ io_text e))))"

section \<open>Interleavings\<close>

text \<open>
  The handler with the addresses of the TCP connections in progress, and the number of
  connections dropped between the counters and the stealth handler.
\<close>

record HandlerState =
  handler :: StealthConnectionHandler
  live :: "SocketAddr option list"
  dropped :: nat

inductive handler_step :: "HandlerState \<Rightarrow> HandlerState \<Rightarrow> bool" where
  refused: "connection_begin client now (handler s) = (Inl e, h) \<Longrightarrow>
            handler_step s (s\<lparr>handler := h\<rparr>)"
| admitted: "connection_begin client now (handler s) = (Inr u, h) \<Longrightarrow>
            handler_step s (s\<lparr>handler := h, live := client # live s\<rparr>)"
| finished: "client \<in> set (live s) \<Longrightarrow> connection_end client outcome (handler s) = (r, h) \<Longrightarrow>
            handler_step s (s\<lparr>handler := h, live := remove1 client (live s)\<rparr>)"
| not_optimized: "client \<in> set (live s) \<Longrightarrow> apply_tcp_optimizations nodelay = Inl e \<Longrightarrow>
            handler_step s (s\<lparr>live := remove1 client (live s), dropped := dropped s + 1\<rparr>)"
| packet: "handle_udp_packet fresh bound linked sent client_addr now (handler s) = (p, h) \<Longrightarrow>
            handler_step s (s\<lparr>handler := h\<rparr>)"
| relay_end: "handler_step s (s\<lparr>handler := udp_session_end client_addr (handler s)\<rparr>)"

definition handler_init :: "StealthConnectionHandler \<Rightarrow> HandlerState \<Rightarrow> bool" where
  "handler_init h0 s = (s = \<lparr>handler = h0, live = [], dropped = 0\<rparr>)"

section \<open>Effects of the operations\<close>

lemma match_found_iff: "match_found s ps \<longleftrightarrow> (\<exists>p \<in> set ps. pattern_matches s p)"
  by (induction ps) auto

abbreviation same_config :: "StealthConnectionHandler \<Rightarrow> StealthConnectionHandler \<Rightarrow> bool" where
  "same_config h h' \<equiv> allow_ips h' = allow_ips h \<and> max_conns_per_ip h' = max_conns_per_ip h
     \<and> cps_limit h' = cps_limit h \<and> remote_addr h' = remote_addr h"

lemma check_security_frame:
  "check_security ip now h = (r, h') \<Longrightarrow>
   same_config h h' \<and> stats h' = stats h \<and> udp_sessions h' = udp_sessions h
   \<and> (\<forall>ip'. ip' \<noteq> ip \<longrightarrow> ip_entry h' ip' = ip_entry h ip')"
  by (auto simp: check_security_def ip_entry_def Let_def split: if_splits prod.splits option.splits)

lemma check_limits_active:
  "check_limits (Some m) cps ip now st = (e, st') \<Longrightarrow>
   ip_active st' = (if e = None then Suc (ip_active st) else ip_active st) \<and> (e = None \<longrightarrow> ip_active st < m)"
  by (auto simp: check_limits_def Let_def split: if_splits option.splits)

lemma check_security_active:
  assumes "check_security ip now h = (r, h')" "max_conns_per_ip h = Some m"
  shows "ip_active (ip_entry h' ip) = (if is_ok r then Suc (ip_active (ip_entry h ip)) else ip_active (ip_entry h ip))"
    and "is_ok r \<Longrightarrow> ip_active (ip_entry h ip) < m"
proof -
  obtain e st where l: "check_limits (Some m) (cps_limit h) ip now (ip_entry h ip) = (e, st)" by fastforce
  note la = check_limits_active [OF l]
  have "ip_entry (h\<lparr>ip_stats := (ip_stats h)(ip \<mapsto> st)\<rparr>) ip = st" by (simp add: ip_entry_def)
  with assms l la show "ip_active (ip_entry h' ip) = (if is_ok r then Suc (ip_active (ip_entry h ip)) else ip_active (ip_entry h ip))"
    and "is_ok r \<Longrightarrow> ip_active (ip_entry h ip) < m"
    by (auto simp: check_security_def split: if_splits option.splits)
qed

lemma register_disconnection_frame:
  "same_config h (register_disconnection ip h) \<and> stats (register_disconnection ip h) = stats h
   \<and> udp_sessions (register_disconnection ip h) = udp_sessions h"
  by (simp add: register_disconnection_def split: option.splits)

lemma register_disconnection_active:
  "max_conns_per_ip h = Some m \<Longrightarrow>
   ip_active (ip_entry (register_disconnection ip h) ip') =
     (if ip' = ip then ip_active (ip_entry h ip) - 1 else ip_active (ip_entry h ip'))"
  by (simp add: register_disconnection_def ip_entry_def IpSecurityStats_new_def split: option.splits)

lemma count_start_frame [simp]:
  "ip_entry (count_start h) = ip_entry h" "same_config h (count_start h)"
  by (simp_all add: count_start_def ip_entry_def fun_eq_iff)

lemma ip_entry_stats [simp]: "ip_entry (h\<lparr>stats := x\<rparr>) = ip_entry h"
  "ip_entry (h\<lparr>udp_sessions := y\<rparr>) = ip_entry h"
  by (simp_all add: ip_entry_def fun_eq_iff)

lemma connection_begin_Err:
  "connection_begin client now h = (Inl e, h') \<longleftrightarrow>
   (\<exists>a. client = Some a \<and> check_security (sa_ip a) now h = (Inl e, h'))"
  by (cases client; cases "check_security (sa_ip (the client)) now h")
     (auto simp: connection_begin_def split: sum.splits)

lemma connection_begin_Ok:
  "connection_begin client now h = (Inr u, h') \<longleftrightarrow>
   client = None \<and> h' = count_start h
   \<or> (\<exists>a h1. client = Some a \<and> check_security (sa_ip a) now h = (Inr (), h1) \<and> h' = count_start h1)"
  by (cases client; cases "check_security (sa_ip (the client)) now h")
     (auto simp: connection_begin_def split: sum.splits)

lemma disconnect_client_frame:
  "same_config h (disconnect_client client h) \<and> stats (disconnect_client client h) = stats h"
  using register_disconnection_frame by (auto simp: disconnect_client_def split: option.splits)

lemma disconnect_client_active:
  "max_conns_per_ip h = Some m \<Longrightarrow>
   ip_active (ip_entry (disconnect_client client h) ip) =
     (if map_option sa_ip client = Some ip then ip_active (ip_entry h ip) - 1 else ip_active (ip_entry h ip))"
  by (auto simp: disconnect_client_def register_disconnection_active split: option.splits)

lemma register_disconnection_stats:
  "register_disconnection ip (h\<lparr>stats := x\<rparr>) = (register_disconnection ip h)\<lparr>stats := x\<rparr>"
  by (cases h) (simp add: register_disconnection_def split: option.splits)

lemma disconnect_client_stats:
  "disconnect_client client (h\<lparr>stats := x\<rparr>) = (disconnect_client client h)\<lparr>stats := x\<rparr>"
  by (simp add: disconnect_client_def register_disconnection_stats split: option.splits)

lemma connection_end_frame:
  assumes "connection_end client outcome h = (r, h')"
  shows "ip_entry h' = ip_entry (disconnect_client client h) \<and> same_config h h'
    \<and> stats h' = (if is_ok outcome
        then (stats h)\<lparr>successful_connections := successful_connections (stats h) + 1,
                       active_connections := active_connections (stats h) - 1\<rparr>
        else (stats h)\<lparr>failed_connections := failed_connections (stats h) + 1\<rparr>)"
  using assms disconnect_client_frame [where h = h and client = client]
  by (cases outcome) (auto simp: connection_end_def Let_def disconnect_client_stats)

lemma handle_udp_packet_frame:
  assumes "handle_udp_packet fresh bound linked sent a now h = (p, h')"
  shows "\<exists>r h1. check_security (sa_ip a) now h = (r, h1) \<and> same_config h h' \<and> stats h' = stats h
     \<and> ip_entry h' = ip_entry h1"
proof -
  obtain r h1 where c: "check_security (sa_ip a) now h = (r, h1)" by fastforce
  note f = check_security_frame [OF c]
  from assms c have "h' = h1 \<or> (\<exists>y. h' = h1\<lparr>udp_sessions := y\<rparr>)"
    by (auto simp: handle_udp_packet_def split: sum.splits option.splits)
  with c f show ?thesis by auto
qed

section \<open>The limit of connections per address\<close>

definition live_from :: "IpAddr \<Rightarrow> HandlerState \<Rightarrow> nat" where
  "live_from ip s = length (filter (\<lambda>c. map_option sa_ip c = Some ip) (live s))"

definition limit_inv :: "nat \<Rightarrow> HandlerState \<Rightarrow> bool" where
  "limit_inv m s \<longleftrightarrow> max_conns_per_ip (handler s) = Some m
     \<and> (\<forall>ip. live_from ip s \<le> ip_active (ip_entry (handler s) ip) \<and> ip_active (ip_entry (handler s) ip) \<le> m)"

lemma length_filter_remove1:
  "x \<in> set xs \<Longrightarrow> length (filter P (remove1 x xs)) = (if P x then length (filter P xs) - 1 else length (filter P xs))"
proof (induction xs)
  case (Cons a xs)
  have "0 < length (filter P xs)" if "x \<in> set xs" "P x"
    using that by (intro length_pos_if_in_set [of x]) simp
  with Cons show ?case by auto
qed simp

lemma check_security_limit:
  assumes "check_security ip now h = (r, h')" "max_conns_per_ip h = Some m" "\<forall>ip. ip_active (ip_entry h ip) \<le> m"
  shows "(\<forall>ip. ip_active (ip_entry h' ip) \<le> m) \<and> (\<forall>ip'. ip_active (ip_entry h ip') \<le> ip_active (ip_entry h' ip'))"
proof -
  have "ip_active (ip_entry h' ip') \<le> m \<and> ip_active (ip_entry h ip') \<le> ip_active (ip_entry h' ip')" for ip'
    using check_security_active [OF assms(1,2)] check_security_frame [OF assms(1)] assms(3)
    by (cases "ip' = ip"; cases "is_ok r") (auto simp: Suc_le_eq)
  then show ?thesis by blast
qed

lemma limit_inv_mono:
  assumes "limit_inv m s" "live t = live s" "max_conns_per_ip (handler t) = Some m"
    "\<forall>ip. ip_active (ip_entry (handler t) ip) \<le> m"
    "\<forall>ip. ip_active (ip_entry (handler s) ip) \<le> ip_active (ip_entry (handler t) ip)"
  shows "limit_inv m t"
  using assms le_trans unfolding limit_inv_def live_from_def by metis

lemma limit_invD:
  assumes "limit_inv m s"
  shows "max_conns_per_ip (handler s) = Some m"
    and "live_from ip s \<le> ip_active (ip_entry (handler s) ip)" "ip_active (ip_entry (handler s) ip) \<le> m"
  using assms by (simp_all add: limit_inv_def)

lemma limit_inv_admitted:
  assumes inv: "limit_inv m s" and ok: "connection_begin client now (handler s) = (Inr u, h)"
  shows "limit_inv m (s\<lparr>handler := h, live := client # live s\<rparr>)"
proof (cases client)
  case None
  with ok have "h = count_start (handler s)" by (simp add: connection_begin_Ok)
  with None inv show ?thesis by (simp add: limit_inv_def live_from_def)
next
  case (Some a)
  with ok obtain h1 where c: "check_security (sa_ip a) now (handler s) = (Inr (), h1)" "h = count_start h1"
    by (auto simp: connection_begin_Ok)
  note mx = limit_invD(1) [OF inv]
  have "live_from ip (s\<lparr>handler := h, live := client # live s\<rparr>) \<le> ip_active (ip_entry h1 ip)
      \<and> ip_active (ip_entry h1 ip) \<le> m" for ip
    using check_security_active [OF c(1) mx] check_security_frame [OF c(1)] limit_invD(2,3) [OF inv, of ip] Some
    by (cases "ip = sa_ip a") (auto simp: live_from_def)
  with c check_security_frame [OF c(1)] mx show ?thesis by (simp add: limit_inv_def)
qed

lemma limit_inv_step: "limit_inv m s \<Longrightarrow> handler_step s t \<Longrightarrow> limit_inv m t"
proof -
  assume inv: "limit_inv m s" and step: "handler_step s t"
  let ?h = "handler s"
  note mx = limit_invD(1) [OF inv] and le = limit_invD(2,3) [OF inv]
  from step show "limit_inv m t"
  proof (cases rule: handler_step.cases)
    case (refused client now e h)
    then obtain a where c: "check_security (sa_ip a) now ?h = (Inl e, h)"
      by (auto simp: connection_begin_Err)
    from check_security_limit [OF c mx] check_security_frame [OF c] le mx refused show ?thesis
      by (intro limit_inv_mono [OF inv]) simp_all
  next
    case (admitted client now u h)
    with limit_inv_admitted [OF inv] show ?thesis by simp
  next
    case (finished client outcome r h)
    note f = connection_end_frame [OF finished(3)]
    have "live_from ip t \<le> ip_active (ip_entry h ip) \<and> ip_active (ip_entry h ip) \<le> m" for ip
      using f le [of ip] finished
      by (auto simp: disconnect_client_active [OF mx] live_from_def length_filter_remove1)
    with f mx finished show ?thesis by (simp add: limit_inv_def)
  next
    case (not_optimized client nodelay e)
    with le mx show ?thesis
      by (auto simp: limit_inv_def live_from_def length_filter_remove1 intro: le_trans diff_le_self)
  next
    case (packet fresh bound linked sent a now p h)
    from handle_udp_packet_frame [OF packet(2)] obtain r h1 where
      c: "check_security (sa_ip a) now ?h = (r, h1)" "same_config ?h h" "ip_entry h = ip_entry h1" by blast
    from check_security_limit [OF c(1) mx] le mx c packet show ?thesis
      by (intro limit_inv_mono [OF inv]) simp_all
  next
    case (relay_end a)
    with inv show ?thesis by (simp add: limit_inv_def udp_session_end_def live_from_def)
  qed
qed

section \<open>The counters\<close>

definition counters_inv :: "HandlerState \<Rightarrow> bool" where
  "counters_inv s \<longleftrightarrow>
     (let c = stats (handler s) in
      total_connections c = of_nat (length (live s)) + successful_connections c + failed_connections c + of_nat (dropped s)
      \<and> active_connections c = of_nat (length (live s)) + failed_connections c + of_nat (dropped s))"

lemma length_remove1_word: "x \<in> set xs \<Longrightarrow> (of_nat (length (remove1 x xs)) :: u64) = of_nat (length xs) - 1"
proof -
  assume x: "x \<in> set xs"
  then have "0 < length xs" by (rule length_pos_if_in_set)
  with x have "length xs = Suc (length (remove1 x xs))" by (simp add: length_remove1)
  then have "(of_nat (length xs) :: u64) = of_nat (length (remove1 x xs)) + 1"
    by (metis add.commute of_nat_Suc)
  then show ?thesis by simp
qed

lemma connection_begin_stats:
  assumes "connection_begin client now h = (r, h')"
  shows "stats h' = (if is_ok r then stats (count_start h) else stats h)"
proof (cases r)
  case (Inl e)
  with assms show ?thesis by (auto simp: connection_begin_Err dest: check_security_frame)
next
  case (Inr u)
  with assms show ?thesis
    by (auto simp: connection_begin_Ok count_start_def dest!: check_security_frame)
qed

lemma counters_inv_step: "counters_inv s \<Longrightarrow> handler_step s t \<Longrightarrow> counters_inv t"
proof -
  assume inv: "counters_inv s" and step: "handler_step s t"
  from step show "counters_inv t"
  proof (cases rule: handler_step.cases)
    case (refused client now e h)
    with inv connection_begin_stats [OF refused(2)] show ?thesis by (simp add: counters_inv_def)
  next
    case (admitted client now u h)
    with inv connection_begin_stats [OF admitted(2)] show ?thesis
      by (simp add: counters_inv_def count_start_def Let_def)
  next
    case (finished client outcome r h)
    with inv connection_end_frame [OF finished(3)] show ?thesis
      by (auto simp: counters_inv_def Let_def length_remove1_word)
  next
    case (not_optimized client nodelay e)
    with inv show ?thesis by (auto simp: counters_inv_def Let_def length_remove1_word)
  next
    case (packet fresh bound linked sent a now p h)
    with inv handle_udp_packet_frame [OF packet(2)] show ?thesis by (auto simp: counters_inv_def)
  next
    case (relay_end a)
    with inv show ?thesis by (simp add: counters_inv_def udp_session_end_def)
  qed
qed

abbreviation start_of :: "SocketAddr \<Rightarrow> IpAddr option \<Rightarrow> string list option \<Rightarrow> nat option \<Rightarrow> f64 option \<Rightarrow> HandlerState \<Rightarrow> bool" where
  "start_of addr src allow mx cps \<equiv> handler_init (StealthConnectionHandler_new addr src allow mx cps)"

lemma limit_inv_init: "start_of addr src allow (Some m) cps s \<Longrightarrow> limit_inv m s"
  by (simp add: handler_init_def limit_inv_def live_from_def ip_entry_def IpSecurityStats_new_def
      StealthConnectionHandler_new_def)

lemma counters_inv_init: "start_of addr src allow mx cps s \<Longrightarrow> counters_inv s"
  by (simp add: handler_init_def counters_inv_def StealthConnectionHandler_new_def
      StealthConnectionCounters_new_def)

interpretation limit: invariant "start_of addr src allow (Some m) cps" handler_step "limit_inv m"
  for addr src allow m cps
  by unfold_locales (auto intro: limit_inv_init limit_inv_step)

interpretation counters: invariant "start_of addr src allow mx cps" handler_step counters_inv
  for addr src allow mx cps
  by unfold_locales (auto intro: counters_inv_init counters_inv_step)

text \<open>
  C3. The limit per address holds: with \<open>max_conns_per_ip\<close> set to \<open>m\<close>, in every interleaving of
  arriving, finishing and failing connections and UDP packets, at most \<open>m\<close> TCP connections from
  one address are in progress.
\<close>

theorem connections_per_ip_bounded:
  assumes "reach (start_of addr src allow (Some m) cps) handler_step s"
  shows "live_from ip s \<le> m"
  using limit.reach_inv [OF assms] le_trans unfolding limit_inv_def by blast

text \<open>A client, a handler with a limit of one, and the states in which its connection is
  open and has failed.\<close>

definition sample_peer :: SocketAddr where
  "sample_peer = SocketAddr_new ipv4_localhost 40000"

definition sample_open :: HandlerState where
  "sample_open =
     \<lparr>handler = snd (connection_begin (Some sample_peer) 0
        (StealthConnectionHandler_new sample_peer None None (Some 1) None)),
      live = [Some sample_peer], dropped = 0\<rparr>"

definition sample_failed :: HandlerState where
  "sample_failed =
     \<lparr>handler = snd (connection_end (Some sample_peer) (Err (ForwardingFailed ''x'')) (handler sample_open)),
      live = [], dropped = 0\<rparr>"

lemma sample_open_reach: "reach (start_of sample_peer None None (Some 1) None) handler_step sample_open"
proof (rule reach_step)
  let ?s0 = "\<lparr>handler = StealthConnectionHandler_new sample_peer None None (Some 1) None,
              live = [], dropped = 0\<rparr>"
  show "reach (start_of sample_peer None None (Some 1) None) handler_step ?s0"
    by (rule reach_init) (simp add: handler_init_def)
  let ?b = "connection_begin (Some sample_peer) 0
        (StealthConnectionHandler_new sample_peer None None (Some 1) None)"
  have "fst ?b = Ok ()"
    by (simp add: connection_begin_def check_security_def acl_allows_def check_limits_def
        StealthConnectionHandler_new_def ip_entry_def IpSecurityStats_new_def)
  then have "connection_begin (Some sample_peer) 0 (handler ?s0) = (Inr (), snd ?b)"
    by (simp add: prod_eq_iff)
  from handler_step.admitted [OF this] show "handler_step ?s0 sample_open" by (simp add: sample_open_def)
qed

lemma sample_failed_reach: "reach (start_of sample_peer None None (Some 1) None) handler_step sample_failed"
proof (rule reach_step [OF sample_open_reach])
  let ?e = "connection_end (Some sample_peer) (Err (ForwardingFailed ''x'')) (handler sample_open)"
  have "?e = (fst ?e, snd ?e)" by simp
  from handler_step.finished [OF _ this] show "handler_step sample_open sample_failed"
    by (simp add: sample_failed_def sample_open_def)
qed

theorem connections_per_ip_bounded_witness:
  "live_from ipv4_localhost sample_open \<le> 1"
  by (rule connections_per_ip_bounded [OF sample_open_reach])



section \<open>UDP packets and the limit\<close>

definition udp_packets :: "SocketAddr \<Rightarrow> nat list \<Rightarrow> StealthConnectionHandler \<Rightarrow> StealthConnectionHandler" where
  "udp_packets client instants h =
     fold (\<lambda>now h. snd (handle_udp_packet now None None None client now h)) instants h"

lemma check_security_full:
  assumes "acl_allows h ip" "max_conns_per_ip h = Some m" "m \<le> ip_active (ip_entry h ip)"
  shows "\<exists>h'. check_security ip now h = (Err (forwarding_failed (''Max connections per IP reached for '' @ show_ip ip)), h')"
  using assms by (simp add: check_security_def check_limits_def)

lemma check_security_free:
  assumes "acl_allows h ip" "max_conns_per_ip h = Some m" "cps_limit h = None" "ip_active (ip_entry h ip) < m"
  shows "is_ok (fst (check_security ip now h))"
  using assms by (simp add: check_security_def check_limits_def)

lemma udp_packets_active:
  assumes "allow_ips h = None" "max_conns_per_ip h = Some m" "cps_limit h = None"
    "ip_active (ip_entry h (sa_ip c)) + length instants \<le> m"
  shows "ip_active (ip_entry (udp_packets c instants h) (sa_ip c)) = ip_active (ip_entry h (sa_ip c)) + length instants
     \<and> allow_ips (udp_packets c instants h) = None \<and> max_conns_per_ip (udp_packets c instants h) = Some m"
  using assms
proof (induction instants arbitrary: h)
  case Nil
  then show ?case by (simp add: udp_packets_def)
next
  case (Cons now instants)
  obtain p h1 where p: "handle_udp_packet now None None None c now h = (p, h1)" by fastforce
  from handle_udp_packet_frame [OF p] obtain r h2 where
    c: "check_security (sa_ip c) now h = (r, h2)" "same_config h h1" "ip_entry h1 = ip_entry h2" by blast
  have "is_ok r" using check_security_free [of h "sa_ip c" m now] Cons.prems c(1) by (simp add: acl_allows_def)
  with check_security_active(1) [OF c(1) Cons.prems(2)] c(3)
  have a: "ip_active (ip_entry h1 (sa_ip c)) = Suc (ip_active (ip_entry h (sa_ip c)))" by simp
  with Cons.IH [of h1] Cons.prems c(2) p show ?case by (simp add: udp_packets_def)
qed

text \<open>
  UDP packets count as connections that never end: after as many packets from an address as
  the limit allows, and with no connection ever opened, the handler refuses every connection
  from that address.
\<close>

theorem udp_packets_lock_out_client:
  assumes "length instants = m" "h = udp_packets c instants (StealthConnectionHandler_new addr src None (Some m) None)"
    and "sa_ip c' = sa_ip c"
  shows "\<exists>h'. connection_begin (Some c') now h =
     (Err (forwarding_failed (''Max connections per IP reached for '' @ show_ip (sa_ip c))), h')"
proof -
  let ?h0 = "StealthConnectionHandler_new addr src None (Some m) None"
  have "ip_active (ip_entry h (sa_ip c)) = m \<and> allow_ips h = None \<and> max_conns_per_ip h = Some m"
    using udp_packets_active [of ?h0 m c instants] assms
    by (simp add: StealthConnectionHandler_new_def ip_entry_def IpSecurityStats_new_def)
  with check_security_full [of h "sa_ip c" m now] assms(3) show ?thesis
    by (auto simp: connection_begin_Err acl_allows_def)
qed

theorem udp_packets_lock_out_client_witness:
  "\<exists>h'. connection_begin (Some sample_peer) 9
       (udp_packets sample_peer [1, 2] (StealthConnectionHandler_new sample_peer None None (Some 2) None)) =
     (Err (forwarding_failed (''Max connections per IP reached for '' @ show_ip (sa_ip sample_peer))), h')"
  by (rule udp_packets_lock_out_client [of "[1, 2]" 2 _ _ sample_peer None]) simp_all

section \<open>The rate limit\<close>

fun admissions :: "IpAddr \<Rightarrow> StealthConnectionHandler \<Rightarrow> nat list \<Rightarrow> nat list" where
  "admissions ip h [] = []"
| "admissions ip h (now # ts) =
     (case check_security ip now h of
        (Inl _, h') \<Rightarrow> admissions ip h' ts
      | (Inr _, h') \<Rightarrow> now # admissions ip h' ts)"

lemma check_security_recent:
  assumes "check_security ip now h = (r, h')" "cps_limit h = Some l"
  defines "rec \<equiv> filter (\<lambda>t. now - t < one_second) (recent_connections (ip_entry h ip))"
  shows "is_ok r \<Longrightarrow> length rec < f64_as_usize l \<and> recent_connections (ip_entry h' ip) = rec @ [now]"
    and "\<not> is_ok r \<Longrightarrow> recent_connections (ip_entry h' ip) = recent_connections (ip_entry h ip)
           \<or> recent_connections (ip_entry h' ip) = rec"
  using assms
  by (auto simp: check_security_def check_limits_def Let_def ip_entry_def split: if_splits option.splits)

lemma filter_window:
  "prev \<le> now \<Longrightarrow> filter (\<lambda>t. now - t < d) (filter (\<lambda>t. prev - t < d) A) = filter (\<lambda>t. now - t < d) (A :: nat list)"
  by (induction A) auto

lemma admissions_window:
  assumes "cps_limit h = Some l" "recent_connections (ip_entry h ip) = filter (\<lambda>t. prev - t < one_second) A"
    "sorted (prev # ts)" "i < length (admissions ip h ts)"
  shows "length (filter (\<lambda>t. admissions ip h ts ! i - t < one_second) (A @ take (Suc i) (admissions ip h ts)))
          \<le> f64_as_usize l"
  using assms
proof (induction ts arbitrary: h A i prev)
  case (Cons now ts)
  obtain r h' where c: "check_security ip now h = (r, h')" by fastforce
  have l': "cps_limit h' = Some l" using check_security_frame [OF c] Cons.prems(1) by simp
  have le: "prev \<le> now" "sorted (now # ts)" "sorted (prev # ts)" using Cons.prems(3) by auto
  let ?rec = "filter (\<lambda>t. now - t < one_second) A"
  note w = filter_window [OF le(1), of one_second A]
  show ?case
  proof (cases r)
    case (Inl e)
    with check_security_recent(2) [OF c Cons.prems(1)] Cons.prems(2) w
    have "recent_connections (ip_entry h' ip) = filter (\<lambda>t. prev - t < one_second) A
       \<or> recent_connections (ip_entry h' ip) = ?rec" by simp
    with Cons.IH [OF l' _ le(3)] Cons.IH [OF l' _ le(2)] c Inl Cons.prems(4) show ?thesis by auto
  next
    case (Inr u)
    with check_security_recent(1) [OF c Cons.prems(1)] Cons.prems(2) w
    have r: "length ?rec < f64_as_usize l" "recent_connections (ip_entry h' ip) = ?rec @ [now]" by simp_all
    have adm: "admissions ip h (now # ts) = now # admissions ip h' ts" using c Inr by simp
    have os: "0 < one_second" by (simp add: one_second_def)
    have "recent_connections (ip_entry h' ip) = filter (\<lambda>t. now - t < one_second) (A @ [now])"
      using r(2) os by simp
    note IH = Cons.IH [OF l' this le(2)]
    show ?thesis
    proof (cases i)
      case 0
      with r(1) os show ?thesis unfolding adm by simp
    next
      case (Suc j)
      with IH [of j] Cons.prems(4) show ?thesis unfolding adm by simp
    qed
  qed
qed simp



section \<open>Blackhole mode\<close>

lemma pseudo_random_range_bounds:
  assumes "lo \<le> hi" "hi - lo + 1 \<noteq> 0"
  shows "\<exists>r. pseudo_random_range seed lo hi = Some r \<and> lo \<le> r \<and> r \<le> hi"
proof -
  let ?k = "(1664525 * seed + 1013904223) mod 2 ^ 32 :: u64"
  let ?w = "hi - lo + 1"
  have lh: "unat (hi - lo) = unat hi - unat lo" "unat lo \<le> unat hi"
    using assms(1) by (simp_all add: unat_sub word_le_nat_alt)
  have w: "unat ?w = unat (hi - lo) + 1"
    using assms(2) unatSuc [of "hi - lo"] by (simp add: add.commute)
  have m: "unat (?k mod ?w) \<le> unat (hi - lo)"
    using w by (simp add: unat_mod)
  have b: "unat lo + unat (?k mod ?w) < 2 ^ 64"
  proof -
    have "unat lo + unat (?k mod ?w) \<le> unat hi" using m lh by linarith
    also have "unat hi < 2 ^ 64" by simp
    finally show ?thesis .
  qed
  then have "unat (lo + ?k mod ?w) = unat lo + unat (?k mod ?w)" by (simp add: unat_plus_if_size word_size)
  then have "lo \<le> lo + ?k mod ?w" "lo + ?k mod ?w \<le> hi" using m lh by (simp_all add: word_le_nat_alt)
  with assms(2) show ?thesis by (simp add: pseudo_random_range_def Let_def)
qed

text \<open>
  A refused connection is hidden from the client: when connecting fails with a refusal or a
  reset, or with a text that mentions one, \<open>handle_stealth\<close> keeps the client for between 5 and 30
  seconds and then reports success; it never panics.
\<close>

theorem refused_connection_is_hidden:
  assumes "is_io_rejection e \<or> is_connection_error_rejection (io_text e)"
  shows "handle_stealth seed evs (Err e) = Some (Ok ())
    \<and> (\<exists>d. pseudo_random_range seed 5 30 = Some d \<and> 5 \<le> d \<and> d \<le> 30
         \<and> enter_blackhole_mode seed evs = Some (blackhole_loop (unat d * one_second) evs, Ok ()))"
proof -
  have "(5 :: u64) \<le> 30" "(30 :: u64) - 5 + 1 \<noteq> 0" by simp_all
  from pseudo_random_range_bounds [OF this, of seed] obtain d where
    "pseudo_random_range seed 5 30 = Some d" "5 \<le> d" "d \<le> 30" by blast
  with assms show ?thesis by (simp add: handle_stealth_def enter_blackhole_mode_def)
qed

theorem refused_connection_is_hidden_witness:
  "handle_stealth 42 [] (Err (IoError ConnectionRefused ''Connection refused'')) = Some (Ok ())"
  using refused_connection_is_hidden [of "IoError ConnectionRefused ''Connection refused''" 42 "[]"]
  by (simp add: is_io_rejection_def)

text \<open>
  The access list compares texts: an address is let through exactly when there is no list,
  the list has the address as it is printed, or it has one of the two texts \<open>0.0.0.0/0\<close> and
  \<open>::/0\<close>; a refusal changes nothing. Any other range, such as \<open>10.0.0.0/8\<close>, matches no address.
\<close>

theorem access_list_is_literal:
  "(acl_allows h ip \<longleftrightarrow>
      (case allow_ips h of None \<Rightarrow> True
       | Some ps \<Rightarrow> show_ip ip \<in> set ps \<or> ''0.0.0.0/0'' \<in> set ps \<or> ''::/0'' \<in> set ps))
   \<and> (\<not> acl_allows h ip \<longrightarrow>
       check_security ip now h = (Err (forwarding_failed (''IP '' @ show_ip ip @ '' not in allow list'')), h))
   \<and> \<not> acl_allows (StealthConnectionHandler_new addr src (Some [''10.0.0.0/8'']) mx cps) (ipv4_new 10 1 2 3)"
proof -
  have "show_ip (ipv4_new 10 1 2 3) = ''10.1.2.3''" by (simp add: eval_simps)
  then show ?thesis
    by (auto simp: acl_allows_def match_found_iff pattern_matches_def check_security_def
        StealthConnectionHandler_new_def split: option.splits)
qed

theorem access_list_is_literal_witness:
  "check_security (ipv4_new 10 1 2 3) 0
     (StealthConnectionHandler_new sample_peer None (Some [''10.0.0.0/8'']) None None)
   = (Err (forwarding_failed (''IP '' @ show_ip (ipv4_new 10 1 2 3) @ '' not in allow list'')),
      StealthConnectionHandler_new sample_peer None (Some [''10.0.0.0/8'']) None None)"
  using access_list_is_literal [of "StealthConnectionHandler_new sample_peer None (Some [''10.0.0.0/8'']) None None"
      "ipv4_new 10 1 2 3" 0 sample_peer None None None] by blast

end
