(* ===== verification/Stream_IO.thy ===== *)
theory Stream_IO
  imports Errors
begin

text \<open>
  Byte streams as the sources see them through \<open>tokio\<close>, and the interface of a self-delimiting
  byte format.

  A reader is the bytes the peer has sent and the error a read meets once they are used up
  (\<open>UnexpectedEof\<close> after an orderly close). A writer is the bytes accepted so far, the
  number of bytes after which writing fails, if it does, and the error a flush reports.
\<close>

section \<open>Readers and writers\<close>

record Reader =
  rd_data :: bytes
  rd_end :: IoError

record Writer =
  wr_data :: bytes
  wr_fail :: "(nat \<times> IoError) option"
  wr_flush :: "IoError option"

definition read_exact :: "nat \<Rightarrow> Reader \<Rightarrow> (IoError + bytes) \<times> Reader" where
  "read_exact n r =
     (if n \<le> length (rd_data r)
      then (Ok (take n (rd_data r)), r\<lparr>rd_data := drop n (rd_data r)\<rparr>)
      else (Err (rd_end r), r\<lparr>rd_data := []\<rparr>))"

definition write_all :: "bytes \<Rightarrow> Writer \<Rightarrow> (IoError + unit) \<times> Writer" where
  "write_all bs w =
     (case wr_fail w of
        None \<Rightarrow> (Ok (), w\<lparr>wr_data := wr_data w @ bs\<rparr>)
      | Some (k, e) \<Rightarrow>
          if length (wr_data w) + length bs \<le> k then (Ok (), w\<lparr>wr_data := wr_data w @ bs\<rparr>)
          else (Err e, w\<lparr>wr_data := wr_data w @ take (k - length (wr_data w)) bs\<rparr>))"

definition flush :: "Writer \<Rightarrow> (IoError + unit) \<times> Writer" where
  "flush w = (case wr_flush w of None \<Rightarrow> (Ok (), w) | Some e \<Rightarrow> (Err e, w))"

abbreviation healthy :: "Writer \<Rightarrow> bool" where
  "healthy w \<equiv> wr_fail w = None \<and> wr_flush w = None"

lemma read_exact_Ok [simp]:
  "n \<le> length (rd_data r) \<Longrightarrow>
   read_exact n r = (Ok (take n (rd_data r)), r\<lparr>rd_data := drop n (rd_data r)\<rparr>)"
  by (simp add: read_exact_def)

lemma read_exact_Err [simp]:
  "length (rd_data r) < n \<Longrightarrow> read_exact n r = (Err (rd_end r), r\<lparr>rd_data := []\<rparr>)"
  by (simp add: read_exact_def)

lemma write_all_healthy [simp]:
  "wr_fail w = None \<Longrightarrow> write_all bs w = (Ok (), w\<lparr>wr_data := wr_data w @ bs\<rparr>)"
  by (simp add: write_all_def)

lemma flush_healthy [simp]: "wr_flush w = None \<Longrightarrow> flush w = (Ok (), w)"
  by (simp add: flush_def)

section \<open>Self-delimiting formats\<close>

text \<open>Decoding a given number of messages one after the other.\<close>

fun decode_many :: "(bytes \<Rightarrow> ('m \<times> bytes) option) \<Rightarrow> nat \<Rightarrow> bytes \<Rightarrow> ('m list \<times> bytes) option" where
  "decode_many dec 0 bs = Some ([], bs)"
| "decode_many dec (Suc n) bs =
     Option.bind (dec bs) (\<lambda>(m, bs1). Option.bind (decode_many dec n bs1) (\<lambda>(ms, bs2). Some (m # ms, bs2)))"

text \<open>
  The contract of a wire format: a message that fits is decoded from the front of whatever
  follows it. Then formats are prefix free, and a sequence of messages is decoded to itself.
\<close>

locale wire_format =
  fixes encode :: "'m \<Rightarrow> bytes"
    and decode :: "bytes \<Rightarrow> ('m \<times> bytes) option"
    and fits :: "'m \<Rightarrow> bool"
  assumes decode_encode: "fits m \<Longrightarrow> decode (encode m @ rest) = Some (m, rest)"
begin

lemma prefix_free:
  assumes "fits m" "fits n" "encode m @ r = encode n @ s"
  shows "m = n \<and> r = s"
  using decode_encode [OF assms(1), of r] decode_encode [OF assms(2), of s]
  unfolding assms(3) by simp

lemma encode_inj: "fits m \<Longrightarrow> fits n \<Longrightarrow> encode m = encode n \<Longrightarrow> m = n"
  using prefix_free [of m n "[]" "[]"] by simp

lemma decode_sequence:
  "list_all fits ms \<Longrightarrow>
   decode_many decode (length ms) (concat (map encode ms) @ rest) = Some (ms, rest)"
  by (induction ms) (simp_all add: decode_encode)

lemma sequence_inj:
  assumes "list_all fits ms" "list_all fits ns" "length ms = length ns"
    and "concat (map encode ms) @ r = concat (map encode ns) @ s"
  shows "ms = ns \<and> r = s"
  using decode_sequence [OF assms(1), of r] decode_sequence [OF assms(2), of s]
  unfolding assms(3,4) by simp

end

end
