(* ===== verification/Copy_Loops.thy ===== *)
theory Copy_Loops
  imports Stream_IO "HOL-Library.Sublist"
begin

text \<open>
  The one-way copy loops of \<^verbatim>\<open>src/src/proxy/zero_copy.rs\<close>, \<^verbatim>\<open>adaptive_copy.rs\<close>,
  \<^verbatim>\<open>adaptive_stream.rs\<close> and \<^verbatim>\<open>high_perf.rs\<close>, and the two-way forwarding built from them.

  What a peer sends is a list of arrivals: data or an error, in the order in which reads meet
  them; the stream ends after the last one. A sink is a writer that also remembers how many of
  its bytes have been flushed. Byte counts are natural numbers: a run of the program cannot
  move the 2^64 bytes at which the counters would wrap.

  The contract of a copier is the locale \<open>copier\<close>; \<open>flushing_copier\<close> adds that nothing
  is left unflushed. The function \<open>tokio::io::copy\<close> is a parameter that satisfies the latter.
\<close>

section \<open>Sources and sinks\<close>

datatype Arrival = Data bytes | Failed IoError

text \<open>\<open>read\<close> with a buffer of \<open>b\<close> bytes. Zero bytes are the end of the stream.\<close>

fun read_some :: "nat \<Rightarrow> Arrival list \<Rightarrow> (IoError + bytes) \<times> Arrival list" where
  "read_some b [] = (Ok [], [])"
| "read_some b (Failed e # src) = (Err e, src)"
| "read_some b (Data d # src) =
     (if d = [] then read_some b src
      else (Ok (take b d), if length d \<le> b then src else Data (drop b d) # src))"

fun payload :: "Arrival list \<Rightarrow> bytes" where
  "payload [] = []"
| "payload (Failed e # src) = payload src"
| "payload (Data d # src) = d @ payload src"

fun arrival_ok :: "Arrival \<Rightarrow> bool" where
  "arrival_ok (Data d) = True"
| "arrival_ok (Failed e) = False"

abbreviation clean :: "Arrival list \<Rightarrow> bool" where "clean \<equiv> list_all arrival_ok"

text \<open>The measure of the loops: bytes and errors still to come.\<close>

fun arrival_size :: "Arrival \<Rightarrow> nat" where
  "arrival_size (Data d) = length d"
| "arrival_size (Failed e) = 1"

definition source_size :: "Arrival list \<Rightarrow> nat" where
  "source_size src = sum_list (map arrival_size src)"

record Sink =
  sk_writer :: Writer
  sk_flushed :: nat

definition sink_write :: "bytes \<Rightarrow> Sink \<Rightarrow> (IoError + unit) \<times> Sink" where
  "sink_write bs s = (let (r, w) = write_all bs (sk_writer s) in (r, s\<lparr>sk_writer := w\<rparr>))"

definition sink_flush :: "Sink \<Rightarrow> (IoError + unit) \<times> Sink" where
  "sink_flush s =
     (case flush (sk_writer s) of
        (Inl e, w) \<Rightarrow> (Err e, s\<lparr>sk_writer := w\<rparr>)
      | (Inr _, w) \<Rightarrow> (Ok (), \<lparr>sk_writer = w, sk_flushed = length (wr_data w)\<rparr>))"

abbreviation sk_data :: "Sink \<Rightarrow> bytes" where "sk_data s \<equiv> wr_data (sk_writer s)"
abbreviation sk_healthy :: "Sink \<Rightarrow> bool" where "sk_healthy s \<equiv> healthy (sk_writer s)"
abbreviation all_flushed :: "Sink \<Rightarrow> bool" where "all_flushed s \<equiv> sk_flushed s = length (sk_data s)"

lemma source_size_simps [simp]:
  "source_size [] = 0" "source_size (a # src) = arrival_size a + source_size src"
  by (simp_all add: source_size_def)

lemma read_some_Ok:
  "read_some b src = (Inr d, src') \<Longrightarrow>
     payload src = d @ payload src' \<and> length d \<le> b
     \<and> (if d = [] then 0 < b \<longrightarrow> src' = [] else source_size src' < source_size src)
     \<and> (clean src \<longrightarrow> clean src')"
  by (induction b src rule: read_some.induct) (auto split: if_splits)

lemma read_some_Err:
  "read_some b src = (Inl e, src') \<Longrightarrow>
     payload src' = payload src \<and> source_size src' < source_size src \<and> \<not> clean src"
  by (induction b src rule: read_some.induct) (auto split: if_splits)

lemma write_all_spec:
  "write_all bs w = (r, w') \<Longrightarrow>
     (\<exists>k. wr_data w' = wr_data w @ take k bs) \<and> (is_ok r \<longrightarrow> wr_data w' = wr_data w @ bs)
     \<and> wr_fail w' = wr_fail w \<and> wr_flush w' = wr_flush w \<and> (healthy w \<longrightarrow> is_ok r)"
  by (auto simp: write_all_def split: option.splits prod.splits if_splits intro: exI [of _ "length bs"])

lemma sink_write_spec:
  "sink_write bs s = (r, s') \<Longrightarrow>
     (\<exists>k. sk_data s' = sk_data s @ take k bs) \<and> (is_ok r \<longrightarrow> sk_data s' = sk_data s @ bs)
     \<and> sk_flushed s' = sk_flushed s \<and> (sk_healthy s \<longrightarrow> is_ok r \<and> sk_healthy s')"
  by (auto simp: sink_write_def split: prod.splits dest!: write_all_spec)

lemma sink_flush_spec:
  "sink_flush s = (r, s') \<Longrightarrow>
     sk_data s' = sk_data s \<and> (is_ok r \<longrightarrow> all_flushed s') \<and> (sk_healthy s \<longrightarrow> is_ok r \<and> sk_healthy s')"
  by (auto simp: sink_flush_def flush_def split: option.splits)

section \<open>The loop\<close>

text \<open>
  The loop the three files have in common. \<open>due\<close> decides about flushing from the bytes since the
  last flush and the bytes of this read; \<open>what\<close> is the text before the error of a read.
\<close>

function copy_loop ::
  "nat \<Rightarrow> (nat \<Rightarrow> nat \<Rightarrow> bool) \<Rightarrow> string \<Rightarrow> nat \<Rightarrow> nat \<Rightarrow> Arrival list \<Rightarrow> Sink
   \<Rightarrow> (AppError + nat) \<times> Arrival list \<times> Sink" where
  "copy_loop b due what tot last_flush src s =
     (case read_some b src of
        (Inl e, src1) \<Rightarrow>
          if io_kind e = WouldBlock then copy_loop b due what tot last_flush src1 s
          else (Err (Proxy (ForwardingFailed (what @ io_text e))), src1, s)
      | (Inr d, src1) \<Rightarrow>
          if d = [] then
            (if last_flush < tot then
               (case sink_flush s of
                  (Inl e, s1) \<Rightarrow> (Err (Io e), src1, s1)
                | (Inr _, s1) \<Rightarrow> (Ok tot, src1, s1))
             else (Ok tot, src1, s))
          else
            (case sink_write d s of
               (Inl e, s1) \<Rightarrow> (Err (Io e), src1, s1)
             | (Inr _, s1) \<Rightarrow>
                 (let tot' = tot + length d in
                  if due (tot' - last_flush) (length d) then
                    (case sink_flush s1 of
                       (Inl e, s2) \<Rightarrow> (Err (Io e), src1, s2)
                     | (Inr _, s2) \<Rightarrow> copy_loop b due what tot' tot' src1 s2)
                  else copy_loop b due what tot' last_flush src1 s1)))"
  by pat_completeness auto
termination
  by (relation "measure (\<lambda>(b, due, what, tot, last_flush, src, s). source_size src)")
     (auto dest!: sym [of "(_, _)" "read_some _ _"] read_some_Ok read_some_Err)

declare copy_loop.simps [simp del]

section \<open>The copy functions\<close>

datatype OS = Linux | MacOs | Windows | OtherOs

abbreviation KiB :: "nat \<Rightarrow> nat" where "KiB n \<equiv> n * 1024"
abbreviation MiB :: "nat \<Rightarrow> nat" where "MiB n \<equiv> n * 1024 * 1024"

subsection \<open>\<open>zero_copy.rs\<close>\<close>

definition bulk_copy_optimized :: "nat \<Rightarrow> Arrival list \<Rightarrow> Sink \<Rightarrow> (AppError + nat) \<times> Arrival list \<times> Sink" where
  "bulk_copy_optimized buffer_size src s =
     copy_loop buffer_size (\<lambda>since n. MiB 2 \<le> since \<or> n < buffer_size) ''Bulk copy error: '' 0 0 src s"

definition bulk_copy :: "Arrival list \<Rightarrow> Sink \<Rightarrow> (AppError + nat) \<times> Arrival list \<times> Sink" where
  "bulk_copy src s = bulk_copy_optimized (KiB 128) src s"

text \<open>
  Both directions of a connection, each in a task of its own; a direction that fails counts as
  zero bytes. The first two arguments are the outcomes of \<open>set_nodelay\<close>.
\<close>

fun bytes_or_zero :: "'e + nat \<Rightarrow> nat" where
  "bytes_or_zero (Inr n) = n"
| "bytes_or_zero (Inl e) = 0"

definition both_ways ::
  "(Arrival list \<Rightarrow> Sink \<Rightarrow> ('e + nat) \<times> Arrival list \<times> Sink)
   \<Rightarrow> Arrival list \<Rightarrow> Sink \<Rightarrow> Arrival list \<Rightarrow> Sink \<Rightarrow> (nat \<times> nat) \<times> Sink \<times> Sink" where
  "both_ways copy client_in server_out server_in client_out =
     (let (r1, _, s1) = copy client_in server_out; (r2, _, s2) = copy server_in client_out
      in ((bytes_or_zero r1, bytes_or_zero r2), s1, s2))"

definition zero_copy_bidirectional ::
  "IoError option \<Rightarrow> IoError option \<Rightarrow> Arrival list \<Rightarrow> Sink \<Rightarrow> Arrival list \<Rightarrow> Sink
   \<Rightarrow> (AppError + nat \<times> nat) \<times> Sink \<times> Sink" where
  "zero_copy_bidirectional client_nodelay server_nodelay client_in server_out server_in client_out =
     (case client_nodelay of
        Some e \<Rightarrow> (Err (Io e), server_out, client_out)
      | None \<Rightarrow>
          (case server_nodelay of
             Some e \<Rightarrow> (Err (Io e), server_out, client_out)
           | None \<Rightarrow>
               apfst Ok (both_ways (bulk_copy_optimized (KiB 256)) client_in server_out server_in client_out)))"

subsection \<open>\<open>adaptive_copy.rs\<close>\<close>

definition optimal_buffer_size :: "OS \<Rightarrow> nat \<Rightarrow> nat" where
  "optimal_buffer_size os data_size =
     (if data_size < KiB 256 then KiB 8
      else (case os of Linux \<Rightarrow> KiB 128 | MacOs \<Rightarrow> KiB 256 | Windows \<Rightarrow> KiB 256 | OtherOs \<Rightarrow> KiB 128))"

definition adaptive_bulk_copy :: "nat \<Rightarrow> Arrival list \<Rightarrow> Sink \<Rightarrow> (AppError + nat) \<times> Arrival list \<times> Sink" where
  "adaptive_bulk_copy buffer_size src s =
     (let flush_interval = (if KiB 256 \<le> buffer_size then MiB 4 else MiB 2) in
      copy_loop buffer_size (\<lambda>since n. flush_interval \<le> since \<or> n < buffer_size) ''Copy error: '' 0 0 src s)"

text \<open>\<open>io_copy\<close> is \<open>tokio::io::copy\<close>.\<close>

definition adaptive_copy ::
  "(Arrival list \<Rightarrow> Sink \<Rightarrow> (IoError + nat) \<times> Arrival list \<times> Sink) \<Rightarrow> OS \<Rightarrow> nat
   \<Rightarrow> Arrival list \<Rightarrow> Sink \<Rightarrow> (AppError + nat) \<times> Arrival list \<times> Sink" where
  "adaptive_copy io_copy os estimated_size src s =
     (let buffer_size = optimal_buffer_size os estimated_size in
      if buffer_size = KiB 8 then
        (case io_copy src s of
           (Inl e, src1, s1) \<Rightarrow> (Err (Io e), src1, s1)
         | (Inr n, src1, s1) \<Rightarrow>
             (case sink_flush s1 of
                (Inl e, s2) \<Rightarrow> (Err (Io e), src1, s2)
              | (Inr _, s2) \<Rightarrow> (Ok n, src1, s2)))
      else adaptive_bulk_copy buffer_size src s)"

definition format_size :: "nat \<Rightarrow> string" where
  "format_size n =
     (if MiB 1 \<le> n then nat_to_string (n div MiB 1) @ ''MB''
      else if KiB 1 \<le> n then nat_to_string (n div KiB 1) @ ''KB''
      else nat_to_string n @ ''B'')"

subsection \<open>\<open>adaptive_stream.rs\<close>\<close>

abbreviation INITIAL_SAMPLE_SIZE :: nat where "INITIAL_SAMPLE_SIZE \<equiv> KiB 32"
abbreviation MIN_BUFFER_SIZE :: nat where "MIN_BUFFER_SIZE \<equiv> KiB 8"

text \<open>The sample read so far, and whether the stream has ended.\<close>

function read_initial_sample :: "bytes \<Rightarrow> Arrival list \<Rightarrow> (AppError + bytes \<times> bool) \<times> Arrival list" where
  "read_initial_sample acc src =
     (case read_some (INITIAL_SAMPLE_SIZE - length acc) src of
        (Inl e, src1) \<Rightarrow>
          if io_kind e = WouldBlock then read_initial_sample acc src1
          else (Err (Proxy (ForwardingFailed (''Read error: '' @ io_text e))), src1)
      | (Inr d, src1) \<Rightarrow>
          if d = [] then (Ok (acc, True), src1)
          else if INITIAL_SAMPLE_SIZE \<le> length (acc @ d) then (Ok (acc @ d, False), src1)
          else read_initial_sample (acc @ d) src1)"
  by pat_completeness auto
termination
  by (relation "measure (\<lambda>(acc, src). source_size src)")
     (auto dest!: sym [of "(_, _)" "read_some _ _"] read_some_Ok read_some_Err)

declare read_initial_sample.simps [simp del]

datatype TransferStrategy =
    SmallPacket nat
  | BurstTraffic nat nat
  | ContinuousStream nat nat

definition analyze_traffic_pattern :: "OS \<Rightarrow> nat \<Rightarrow> bool \<Rightarrow> TransferStrategy" where
  "analyze_traffic_pattern os sample_size is_eos =
     (if is_eos then SmallPacket MIN_BUFFER_SIZE
      else
        (case os of
           Linux \<Rightarrow>
             if sample_size < KiB 16 then SmallPacket (KiB 16)
             else if sample_size < KiB 64 then BurstTraffic (KiB 64) (KiB 128)
             else ContinuousStream (KiB 128) (MiB 4)
         | _ \<Rightarrow>
             if sample_size < KiB 16 then SmallPacket (KiB 16)
             else if sample_size < KiB 64 then BurstTraffic (KiB 128) (KiB 256)
             else ContinuousStream (KiB 256) (MiB 4)))"

definition execute_adaptive_transfer ::
  "TransferStrategy \<Rightarrow> nat \<Rightarrow> Arrival list \<Rightarrow> Sink \<Rightarrow> (AppError + nat) \<times> Arrival list \<times> Sink" where
  "execute_adaptive_transfer strategy tot src s =
     (let (buffer_size, flush_interval, should_flush_frequently) =
            (case strategy of
               SmallPacket b \<Rightarrow> (b, b, True)
             | BurstTraffic b f \<Rightarrow> (b, f, True)
             | ContinuousStream b f \<Rightarrow> (b, f, False))
      in copy_loop buffer_size
           (\<lambda>since n. if should_flush_frequently then flush_interval \<le> since \<or> n < buffer_size
                      else flush_interval \<le> since)
           ''Transfer error: '' tot tot src s)"

definition adaptive_stream_copy ::
  "OS \<Rightarrow> Arrival list \<Rightarrow> Sink \<Rightarrow> (AppError + nat) \<times> Arrival list \<times> Sink" where
  "adaptive_stream_copy os src s =
     (case read_initial_sample [] src of
        (Inl e, src1) \<Rightarrow> (Err e, src1, s)
      | (Inr (sample, is_eos), src1) \<Rightarrow>
          if is_eos then
            (case sink_write sample s of
               (Inl e, s1) \<Rightarrow> (Err (Io e), src1, s1)
             | (Inr _, s1) \<Rightarrow>
                 (case sink_flush s1 of
                    (Inl e, s2) \<Rightarrow> (Err (Io e), src1, s2)
                  | (Inr _, s2) \<Rightarrow> (Ok (length sample), src1, s2)))
          else
            (case sink_write sample s of
               (Inl e, s1) \<Rightarrow> (Err (Io e), src1, s1)
             | (Inr _, s1) \<Rightarrow>
                 execute_adaptive_transfer (analyze_traffic_pattern os (length sample) is_eos)
                   (length sample) src1 s1))"

text \<open>The text of an error that is written in Chinese in the source, as UTF-8 bytes.\<close>

definition tcp_small_text :: string where
  "tcp_small_text = ''TcpStream '' @
     map char_of [0xE5, 0xB0, 0x8F, 0xE6, 0x95, 0xB0, 0xE6, 0x8D, 0xAE, 0xE6, 0xB5, 0x81, 0xE9, 0x9C, 0x80,
       0xE8, 0xA6, 0x81, 0xE5, 0x8D, 0x95, 0xE7, 0x8B, 0xAC, 0xE5, 0xA4, 0x84, 0xE7, 0x90, 0x86 :: nat]"

text \<open>On Linux, for sockets; \<open>splice_fn\<close> is \<open>splice_adaptive\<close>, given the size of the sample.\<close>

definition adaptive_tcp_stream_copy ::
  "(nat \<Rightarrow> Arrival list \<Rightarrow> Sink \<Rightarrow> (AppError + nat) \<times> Arrival list \<times> Sink)
   \<Rightarrow> Arrival list \<Rightarrow> Sink \<Rightarrow> (AppError + nat) \<times> Arrival list \<times> Sink" where
  "adaptive_tcp_stream_copy splice_fn src s =
     (case read_initial_sample [] src of
        (Inl e, src1) \<Rightarrow> (Err e, src1, s)
      | (Inr (sample, is_eos), src1) \<Rightarrow>
          (case sink_write sample s of
             (Inl e, s1) \<Rightarrow> (Err (Io e), src1, s1)
           | (Inr _, s1) \<Rightarrow>
               (case sink_flush s1 of
                  (Inl e, s2) \<Rightarrow> (Err (Io e), src1, s2)
                | (Inr _, s2) \<Rightarrow>
                    if is_eos then (Ok (length sample), src1, s2)
                    else if KiB 64 \<le> length sample then
                      (case splice_fn (length sample) src1 s2 of
                         (Inr n, rest) \<Rightarrow> (Ok (n + length sample), rest)
                       | (Inl e, rest) \<Rightarrow> (Err e, rest))
                    else
                      (Err (Proxy (ForwardingFailed tcp_small_text)), src1, s2))))"

subsection \<open>\<open>high_perf.rs\<close>\<close>

definition optimized_bidirectional ::
  "(Arrival list \<Rightarrow> Sink \<Rightarrow> (IoError + nat) \<times> Arrival list \<times> Sink)
   \<Rightarrow> Arrival list \<Rightarrow> Sink \<Rightarrow> Arrival list \<Rightarrow> Sink \<Rightarrow> (AppError + nat \<times> nat) \<times> Sink \<times> Sink" where
  "optimized_bidirectional io_copy client_in server_out server_in client_out =
     apfst Ok (both_ways io_copy client_in server_out server_in client_out)"

definition high_perf_adaptive_copy ::
  "(Arrival list \<Rightarrow> Sink \<Rightarrow> (IoError + nat) \<times> Arrival list \<times> Sink)
   \<Rightarrow> Arrival list \<Rightarrow> Sink \<Rightarrow> Arrival list \<Rightarrow> Sink \<Rightarrow> (AppError + nat \<times> nat) \<times> Sink \<times> Sink" where
  "high_perf_adaptive_copy io_copy client_in server_out server_in client_out =
     optimized_bidirectional io_copy client_in server_out server_in client_out"

text \<open>One direction of \<open>buffered_bidirectional\<close>: every error just ends the loop.\<close>

function buffered_loop :: "nat \<Rightarrow> nat \<Rightarrow> Arrival list \<Rightarrow> Sink \<Rightarrow> nat \<times> Arrival list \<times> Sink" where
  "buffered_loop b tot src s =
     (case read_some b src of
        (Inl e, src1) \<Rightarrow> (tot, src1, s)
      | (Inr d, src1) \<Rightarrow>
          if d = [] then (tot, src1, s)
          else
            (case sink_write d s of
               (Inl e, s1) \<Rightarrow> (tot, src1, s1)
             | (Inr _, s1) \<Rightarrow> buffered_loop b (tot + length d) src1 s1))"
  by pat_completeness auto
termination
  by (relation "measure (\<lambda>(b, tot, src, s). source_size src)")
     (auto dest!: sym [of "(_, _)" "read_some _ _"] read_some_Ok read_some_Err)

declare buffered_loop.simps [simp del]

definition buffered_bidirectional ::
  "Arrival list \<Rightarrow> Sink \<Rightarrow> Arrival list \<Rightarrow> Sink \<Rightarrow> (AppError + nat \<times> nat) \<times> Sink \<times> Sink" where
  "buffered_bidirectional client_in server_out server_in client_out =
     (let (n1, _, s1) = buffered_loop (KiB 64) 0 client_in server_out;
          (n2, _, s2) = buffered_loop (KiB 64) 0 server_in client_out
      in (Ok (n1, n2), s1, s2))"

section \<open>The contract of a copier\<close>

text \<open>
  Whatever happens, a copier appends a prefix of what arrives: no byte is invented, dropped in
  between or reordered. When it reports success, it has appended all of it and reports the
  length, and it does succeed when neither side fails.
\<close>

locale copier =
  fixes copy :: "Arrival list \<Rightarrow> Sink \<Rightarrow> ('e + nat) \<times> Arrival list \<times> Sink"
  assumes copy_prefix:
      "copy src s = (r, src', s') \<Longrightarrow> \<exists>moved. sk_data s' = sk_data s @ moved \<and> prefix moved (payload src)"
    and copy_all:
      "copy src s = (Inr n, src', s') \<Longrightarrow> sk_data s' = sk_data s @ payload src \<and> n = length (payload src)"
    and copy_healthy: "copy src s = (r, src', s') \<Longrightarrow> sk_healthy s \<Longrightarrow> sk_healthy s'"
    and copy_returns: "clean src \<Longrightarrow> sk_healthy s \<Longrightarrow> is_ok (fst (copy src s))"
begin

lemma delivers:
  assumes "clean src" "sk_healthy s"
  obtains src' s' where "copy src s = (Inr (length (payload src)), src', s')" "sk_data s' = sk_data s @ payload src"
proof -
  obtain r src' s' where c: "copy src s = (r, src', s')" by (metis prod_cases3)
  with copy_returns [OF assms] obtain n where "r = Inr n" by (cases r) auto
  with c copy_all that show thesis by blast
qed

text \<open>How the bytes are cut into arrivals makes no difference.\<close>

lemma chunking_irrelevant:
  assumes "clean src1" "clean src2" "payload src1 = payload src2" "sk_healthy s"
  shows "fst (copy src1 s) = fst (copy src2 s) \<and> sk_data (snd (snd (copy src1 s))) = sk_data (snd (snd (copy src2 s)))"
proof -
  obtain s1 t1 where "copy src1 s = (Inr (length (payload src1)), s1, t1)" "sk_data t1 = sk_data s @ payload src1"
    by (rule delivers [OF assms(1,4)])
  moreover obtain s2 t2 where "copy src2 s = (Inr (length (payload src2)), s2, t2)" "sk_data t2 = sk_data s @ payload src2"
    by (rule delivers [OF assms(2,4)])
  ultimately show ?thesis using assms(3) by simp
qed

lemma both_ways_delivers:
  assumes "clean ci" "sk_healthy so" "clean si" "sk_healthy co"
  shows "\<exists>so' co'. both_ways copy ci so si co = ((length (payload ci), length (payload si)), so', co')
     \<and> sk_data so' = sk_data so @ payload ci \<and> sk_data co' = sk_data co @ payload si"
proof -
  obtain x1 s1 where "copy ci so = (Inr (length (payload ci)), x1, s1)" "sk_data s1 = sk_data so @ payload ci"
    by (rule delivers [OF assms(1,2)])
  moreover obtain x2 s2 where "copy si co = (Inr (length (payload si)), x2, s2)" "sk_data s2 = sk_data co @ payload si"
    by (rule delivers [OF assms(3,4)])
  ultimately show ?thesis by (simp add: both_ways_def)
qed

end

locale flushing_copier = copier +
  assumes copy_flushed: "copy src s = (Inr n, src', s') \<Longrightarrow> all_flushed s \<Longrightarrow> all_flushed s'"

section \<open>The loop meets the contract\<close>

text \<open>What a run appends, whether it returns, and what it leaves unflushed.\<close>

definition loop_post :: "nat \<Rightarrow> nat \<Rightarrow> Arrival list \<Rightarrow> Sink \<Rightarrow> 'e + nat \<Rightarrow> Sink \<Rightarrow> bool" where
  "loop_post tot lf src s r s' \<longleftrightarrow>
     (\<exists>moved. sk_data s' = sk_data s @ moved \<and> prefix moved (payload src)
        \<and> (\<forall>n. r = Inr n \<longrightarrow> moved = payload src \<and> n = tot + length moved))
     \<and> (clean src \<and> sk_healthy s \<longrightarrow> is_ok r) \<and> (sk_healthy s \<longrightarrow> sk_healthy s')
     \<and> (lf \<le> tot \<and> (lf = tot \<longrightarrow> all_flushed s) \<and> is_ok r \<longrightarrow> all_flushed s')"

lemma loop_post_write_failed:
  "sink_write d s = (Inl e, s') \<Longrightarrow> payload src = d @ rest \<Longrightarrow> loop_post tot lf src s (Inl x) s'"
proof -
  assume w: "sink_write d s = (Inl e, s')" and p: "payload src = d @ rest"
  have "prefix (take k d) (d @ rest)" for k by (rule prefix_prefix) (rule take_is_prefix)
  with sink_write_spec [OF w] p show ?thesis by (auto simp: loop_post_def)
qed

lemma loop_post_flush_failed:
  "sink_flush s = (Inl e, s') \<Longrightarrow> sk_data s = sk_data s0 @ d \<Longrightarrow> (sk_healthy s0 \<longrightarrow> sk_healthy s) \<Longrightarrow>
   payload src = d @ rest \<Longrightarrow> loop_post tot lf src s0 (Inl x) s'"
  using sink_flush_spec [of s "Inl e" s'] by (auto simp: loop_post_def)

text \<open>One round that moves \<open>d\<close> and continues from \<open>s1\<close> after it.\<close>

lemma loop_post_step:
  assumes post: "loop_post (tot + length d) lf' src1 s1 r s'"
    and w: "sk_data s1 = sk_data s @ d" "sk_healthy s \<longrightarrow> sk_healthy s1"
    and src: "payload src = d @ payload src1" "clean src \<longrightarrow> clean src1"
    and lf: "lf \<le> tot \<longrightarrow> lf' \<le> tot + length d \<and> (lf' = tot + length d \<longrightarrow> all_flushed s1)"
  shows "loop_post tot lf src s r s'"
proof -
  note p = post [unfolded loop_post_def]
  from conjunct1 [OF p] obtain moved where m: "sk_data s' = sk_data s1 @ moved" "prefix moved (payload src1)"
    "\<forall>n. r = Inr n \<longrightarrow> moved = payload src1 \<and> n = tot + length d + length moved" by (elim exE conjE)
  have "sk_data s' = sk_data s @ (d @ moved)" using m(1) w(1) by simp
  moreover have "prefix (d @ moved) (payload src)" using m(2) src(1) by simp
  moreover have "\<forall>n. r = Inr n \<longrightarrow> d @ moved = payload src \<and> n = tot + length (d @ moved)"
  proof (intro allI impI)
    fix n assume "r = Inr n"
    with m(3) have "moved = payload src1 \<and> n = tot + length d + length moved" by blast
    with src(1) show "d @ moved = payload src \<and> n = tot + length (d @ moved)" by simp
  qed
  ultimately show ?thesis
    unfolding loop_post_def using conjunct2 [OF p] w(2) src(2) lf by (intro conjI exI [of _ "d @ moved"]) argo+
qed

text \<open>The last round, and a round that moves \<open>d\<close>; \<open>next\<close> stands for the rounds after it.\<close>

lemma loop_post_last:
  assumes "payload src = []"
    and "(if lf < tot then (case sink_flush s of (Inl e, s1) \<Rightarrow> (Err (Io e), src1, s1) | (Inr _, s1) \<Rightarrow> (Ok tot, src1, s1))
          else (Ok tot, src1, s)) = (r, src', s')"
  shows "loop_post tot lf src s r s'"
proof (cases "lf < tot")
  case False
  with assms show ?thesis by (auto simp: loop_post_def)
next
  case True
  obtain q s1 where f: "sink_flush s = (q, s1)" by fastforce
  with assms True sink_flush_spec [OF f] show ?thesis by (cases q) (auto simp: loop_post_def)
qed

lemma loop_post_moved:
  assumes ws: "sk_data s1 = sk_data s @ d" "sk_healthy s \<longrightarrow> sk_healthy s1"
    and d: "payload src = d @ payload src1" "clean src \<longrightarrow> clean src1" "d \<noteq> []"
    and run: "(if due then (case sink_flush s1 of (Inl e, s2) \<Rightarrow> (Err (Io e), src1, s2) | (Inr _, s2) \<Rightarrow> next (tot + length d) s2)
          else next lf s1) = (r, src', s')"
    and IH: "\<And>v s2. due \<Longrightarrow> sink_flush s1 = (Inr v, s2) \<Longrightarrow> next (tot + length d) s2 = (r, src', s')
          \<Longrightarrow> loop_post (tot + length d) (tot + length d) src1 s2 r s'"
      "\<not> due \<Longrightarrow> next lf s1 = (r, src', s') \<Longrightarrow> loop_post (tot + length d) lf src1 s1 r s'"
  shows "loop_post tot lf src s r s'"
proof (cases due)
  case False
  with run IH(2) have "loop_post (tot + length d) lf src1 s1 r s'" by simp
  then show ?thesis by (rule loop_post_step [OF _ ws]) (use d in auto)
next
  case True
  obtain q s2 where f: "sink_flush s1 = (q, s2)" by fastforce
  note fs = sink_flush_spec [OF f]
  show ?thesis
  proof (cases q)
    case (Inl e)
    with run True f have "r = Inl (Io e)" "s' = s2" by auto
    with loop_post_flush_failed [OF f [unfolded Inl] ws, of src "payload src1"] d show ?thesis by simp
  next
    case (Inr v)
    with run True f IH(1) have p: "loop_post (tot + length d) (tot + length d) src1 s2 r s'" by simp
    have "sk_data s2 = sk_data s @ d" "sk_healthy s \<longrightarrow> sk_healthy s2" using ws fs by auto
    then show ?thesis by (rule loop_post_step [OF p]) (use d fs Inr in auto)
  qed
qed

lemma copy_loop_post:
  assumes "0 < b"
  shows "copy_loop b due what tot lf src s = (r, src', s') \<Longrightarrow> loop_post tot lf src s r s'"
  using assms
proof (induction b due what tot lf src s arbitrary: r src' s' rule: copy_loop.induct)
  case (1 b due what tot lf src s)
  obtain q src1 where rd: "read_some b src = (q, src1)" by fastforce
  note run = "1.prems"(1) [unfolded copy_loop.simps [of b due what tot lf src s] rd prod.case]
  show ?case
  proof (cases q)
    case (Inl e)
    note e = read_some_Err [OF rd [unfolded Inl]]
    show ?thesis
    proof (cases "io_kind e = WouldBlock")
      case True
      with run Inl "1.IH"(1) [OF rd [symmetric] Inl True _ "1.prems"(2)] have "loop_post tot lf src1 s r s'" by simp
      with e show ?thesis by (auto simp: loop_post_def)
    next
      case False
      with run Inl e show ?thesis by (auto simp: loop_post_def)
    qed
  next
    case (Inr d)
    note d = read_some_Ok [OF rd [unfolded Inr]]
    show ?thesis
    proof (cases "d = []")
      case True
      with run Inr d "1.prems"(2) show ?thesis
        by (intro loop_post_last [where ?src1.0 = src1 and src' = src']) simp_all
    next
      case ne: False
      obtain q2 s1 where w: "sink_write d s = (q2, s1)" by fastforce
      show ?thesis
      proof (cases q2)
        case (Inl e)
        with run Inr ne w have "r = Inl (Io e)" "s' = s1" by auto
        with loop_post_write_failed [OF w [unfolded Inl], of src "payload src1"] d show ?thesis by simp
      next
        case ok: (Inr u)
        let ?next = "\<lambda>lf s. copy_loop b due what (tot + length d) lf src1 s"
        note ih = "1.IH"(2,3) [OF rd [symmetric] Inr ne w [symmetric] ok refl]
        show ?thesis
          by (rule loop_post_moved [where ?next = ?next and due = "due (tot + length d - lf) (length d)" and ?s1.0 = s1])
            (use run Inr ne w ok d sink_write_spec [OF w] ih "1.prems"(2) in \<open>auto simp: Let_def\<close>)
      qed
    qed
  qed
qed

text \<open>A copier that may leave bytes unflushed: \<open>loop_post 0 1\<close> promises all but the flush.\<close>

lemma unflushed_copier:
  assumes "\<And>src s r src' s'. copy src s = (r, src', s') \<Longrightarrow> loop_post 0 1 src s r s'"
  shows "copier copy"
proof
  fix src s r src' s' n
  show "\<exists>moved. sk_data s' = sk_data s @ moved \<and> prefix moved (payload src)" if "copy src s = (r, src', s')"
    using assms [OF that] unfolding loop_post_def by blast
  show "sk_data s' = sk_data s @ payload src \<and> n = length (payload src)" if "copy src s = (Inr n, src', s')"
    using assms [OF that] unfolding loop_post_def by auto
  show "sk_healthy s'" if "copy src s = (r, src', s')" "sk_healthy s"
    using assms [OF that(1)] that(2) unfolding loop_post_def by blast
  show "is_ok (fst (copy src s))" if "clean src" "sk_healthy s"
    using assms [of src s "fst (copy src s)" "fst (snd (copy src s))" "snd (snd (copy src s))"] that
    unfolding loop_post_def by simp
qed

text \<open>A loop that starts with nothing copied and nothing unflushed gives a flushing copier.\<close>

lemma loop_post_copier:
  assumes post: "\<And>src s r src' s'. copy src s = (r, src', s') \<Longrightarrow> loop_post 0 0 src s r s'"
  shows "flushing_copier copy"
proof (rule flushing_copier.intro)
  show "copier copy" by (rule unflushed_copier, drule post) (simp add: loop_post_def)
  show "flushing_copier_axioms copy"
    by (rule flushing_copier_axioms.intro, drule post) (simp add: loop_post_def)
qed

lemma bulk_copy_optimized_copier: "0 < b \<Longrightarrow> flushing_copier (bulk_copy_optimized b)"
  by (rule loop_post_copier) (auto simp: bulk_copy_optimized_def dest: copy_loop_post)

lemma adaptive_bulk_copy_copier: "0 < b \<Longrightarrow> flushing_copier (adaptive_bulk_copy b)"
  by (rule loop_post_copier) (auto simp: adaptive_bulk_copy_def Let_def dest: copy_loop_post)

interpretation bulk: flushing_copier bulk_copy
  using bulk_copy_optimized_copier [of "KiB 128"] by (simp add: bulk_copy_def [abs_def])

interpretation bulk256: flushing_copier "bulk_copy_optimized (KiB 256)"
  by (rule bulk_copy_optimized_copier) simp

lemma optimal_buffer_size_pos: "0 < optimal_buffer_size os n"
  by (auto simp: optimal_buffer_size_def split: OS.splits)

text \<open>With \<open>io_copy\<close> a flushing copier, \<open>adaptive_copy\<close> is one, for every system and estimate.\<close>

lemma adaptive_copy_copier:
  assumes "flushing_copier io_copy"
  shows "flushing_copier (adaptive_copy io_copy os est)"
proof (cases "optimal_buffer_size os est = KiB 8")
  case False
  then have "adaptive_copy io_copy os est = adaptive_bulk_copy (optimal_buffer_size os est)"
    by (intro ext) (simp add: adaptive_copy_def Let_def)
  with adaptive_bulk_copy_copier [OF optimal_buffer_size_pos] show ?thesis by simp
next
  case True
  show ?thesis
  proof (rule loop_post_copier)
    fix src s r src' s'
    assume run: "adaptive_copy io_copy os est src s = (r, src', s')"
    obtain q src1 s1 where c: "io_copy src s = (q, src1, s1)" by (metis prod_cases3)
    obtain q2 s2 where f: "sink_flush s1 = (q2, s2)" by fastforce
    note io = copier.copy_prefix [OF flushing_copier.axioms(1) [OF assms] c]
      copier.copy_healthy [OF flushing_copier.axioms(1) [OF assms] c]
      copier.copy_returns [OF flushing_copier.axioms(1) [OF assms], of src s, unfolded c]
    note fs = sink_flush_spec [OF f]
    show "loop_post 0 0 src s r s'"
    proof (cases q)
      case (Inl e)
      with run True c have "r = Inl (Io e)" "s' = s1" by (auto simp: adaptive_copy_def)
      moreover have "\<not> (clean src \<and> sk_healthy s)" using io(3) Inl by (metis fst_conv is_ok.simps(1))
      ultimately show ?thesis using io(1,2) unfolding loop_post_def by auto
    next
      case (Inr n)
      from copier.copy_all [OF flushing_copier.axioms(1) [OF assms] c [unfolded Inr]]
      have d: "sk_data s1 = sk_data s @ payload src" "n = length (payload src)" by auto
      from Inr run True c f have "s' = s2" "r = (case q2 of Inl e \<Rightarrow> Inl (Io e) | Inr _ \<Rightarrow> Inr n)"
        by (auto simp: adaptive_copy_def split: sum.splits)
      moreover have "sk_healthy s \<longrightarrow> is_ok q2 \<and> sk_healthy s2" using fs io(2) by blast
      ultimately show ?thesis using d fs unfolding loop_post_def by (cases q2) auto
    qed
  qed
qed

section \<open>The sampling copier\<close>

lemma read_initial_sample_spec:
  "length acc < INITIAL_SAMPLE_SIZE \<Longrightarrow> read_initial_sample acc src = (r, src') \<Longrightarrow>
   (case r of
      Inr (sample, is_eos) \<Rightarrow>
        (\<exists>d. sample = acc @ d \<and> payload src = d @ payload src') \<and> length sample \<le> INITIAL_SAMPLE_SIZE
        \<and> (if is_eos then src' = [] \<and> length sample < INITIAL_SAMPLE_SIZE else length sample = INITIAL_SAMPLE_SIZE) \<and> (clean src \<longrightarrow> clean src')
    | Inl e \<Rightarrow> \<not> clean src)"
proof (induction acc src arbitrary: r src' rule: read_initial_sample.induct)
  case (1 acc src)
  obtain q src1 where rd: "read_some (INITIAL_SAMPLE_SIZE - length acc) src = (q, src1)" by fastforce
  note run = "1.prems"(2) [unfolded read_initial_sample.simps [of acc src] rd prod.case]
  show ?case
  proof (cases q)
    case (Inl e)
    note e = read_some_Err [OF rd [unfolded Inl]]
    show ?thesis
    proof (cases "io_kind e = WouldBlock")
      case True
      with run Inl have "read_initial_sample acc src1 = (r, src')" by simp
      from "1.IH"(1) [OF rd [symmetric] Inl True "1.prems"(1) this] e show ?thesis
        by (auto split: sum.splits)
    next
      case False
      with run Inl e show ?thesis by auto
    qed
  next
    case (Inr d)
    note d = read_some_Ok [OF rd [unfolded Inr]]
    consider "d = []" | "d \<noteq> []" "INITIAL_SAMPLE_SIZE \<le> length (acc @ d)"
      | "d \<noteq> []" "length (acc @ d) < INITIAL_SAMPLE_SIZE" by linarith
    then show ?thesis
    proof cases
      case 3
      with run Inr have c: "read_initial_sample (acc @ d) src1 = (r, src')" by simp
      from 3 have "\<not> INITIAL_SAMPLE_SIZE \<le> length (acc @ d)" by simp
      from "1.IH"(2) [OF rd [symmetric] Inr 3(1) this 3(2) c] d show ?thesis
        by (auto split: sum.splits prod.splits)
    qed (use run Inr d "1.prems"(1) in auto)
  qed
qed

lemma analyze_full_sample:
  "\<exists>b f. 0 < b \<and> analyze_traffic_pattern os INITIAL_SAMPLE_SIZE False = BurstTraffic b f"
  by (cases os) (simp_all add: analyze_traffic_pattern_def)

lemma execute_post:
  assumes "execute_adaptive_transfer (BurstTraffic b f) tot src s = (r, src', s')" "0 < b"
  shows "loop_post tot tot src s r s'"
  using copy_loop_post [OF assms(2), of "\<lambda>since n. f \<le> since \<or> n < b" "''Transfer error: ''" tot tot src s r src' s'] assms(1)
  by (simp add: execute_adaptive_transfer_def)

lemma append_loop_post:
  assumes "loop_post (length d) (length d) src1 s1 r s'" "sk_data s1 = sk_data s @ d"
    "sk_healthy s \<longrightarrow> sk_healthy s1" "payload src = d @ payload src1" "clean src \<longrightarrow> clean src1"
  shows "loop_post 0 1 src s r s'"
  using loop_post_step [of 0 d "length d" src1 s1 r s' s src 1] assms by simp

lemma adaptive_stream_post:
  assumes run: "adaptive_stream_copy os src s = (r, src', s')"
  shows "loop_post 0 1 src s r s'"
proof -
  obtain q src1 where rd: "read_initial_sample [] src = (q, src1)" by fastforce
  note sp = read_initial_sample_spec [OF _ rd, simplified]
  show ?thesis
  proof (cases q)
    case (Inl e)
    with run rd sp show ?thesis by (auto simp: adaptive_stream_copy_def loop_post_def)
  next
    case (Inr se)
    obtain sample eos where se: "se = (sample, eos)" by fastforce
    with sp Inr have p: "payload src = sample @ payload src1" "clean src \<longrightarrow> clean src1" by auto
    obtain q2 s1 where w: "sink_write sample s = (q2, s1)" by fastforce
    note ws = sink_write_spec [OF w]
    show ?thesis
    proof (cases q2)
      case (Inl e)
      with run rd Inr se w have "r = Inl (Io e)" "s' = s1" by (auto simp: adaptive_stream_copy_def split: if_splits)
      with loop_post_write_failed [OF w [unfolded Inl] p(1)] show ?thesis by simp
    next
      case ok: (Inr u)
      with ws have ws: "sk_data s1 = sk_data s @ sample" "sk_healthy s \<longrightarrow> sk_healthy s1" by auto
      show ?thesis
      proof (cases eos)
        case True
        obtain q3 s2 where f: "sink_flush s1 = (q3, s2)" by fastforce
        note fs = sink_flush_spec [OF f]
        from sp Inr se True p have "payload src = sample" by simp
        with run rd Inr se True w ok f ws fs show ?thesis
          by (cases q3) (auto simp: adaptive_stream_copy_def loop_post_def)
      next
        case False
        with sp Inr se have len: "length sample = INITIAL_SAMPLE_SIZE" by simp
        obtain b f where bf: "0 < b" "analyze_traffic_pattern os INITIAL_SAMPLE_SIZE False = BurstTraffic b f"
          using analyze_full_sample by blast
        with run rd Inr se False w ok len
        have "execute_adaptive_transfer (BurstTraffic b f) (length sample) src1 s1 = (r, src', s')"
          by (simp add: adaptive_stream_copy_def)
        from append_loop_post [OF execute_post [OF this bf(1)] ws p] show ?thesis .
      qed
    qed
  qed
qed

interpretation sampling: copier "adaptive_stream_copy os" for os
  by (rule unflushed_copier) (rule adaptive_stream_post)

section \<open>Forwarding a connection\<close>

abbreviation fresh_sink :: Sink where
  "fresh_sink \<equiv> \<lparr>sk_writer = \<lparr>wr_data = [], wr_fail = None, wr_flush = None\<rparr>, sk_flushed = 0\<rparr>"

lemma both_ways_parts:
  "both_ways copy ci so si co = (n, so', co') \<Longrightarrow>
     \<exists>r1 x1 r2 x2. copy ci so = (r1, x1, so') \<and> copy si co = (r2, x2, co')
       \<and> n = (bytes_or_zero r1, bytes_or_zero r2)"
  by (auto simp: both_ways_def split: prod.splits)

text \<open>
  C14. Forwarding a connection in both directions never corrupts a stream: whatever arrives and
  whatever fails, each side has been sent a prefix of what the other side sent. When
  neither side fails, each side is sent everything, all of it is flushed, and the result is the
  two byte counts.
\<close>

theorem zero_copy_bidirectional_delivers:
  assumes run: "zero_copy_bidirectional nc ns ci so si co = (r, so', co')"
  shows "(\<exists>m1 m2. sk_data so' = sk_data so @ m1 \<and> prefix m1 (payload ci)
            \<and> sk_data co' = sk_data co @ m2 \<and> prefix m2 (payload si))
    \<and> (nc = None \<and> ns = None \<and> clean ci \<and> clean si \<and> sk_healthy so \<and> sk_healthy co
         \<and> all_flushed so \<and> all_flushed co \<longrightarrow>
       r = Ok (length (payload ci), length (payload si))
       \<and> sk_data so' = sk_data so @ payload ci \<and> sk_data co' = sk_data co @ payload si
       \<and> all_flushed so' \<and> all_flushed co')"
proof (cases "nc = None \<and> ns = None")
  case False
  with run have "so' = so" "co' = co" by (auto simp: zero_copy_bidirectional_def split: option.splits)
  with False show ?thesis by (auto intro: exI [of _ "[]"])
next
  case True
  then obtain n where bw: "both_ways (bulk_copy_optimized (KiB 256)) ci so si co = (n, so', co')" and r: "r = Ok n"
    using run by (auto simp: zero_copy_bidirectional_def apfst_def map_prod_def split: prod.splits)
  obtain r1 x1 r2 x2 where c: "bulk_copy_optimized (KiB 256) ci so = (r1, x1, so')"
    "bulk_copy_optimized (KiB 256) si co = (r2, x2, co')" using both_ways_parts [OF bw] by blast
  have "all_flushed so' \<and> all_flushed co'"
    if "clean ci" "clean si" "sk_healthy so" "sk_healthy co" "all_flushed so" "all_flushed co"
    using bulk256.copy_returns [OF that(1,3)] bulk256.copy_returns [OF that(2,4)] c
      bulk256.copy_flushed [of ci so _ x1 so'] bulk256.copy_flushed [of si co _ x2 co'] that(5,6)
    by (cases r1; cases r2) auto
  with bulk256.copy_prefix [OF c(1)] bulk256.copy_prefix [OF c(2)]
    bulk256.both_ways_delivers [of ci so si co] bw r
  show ?thesis by fastforce
qed

theorem zero_copy_bidirectional_delivers_witness:
  "\<exists>so' co'. zero_copy_bidirectional None None [Data [1, 2], Data [3]] fresh_sink [Data [9]] fresh_sink
     = (Ok (3, 1), so', co') \<and> sk_data so' = [1, 2, 3] \<and> sk_data co' = [9] \<and> sk_flushed so' = 3"
proof -
  obtain r so' co' where z: "zero_copy_bidirectional None None [Data [1, 2], Data [3]] fresh_sink [Data [9]] fresh_sink
     = (r, so', co')" by (metis prod_cases3)
  from zero_copy_bidirectional_delivers [OF z] z show ?thesis by simp
qed

text \<open>
  The buffer size is an optimisation only: when neither side fails, \<open>adaptive_copy\<close> gives the
  same result and appends the same bytes on every system and for every estimate of the size, as
  does the copy of the library, and nothing is left unflushed.
\<close>

theorem adaptive_copy_same_result:
  assumes io: "flushing_copier io_copy" and ok: "clean src" "sk_healthy s" "all_flushed s"
  shows "\<exists>src' s'. adaptive_copy io_copy os est src s = (Ok (length (payload src)), src', s')
     \<and> fst (io_copy src s) = Ok (length (payload src))
     \<and> sk_data s' = sk_data (snd (snd (io_copy src s))) \<and> all_flushed s'"
proof -
  note a = adaptive_copy_copier [OF io, of os est]
  obtain x t where t: "io_copy src s = (Inr (length (payload src)), x, t)" "sk_data t = sk_data s @ payload src"
    by (rule copier.delivers [OF flushing_copier.axioms(1) [OF io] ok(1,2)])
  obtain x' t' where t': "adaptive_copy io_copy os est src s = (Inr (length (payload src)), x', t')"
    "sk_data t' = sk_data s @ payload src"
    by (rule copier.delivers [OF flushing_copier.axioms(1) [OF a] ok(1,2)])
  from flushing_copier.copy_flushed [OF a t'(1) ok(3)] t t' show ?thesis by simp
qed

text \<open>A copy that is one: the loop with a buffer of 8 KiB that flushes at the end.\<close>

definition sample_io_copy :: "Arrival list \<Rightarrow> Sink \<Rightarrow> (IoError + nat) \<times> Arrival list \<times> Sink" where
  "sample_io_copy src s =
     (case copy_loop (KiB 8) (\<lambda>_ _. False) [] 0 0 src s of
        (Inr n, rest) \<Rightarrow> (Ok n, rest)
      | (Inl e, rest) \<Rightarrow> (Err (IoError OtherKind []), rest))"

lemma sample_io_copy_copier: "flushing_copier sample_io_copy"
proof (rule loop_post_copier)
  fix src s r src' s'
  assume run: "sample_io_copy src s = (r, src', s')"
  obtain q x t where c: "copy_loop (KiB 8) (\<lambda>_ _. False) [] 0 0 src s = (q, x, t)" by (metis prod_cases3)
  from copy_loop_post [OF _ c] have "loop_post 0 0 src s q t" by simp
  with run c show "loop_post 0 0 src s r s'"
    by (cases q) (auto simp: sample_io_copy_def loop_post_def)
qed

theorem adaptive_copy_same_result_witness:
  "\<exists>src' s'. adaptive_copy sample_io_copy MacOs (KiB 300) [Data [5, 6]] fresh_sink = (Ok 2, src', s')"
  using adaptive_copy_same_result [OF sample_io_copy_copier, of "[Data [5, 6]]" fresh_sink MacOs "KiB 300"]
  by auto

lemma read_some_drained: "clean src \<Longrightarrow> payload src = [] \<Longrightarrow> read_some b src = (Inr [], [])"
  by (induction b src rule: read_some.induct) auto

lemma full_sample:
  assumes "clean src" "KiB 32 \<le> length (payload src)"
  obtains sample src1 where "read_initial_sample [] src = (Inr (sample, False), src1)"
    "length sample = KiB 32" "payload src = sample @ payload src1" "clean src1"
proof -
  obtain q src1 where rd: "read_initial_sample [] src = (q, src1)" by fastforce
  note sp = read_initial_sample_spec [OF _ rd, simplified]
  with assms(1) obtain sample eos where q: "q = Inr (sample, eos)" by (cases q) auto
  with sp assms have "\<not> eos" by (cases eos) auto
  with sp q rd assms(1) that show thesis by simp
qed

text \<open>
  The sampling copier delivers like the others, but forgets a flush: when the stream ends
  right after the sample of 32 KiB, success is reported and not one of the bytes has been
  flushed.
\<close>

theorem adaptive_stream_copy_misses_flush:
  assumes ok: "clean src" "sk_healthy s" "all_flushed s"
  shows "\<exists>src' s'. adaptive_stream_copy os src s = (Ok (length (payload src)), src', s')
     \<and> sk_data s' = sk_data s @ payload src
     \<and> (length (payload src) = KiB 32 \<longrightarrow> sk_flushed s' = sk_flushed s \<and> \<not> all_flushed s')"
proof -
  obtain x t where t: "adaptive_stream_copy os src s = (Inr (length (payload src)), x, t)"
    "sk_data t = sk_data s @ payload src" by (rule sampling.delivers [OF ok(1,2)])
  have "sk_flushed t = sk_flushed s" if len: "length (payload src) = KiB 32"
  proof -
    obtain sample src1 where rd: "read_initial_sample [] src = (Inr (sample, False), src1)"
      "length sample = KiB 32" "payload src = sample @ payload src1" "clean src1"
      by (rule full_sample [OF ok(1)]) (use len in simp)
    with len have e: "read_some b src1 = (Inr [], [])" for b by (simp add: read_some_drained)
    obtain q s1 where w: "sink_write sample s = (q, s1)" by fastforce
    note ws = sink_write_spec [OF w]
    with ok(2) have q: "is_ok q" by blast
    obtain b f where "analyze_traffic_pattern os INITIAL_SAMPLE_SIZE False = BurstTraffic b f"
      using analyze_full_sample by blast
    with rd w q have "adaptive_stream_copy os src s = (Inr (length sample), [], s1)"
      by (cases q) (simp_all add: adaptive_stream_copy_def execute_adaptive_transfer_def copy_loop.simps e)
    with t(1) ws show ?thesis by simp
  qed
  with t ok(3) show ?thesis by auto
qed

theorem adaptive_stream_copy_misses_flush_witness:
  "\<exists>src' s'. adaptive_stream_copy Linux [Data (replicate (KiB 32) 7)] fresh_sink = (Ok (KiB 32), src', s')
     \<and> sk_flushed s' = 0 \<and> length (sk_data s') = KiB 32"
  using adaptive_stream_copy_misses_flush [of "[Data (replicate (KiB 32) 7)]" fresh_sink Linux] by auto

text \<open>
  On Linux the sampling copier for sockets fails on every stream of 32 KiB or more: the
  sample it takes is never larger than that, the system call it is meant for needs twice as
  much, and what is left is an error, after the sample has been forwarded. Shorter streams are
  forwarded whole.
\<close>

theorem adaptive_tcp_stream_copy_fails:
  assumes ok: "clean src" "sk_healthy s"
  shows "\<exists>r src' s'. adaptive_tcp_stream_copy splice_fn src s = (r, src', s')
     \<and> sk_data s' = sk_data s @ take (KiB 32) (payload src)
     \<and> (is_ok r \<longleftrightarrow> length (payload src) < KiB 32)"
proof -
  obtain q src1 where rd: "read_initial_sample [] src = (q, src1)" by fastforce
  note sp = read_initial_sample_spec [OF _ rd, simplified]
  with ok(1) obtain sample eos where q: "q = Inr (sample, eos)" by (cases q) auto
  obtain q2 s1 where w: "sink_write sample s = (q2, s1)" by fastforce
  obtain q3 s2 where f: "sink_flush s1 = (q3, s2)" by fastforce
  have "is_ok q2" "is_ok q3" and d: "sk_data s2 = sk_data s @ sample"
    using sink_write_spec [OF w] sink_flush_spec [OF f] ok(2) by auto
  then obtain u v where "q2 = Inr u" "q3 = Inr v" by (cases q2; cases q3) auto
  with sp q rd w f d show ?thesis
    by (cases eos) (auto simp: adaptive_tcp_stream_copy_def)
qed

theorem adaptive_tcp_stream_copy_fails_witness:
  "\<exists>r src' s'. adaptive_tcp_stream_copy (\<lambda>_ src s. (Ok 0, src, s)) [Data (replicate (KiB 40) 7)] fresh_sink
     = (r, src', s') \<and> \<not> is_ok r"
proof -
  have "clean [Data (replicate (KiB 40) 7)]" "sk_healthy fresh_sink" by simp_all
  from adaptive_tcp_stream_copy_fails [OF this, of "\<lambda>_ src s. (Ok 0, src, s)"] show ?thesis by auto
qed

section \<open>The buffered copier\<close>

lemma buffered_loop_spec:
  "0 < b \<Longrightarrow> buffered_loop b tot src s = (n, src', s') \<Longrightarrow>
     (\<exists>moved. sk_data s' = sk_data s @ moved \<and> prefix moved (payload src) \<and> n \<le> tot + length moved)
     \<and> (clean src \<and> sk_healthy s \<longrightarrow> sk_data s' = sk_data s @ payload src \<and> n = tot + length (payload src))"
proof (induction b tot src s arbitrary: n src' s' rule: buffered_loop.induct)
  case (1 b tot src s)
  obtain q src1 where rd: "read_some b src = (q, src1)" by fastforce
  note run = "1.prems"(2) [unfolded buffered_loop.simps [of b tot src s] rd prod.case]
  show ?case
  proof (cases q)
    case (Inl e)
    with run read_some_Err [OF rd [unfolded Inl]] show ?thesis by auto
  next
    case (Inr d)
    note d = read_some_Ok [OF rd [unfolded Inr]]
    show ?thesis
    proof (cases "d = []")
      case True
      with run Inr d "1.prems"(1) show ?thesis by auto
    next
      case ne: False
      obtain q2 s1 where w: "sink_write d s = (q2, s1)" by fastforce
      note ws = sink_write_spec [OF w]
      show ?thesis
      proof (cases q2)
        case (Inl e)
        with run Inr ne w have *: "s' = s1" "n = tot" by auto
        have "prefix (take k d) (payload src)" for k
          using d prefix_prefix [OF take_is_prefix, of k d "payload src1"] by simp
        with ws Inl * show ?thesis by auto
      next
        case ok: (Inr u)
        with run Inr ne w have c: "buffered_loop b (tot + length d) src1 s1 = (n, src', s')" by simp
        from ws ok have ws: "sk_data s1 = sk_data s @ d" "sk_healthy s \<longrightarrow> sk_healthy s1" by auto
        from "1.IH" [OF rd [symmetric] Inr ne w [symmetric] ok "1.prems"(1) c] obtain moved where
          "sk_data s' = sk_data s1 @ moved" "prefix moved (payload src1)" "n \<le> tot + length d + length moved"
          "clean src1 \<and> sk_healthy s1 \<longrightarrow> sk_data s' = sk_data s1 @ payload src1 \<and> n = tot + length d + length (payload src1)"
          by blast
        with ws d show ?thesis by (intro conjI exI [of _ "d @ moved"]) auto
      qed
    qed
  qed
qed

lemma buffered_bidirectional_delivers:
  assumes "clean ci" "clean si" "sk_healthy so" "sk_healthy co"
  shows "\<exists>so' co'. buffered_bidirectional ci so si co = (Ok (length (payload ci), length (payload si)), so', co')
     \<and> sk_data so' = sk_data so @ payload ci \<and> sk_data co' = sk_data co @ payload si"
proof -
  obtain n1 x1 s1 where b1: "buffered_loop (KiB 64) 0 ci so = (n1, x1, s1)" by (metis prod_cases3)
  obtain n2 x2 s2 where b2: "buffered_loop (KiB 64) 0 si co = (n2, x2, s2)" by (metis prod_cases3)
  from buffered_loop_spec [OF _ b1] buffered_loop_spec [OF _ b2] assms b1 b2 show ?thesis
    by (simp add: buffered_bidirectional_def)
qed

end
