(* ===== verification/Forward_Path.thy ===== *)
theory Forward_Path
  imports Stealth_Conn Copy_Loops
begin

text \<open>
  The whole way of one TCP client through the forward proxy: the checks and counters of
  \<^verbatim>\<open>src/src/proxy/stealth_connection_handler.rs\<close>, the stealth handler of \<^verbatim>\<open>src/src/proxy/stealth_handler.rs\<close> and the
  copier of \<^verbatim>\<open>src/src/proxy/zero_copy.rs\<close>, composed as the code composes them.

  \<open>refusal\<close> is the error of connecting to the remote, if it fails; \<open>transfer\<close> is what the copier of the
  platform makes of the two outgoing streams. \<open>None\<close> is a panic.
\<close>

definition serve_tcp_client ::
  "u64 \<Rightarrow> (nat \<times> ReadEvent) list \<Rightarrow> IoError option \<Rightarrow> IoError option
   \<Rightarrow> (Sink \<Rightarrow> Sink \<Rightarrow> (AppError + nat \<times> nat) \<times> Sink \<times> Sink) \<Rightarrow> SocketAddr option \<Rightarrow> nat
   \<Rightarrow> StealthConnectionHandler \<Rightarrow> Sink \<Rightarrow> Sink
   \<Rightarrow> ((AppError + unit) \<times> StealthConnectionHandler \<times> Sink \<times> Sink) option" where
  "serve_tcp_client seed evs nodelay refusal transfer client now h remote_out client_out =
     (case connection_begin client now h of
        (Inl e, h1) \<Rightarrow> Some (Err e, h1, remote_out, client_out)
      | (Inr _, h1) \<Rightarrow>
          (case apply_tcp_optimizations nodelay of
             Inl e \<Rightarrow> Some (Err e, h1, remote_out, client_out)
           | Inr _ \<Rightarrow>
               (let (outcome, ro, co) =
                      (case refusal of
                         Some e \<Rightarrow> (Err e, remote_out, client_out)
                       | None \<Rightarrow> apfst Ok (transfer remote_out client_out))
                in case handle_stealth seed evs outcome of
                     None \<Rightarrow> None
                   | Some r \<Rightarrow> (let (res, h2) = connection_end client r h1 in Some (res, h2, ro, co)))))"

lemma serve_tcp_client_is_handle_connection:
  "serve_tcp_client seed evs nodelay refusal transfer client now h ro co = Some (res, h', ro', co') \<Longrightarrow>
   \<exists>r. handle_connection client now nodelay r h = (res, h')"
  by (auto simp: serve_tcp_client_def handle_connection_def Let_def split: sum.splits prod.splits option.splits)

section \<open>Counters\<close>

definition active_at :: "StealthConnectionHandler \<Rightarrow> SocketAddr option \<Rightarrow> nat" where
  "active_at h client = (case client of None \<Rightarrow> 0 | Some addr \<Rightarrow> ip_active (ip_entry h (sa_ip addr)))"

lemma check_security_keeps:
  assumes "check_security ip now h = (Inr (), h')"
  shows "stats h' = stats h" "max_conns_per_ip h' = max_conns_per_ip h"
    and "max_conns_per_ip h \<noteq> None \<Longrightarrow> \<exists>st. ip_stats h' ip = Some st \<and> ip_active st = ip_active (ip_entry h ip) + 1"
    and "max_conns_per_ip h = None \<Longrightarrow> cps_limit h = None \<Longrightarrow> ip_stats h' = ip_stats h"
  using assms
  by (auto simp: check_security_def check_limits_def Let_def split: if_splits option.splits prod.splits)

lemma round_trip_counts:
  assumes "connection_begin client now h = (Inr (), h1)"
  shows "\<exists>h2. connection_end client (Inr ()) h1 = (Inr (), h2)
    \<and> total_connections (stats h2) = total_connections (stats h) + 1
    \<and> successful_connections (stats h2) = successful_connections (stats h) + 1
    \<and> failed_connections (stats h2) = failed_connections (stats h)
    \<and> active_connections (stats h2) = active_connections (stats h)
    \<and> (max_conns_per_ip h \<noteq> None \<longrightarrow> active_at h2 client = active_at h client)"
proof (cases client)
  case None
  with assms show ?thesis
    by (auto simp: connection_begin_def count_start_def connection_end_def disconnect_client_def active_at_def Let_def)
next
  case (Some addr)
  with assms obtain h0 where h0: "check_security (sa_ip addr) now h = (Inr (), h0)" "h1 = count_start h0"
    by (auto simp: connection_begin_def split: prod.splits sum.splits)
  note k = check_security_keeps [OF h0(1)]
  show ?thesis using Some k h0(2)
    by (auto simp: count_start_def connection_end_def disconnect_client_def register_disconnection_def active_at_def
        ip_entry_def Let_def split: option.splits)
qed

section \<open>Delivery\<close>

text \<open>What an admitted client leaves behind in the counters.\<close>

definition counted_once :: "SocketAddr option \<Rightarrow> StealthConnectionHandler \<Rightarrow> StealthConnectionHandler \<Rightarrow> bool" where
  "counted_once client h h' \<longleftrightarrow>
     total_connections (stats h') = total_connections (stats h) + 1
     \<and> successful_connections (stats h') = successful_connections (stats h) + 1
     \<and> failed_connections (stats h') = failed_connections (stats h)
     \<and> active_connections (stats h') = active_connections (stats h)
     \<and> (max_conns_per_ip h \<noteq> None \<longrightarrow> active_at h' client = active_at h client)"

definition after_client :: "SocketAddr option \<Rightarrow> nat \<Rightarrow> StealthConnectionHandler \<Rightarrow> StealthConnectionHandler" where
  "after_client client now h = snd (connection_end client (Inr ()) (snd (connection_begin client now h)))"

lemma admitted_client:
  assumes "fst (connection_begin client now h) = Ok ()"
  obtains h1 where "connection_begin client now h = (Inr (), h1)"
    and "connection_end client (Inr ()) h1 = (Inr (), after_client client now h)"
    and "counted_once client h (after_client client now h)"
proof -
  obtain h1 where b: "connection_begin client now h = (Inr (), h1)"
    using assms by (cases "connection_begin client now h") auto
  with round_trip_counts [OF b] that show thesis by (auto simp: after_client_def counted_once_def)
qed

lemma served_counts: "fst (connection_begin client now h) = Ok () \<Longrightarrow> counted_once client h (after_client client now h)"
  using admitted_client by blast

lemma served_accepted:
  assumes "fst (connection_begin client now h) = Ok ()" "transfer ro co = (Ok n, ro', co')"
  shows "serve_tcp_client seed evs None None transfer client now h ro co = Some (Ok (), after_client client now h, ro', co')"
  by (rule admitted_client [OF assms(1)])
     (simp add: assms(2) serve_tcp_client_def apply_tcp_optimizations_def handle_stealth_def normal_forwarding_def)

lemma served_refused:
  assumes "fst (connection_begin client now h) = Ok ()" "is_io_rejection e"
  shows "serve_tcp_client seed evs None (Some e) transfer client now h ro co = Some (Ok (), after_client client now h, ro, co)"
  by (rule admitted_client [OF assms(1)])
     (simp add: assms(2) refused_connection_is_hidden serve_tcp_client_def apply_tcp_optimizations_def)



end
