(* ===== verification/Splice.thy ===== *)
theory Splice
  imports Copy_Loops
begin

text \<open>
  Forwarding through a kernel pipe with \<open>splice\<close>: \<^verbatim>\<open>src/src/proxy/splice_optimizer.rs\<close> and the Linux
  part of \<^verbatim>\<open>src/src/proxy/zero_copy.rs\<close>.

  The state is the bytes the sender has still to give, the bytes in the pipe and the bytes the
  receiver has got. The kernel is a list of outcomes of the system calls in the order in which
  they are made; a call that moves bytes moves at most as many as are there and as were asked
  for. When the outcomes are used up the thread is still running, which is \<open>None\<close>.
\<close>

section \<open>System calls\<close>

datatype SpliceOutcome = Moved nat | SpliceFailed IoError

record SpliceState =
  sp_src :: bytes
  sp_pipe :: bytes
  sp_out :: bytes

definition splice_in :: "nat \<Rightarrow> SpliceState \<Rightarrow> SpliceState" where
  "splice_in n st = st\<lparr>sp_src := drop n (sp_src st), sp_pipe := sp_pipe st @ take n (sp_src st)\<rparr>"

definition splice_out :: "nat \<Rightarrow> SpliceState \<Rightarrow> SpliceState" where
  "splice_out n st = st\<lparr>sp_pipe := drop n (sp_pipe st), sp_out := sp_out st @ take n (sp_pipe st)\<rparr>"

section \<open>The loop of the optimizer\<close>

text \<open>
  \<open>rem\<close> is what is left of the last chunk; at zero the next call reads. \<open>rd\<close> and \<open>wr\<close> are
  the texts before the error of a read and of a write.
\<close>

fun splice_loop ::
  "string \<Rightarrow> string \<Rightarrow> nat \<Rightarrow> nat \<Rightarrow> nat \<Rightarrow> SpliceState \<Rightarrow> SpliceOutcome list
   \<Rightarrow> ((AppError + nat) \<times> SpliceState) option" where
  "splice_loop rd wr chunk rem tot st [] = None"
| "splice_loop rd wr chunk rem tot st (Moved k # rs) =
     (if rem = 0 then
        (let n = min k (min chunk (length (sp_src st))) in
         if 0 < n then splice_loop rd wr chunk n tot (splice_in n st) rs
         else Some (Ok tot, st))
      else
        (let w = min k (min rem (length (sp_pipe st))) in
         if 0 < w then splice_loop rd wr chunk (rem - w) (tot + w) (splice_out w st) rs
         else splice_loop rd wr chunk 0 tot st rs))"
| "splice_loop rd wr chunk rem tot st (SpliceFailed e # rs) =
     (if io_kind e = WouldBlock \<or> io_kind e = Interrupted then splice_loop rd wr chunk rem tot st rs
      else Some (Err (Proxy (ForwardingFailed ((if rem = 0 then rd else wr) @ io_text e))), st))"

text \<open>\<open>pipe_result\<close> is the outcome of \<open>pipe\<close>, \<open>joined\<close> that of joining the blocking task.\<close>

definition with_pipe ::
  "IoError option \<Rightarrow> SpliceState \<Rightarrow> ((AppError + nat) \<times> SpliceState) option
   \<Rightarrow> ((AppError + nat) \<times> SpliceState) option" where
  "with_pipe pipe_result st run =
     (case pipe_result of
        Some e \<Rightarrow> Some (Err (Proxy (ForwardingFailed (''Pipe creation failed: '' @ io_text e))), st)
      | None \<Rightarrow> run)"

text \<open>The arrow in two of the error texts, in UTF-8.\<close>

definition arrow :: string where "arrow = map char_of [0xE2, 0x86, 0x92 :: nat]"

definition splice_blocking ::
  "IoError option \<Rightarrow> SpliceState \<Rightarrow> SpliceOutcome list \<Rightarrow> ((AppError + nat) \<times> SpliceState) option" where
  "splice_blocking pipe_result st rs =
     with_pipe pipe_result st
       (splice_loop (''Splice reader'' @ arrow @ ''pipe failed: '') (''Splice pipe'' @ arrow @ ''writer failed: '')
          (KiB 256) 0 0 st rs)"

definition splice_adaptive_blocking ::
  "IoError option \<Rightarrow> nat \<Rightarrow> SpliceState \<Rightarrow> SpliceOutcome list \<Rightarrow> ((AppError + nat) \<times> SpliceState) option" where
  "splice_adaptive_blocking pipe_result chunk_size st rs =
     with_pipe pipe_result st
       (splice_loop ''Splice failed: '' ''Splice failed: '' chunk_size 0 0 st rs)"

definition join_task ::
  "string option \<Rightarrow> ((AppError + nat) \<times> SpliceState) option \<Rightarrow> ((AppError + nat) \<times> SpliceState) option" where
  "join_task joined task =
     (case joined of
        Some e \<Rightarrow> map_option (apfst (\<lambda>_. Err (Proxy (ForwardingFailed (''Splice task failed: '' @ e))))) task
      | None \<Rightarrow> task)"

definition splice_zero_copy ::
  "string option \<Rightarrow> IoError option \<Rightarrow> SpliceState \<Rightarrow> SpliceOutcome list
   \<Rightarrow> ((AppError + nat) \<times> SpliceState) option" where
  "splice_zero_copy joined pipe_result st rs = join_task joined (splice_blocking pipe_result st rs)"

definition splice_chunk_size :: "nat \<Rightarrow> nat" where
  "splice_chunk_size initial_sample_size =
     (if initial_sample_size < KiB 64 then KiB 64
      else if initial_sample_size < MiB 1 then KiB 128
      else KiB 256)"

definition splice_adaptive ::
  "string option \<Rightarrow> IoError option \<Rightarrow> nat \<Rightarrow> SpliceState \<Rightarrow> SpliceOutcome list
   \<Rightarrow> ((AppError + nat) \<times> SpliceState) option" where
  "splice_adaptive joined pipe_result initial_sample_size st rs =
     join_task joined (splice_adaptive_blocking pipe_result (splice_chunk_size initial_sample_size) st rs)"

text \<open>\<open>fstat\<close> gives the file type bits of the mode, or nothing when it fails.\<close>

datatype FileType = Sock | Fifo | OtherType

definition supports_splice :: "FileType option \<Rightarrow> bool" where
  "supports_splice mode = (case mode of None \<Rightarrow> False | Some m \<Rightarrow> m = Sock \<or> m = Fifo)"

section \<open>The loop of \<open>zero_copy_bidirectional\<close> on Linux\<close>

text \<open>
  Here a failed write only ends the inner loop and a failed read the outer one; only
  \<open>WouldBlock\<close> is tried again. \<open>n\<close> and \<open>written\<close> are those of the inner loop, which is
  over when they are equal.
\<close>

fun direction_loop ::
  "nat \<Rightarrow> nat \<Rightarrow> nat \<Rightarrow> SpliceState \<Rightarrow> SpliceOutcome list \<Rightarrow> (nat \<times> SpliceState) option" where
  "direction_loop n written tot st [] = None"
| "direction_loop n written tot st (Moved k # rs) =
     (if written < n then
        (let w = min k (min (n - written) (length (sp_pipe st))) in
         if 0 < w then direction_loop n (written + w) (tot + w) (splice_out w st) rs
         else direction_loop 0 0 tot st rs)
      else
        (let m = min k (min (KiB 128) (length (sp_src st))) in
         if 0 < m then direction_loop m 0 tot (splice_in m st) rs
         else Some (tot, st)))"
| "direction_loop n written tot st (SpliceFailed e # rs) =
     (if io_kind e = WouldBlock then direction_loop n written tot st rs
      else if written < n then direction_loop 0 0 tot st rs
      else Some (tot, st))"

record ZeroCopyEnv =
  zc_client_nodelay :: "IoError option"
  zc_server_nodelay :: "IoError option"
  zc_pipe1_join :: "string option"
  zc_pipe1 :: "IoError option"
  zc_pipe2_join :: "string option"
  zc_pipe2 :: "IoError option"
  zc_c2s_join :: "string option"
  zc_s2c_join :: "string option"

definition join_or :: "string \<Rightarrow> string option \<Rightarrow> AppError + unit" where
  "join_or what j = (case j of None \<Rightarrow> Ok () | Some e \<Rightarrow> Err (Proxy (ForwardingFailed (what @ e))))"

definition io_or :: "IoError option \<Rightarrow> AppError + unit" where
  "io_or e = (case e of None \<Rightarrow> Ok () | Some err \<Rightarrow> Err (Io err))"

text \<open>The result once both directions have ended with the given counts.\<close>

definition zero_copy_linux :: "ZeroCopyEnv \<Rightarrow> nat \<Rightarrow> nat \<Rightarrow> AppError + nat \<times> nat" where
  "zero_copy_linux env b1 b2 =
     and_then (io_or (zc_client_nodelay env)) (\<lambda>_.
     and_then (io_or (zc_server_nodelay env)) (\<lambda>_.
     and_then (join_or ''Pipe creation failed: '' (zc_pipe1_join env)) (\<lambda>_.
     and_then (io_or (zc_pipe1 env)) (\<lambda>_.
     and_then (join_or ''Pipe creation failed: '' (zc_pipe2_join env)) (\<lambda>_.
     and_then (io_or (zc_pipe2 env)) (\<lambda>_.
     and_then (join_or ''C2S join error: '' (zc_c2s_join env)) (\<lambda>_.
     and_then (join_or ''S2C join error: '' (zc_s2c_join env)) (\<lambda>_. Ok (b1, b2)))))))))"

section \<open>Conservation\<close>

text \<open>Everything the sender gave is with the receiver, in the pipe or still to come, in order.\<close>

definition sp_all :: "SpliceState \<Rightarrow> bytes" where
  "sp_all st = sp_out st @ sp_pipe st @ sp_src st"

lemma splice_in_all [simp]:
  "sp_all (splice_in n st) = sp_all st" "sp_out (splice_in n st) = sp_out st"
  "length (sp_pipe (splice_in n st)) = length (sp_pipe st) + min n (length (sp_src st))"
  by (simp_all add: sp_all_def splice_in_def)

lemma splice_out_all [simp]:
  "sp_all (splice_out n st) = sp_all st" "sp_src (splice_out n st) = sp_src st"
  "n \<le> length (sp_pipe st) \<Longrightarrow> length (sp_out (splice_out n st)) = length (sp_out st) + n"
  "length (sp_pipe (splice_out n st)) = length (sp_pipe st) - n"
  by (simp_all add: sp_all_def splice_out_def)

lemma splice_loop_conserves:
  "splice_loop rd wr chunk rem tot st rs = Some (r, st') \<Longrightarrow> tot = length (sp_out st) \<Longrightarrow>
     sp_all st' = sp_all st \<and> (\<forall>n. r = Inr n \<longrightarrow> n = length (sp_out st'))"
  by (induction rd wr chunk rem tot st rs rule: splice_loop.induct)
     (auto simp: Let_def split: if_splits)

lemma direction_loop_conserves:
  "direction_loop n written tot st rs = Some (m, st') \<Longrightarrow> tot = length (sp_out st) \<Longrightarrow>
     sp_all st' = sp_all st \<and> m = length (sp_out st')"
  by (induction n written tot st rs rule: direction_loop.induct)
     (auto simp: Let_def split: if_splits)

text \<open>While no write moves zero bytes, what is left of the chunk is what is in the pipe.\<close>

fun positive :: "SpliceOutcome \<Rightarrow> bool" where
  "positive (Moved k) = (0 < k)"
| "positive (SpliceFailed e) = True"

lemma splice_loop_drains:
  "splice_loop rd wr chunk rem tot st rs = Some (Inr n, st') \<Longrightarrow> rem = length (sp_pipe st) \<Longrightarrow>
   0 < chunk \<Longrightarrow> list_all positive rs \<Longrightarrow> sp_pipe st' = [] \<and> sp_src st' = []"
  by (induction rd wr chunk rem tot st rs rule: splice_loop.induct)
     (auto simp: Let_def min_def split: if_splits)

text \<open>Outcomes that move bytes or are tried again, and the number of those that move bytes.\<close>

fun progresses :: "SpliceOutcome \<Rightarrow> bool" where
  "progresses (Moved k) = (0 < k)"
| "progresses (SpliceFailed e) = (io_kind e = WouldBlock \<or> io_kind e = Interrupted)"

fun moves :: "SpliceOutcome list \<Rightarrow> nat" where
  "moves [] = 0"
| "moves (Moved k # rs) = Suc (moves rs)"
| "moves (SpliceFailed e # rs) = moves rs"

lemma splice_loop_returns:
  "list_all progresses rs \<Longrightarrow> rem = length (sp_pipe st) \<Longrightarrow> 0 < chunk \<Longrightarrow>
   2 * length (sp_src st) + length (sp_pipe st) < moves rs \<Longrightarrow>
   \<exists>n st'. splice_loop rd wr chunk rem tot st rs = Some (Inr n, st')"
proof (induction rd wr chunk rem tot st rs rule: splice_loop.induct)
  case (2 rd wr chunk rem tot st k rs)
  let ?n = "min k (min chunk (length (sp_src st)))" and ?w = "min k (min rem (length (sp_pipe st)))"
  consider "rem = 0" "?n = 0" | "rem = 0" "0 < ?n" | "0 < rem" by linarith
  then show ?case
  proof cases
    case 2
    have "?n \<le> length (sp_src st)" by simp
    with 2 "2.prems"(2,4) have l: "2 * length (drop ?n (sp_src st)) + ?n < moves rs"
      unfolding length_drop moves.simps by linarith
    with 2 have "\<exists>n st'. splice_loop rd wr chunk ?n tot (splice_in ?n st) rs = Some (Inr n, st')"
      using "2.prems" by (intro "2.IH"(1)) (auto simp: splice_in_def)
    with 2 show ?thesis by (simp add: Let_def)
  next
    case 3
    with "2.prems" have w: "0 < ?w" by auto
    have "?w \<le> length (sp_pipe st)" by simp
    with w "2.prems"(4) have l: "2 * length (sp_src st) + (length (sp_pipe st) - ?w) < moves rs"
      unfolding moves.simps by linarith
    with 3 have "\<exists>n st'. splice_loop rd wr chunk (rem - ?w) (tot + ?w) (splice_out ?w st) rs = Some (Inr n, st')"
      using "2.prems" w by (intro "2.IH"(2)) (simp_all add: Let_def)
    with 3 w show ?thesis by (simp add: Let_def)
  qed simp
qed auto

section \<open>Properties\<close>

abbreviation sp_start :: "bytes \<Rightarrow> SpliceState" where
  "sp_start src \<equiv> \<lparr>sp_src = src, sp_pipe = [], sp_out = []\<rparr>"

lemma with_pipe_Some:
  "with_pipe p st run = Some (r, st') \<Longrightarrow> run = Some (r, st') \<or> (st' = st \<and> \<not> is_ok r)"
  by (auto simp: with_pipe_def split: option.splits)

lemma splice_adaptive_runs:
  assumes "splice_adaptive joined pipe_result sample st rs = Some (r, st')"
  obtains (loop) q where "splice_loop ''Splice failed: '' ''Splice failed: '' (splice_chunk_size sample) 0 0 st rs = Some (q, st')"
      "r = q \<or> \<not> is_ok r"
    | (none) "st' = st" "\<not> is_ok r"
proof -
  from assms obtain q where q: "splice_adaptive_blocking pipe_result (splice_chunk_size sample) st rs = Some (q, st')"
    "r = q \<or> \<not> is_ok r"
    by (auto simp: splice_adaptive_def join_task_def split: option.splits)
  from with_pipe_Some [OF q(1) [unfolded splice_adaptive_blocking_def]] q(2) that show thesis by blast
qed


text \<open>
  C16. Forwarding by \<open>splice\<close> ends: with calls that move bytes or ask to be tried again, twice as
  many moving calls as there are bytes, and one for the end, are enough for it to return.
\<close>

theorem splice_blocking_returns:
  assumes "list_all progresses rs" "2 * length src < moves rs"
  shows "\<exists>st'. splice_blocking None (sp_start src) rs = Some (Ok (length src), st') \<and> sp_out st' = src"
proof -
  let ?rd = "''Splice reader'' @ arrow @ ''pipe failed: ''" and ?wr = "''Splice pipe'' @ arrow @ ''writer failed: ''"
  obtain n st' where l: "splice_loop ?rd ?wr (KiB 256) 0 0 (sp_start src) rs = Some (Inr n, st')"
    using splice_loop_returns [of rs 0 "sp_start src" "KiB 256" ?rd ?wr 0] assms by auto
  have "list_all positive rs" using assms(1) by (rule list.pred_mono_strong) (metis positive.simps progresses.elims(2))
  with splice_loop_drains [OF l] splice_loop_conserves [OF l] have "sp_out st' = src" "n = length src"
    by (auto simp: sp_all_def)
  with l show ?thesis by (simp add: splice_blocking_def with_pipe_def)
qed

text \<open>
  The forwarding in use on Linux hides a receiver that is gone: a write that fails only
  ends the inner loop, so at the end of the sender's stream success is reported with a
  count of zero and the bytes are left in the pipe. The optimizer reports the same failure.
  Bytes are never reordered, whatever the kernel answers.
\<close>

theorem linux_direction_hides_write_errors:
  assumes "0 < length src" "length src \<le> KiB 128" "io_kind e \<notin> {WouldBlock, Interrupted}"
  shows "direction_loop 0 0 0 (sp_start src) [Moved (length src), SpliceFailed e, Moved k]
        = Some (0, \<lparr>sp_src = [], sp_pipe = src, sp_out = []\<rparr>)
    \<and> (\<exists>err. splice_blocking None (sp_start src) [Moved (length src), SpliceFailed e, Moved k]
        = Some (Err err, \<lparr>sp_src = [], sp_pipe = src, sp_out = []\<rparr>))
    \<and> (\<forall>rs m st'. direction_loop 0 0 0 (sp_start src) rs = Some (m, st') \<longrightarrow>
        sp_out st' @ sp_pipe st' @ sp_src st' = src \<and> m = length (sp_out st'))"
  using assms direction_loop_conserves [of 0 0 0 "sp_start src"]
  by (auto simp: splice_in_def splice_blocking_def with_pipe_def sp_all_def Let_def)


theorem splice_blocking_returns_witness:
  "\<exists>st'. splice_blocking None (sp_start [4]) [SpliceFailed (IoError WouldBlock []), Moved 1, Moved 1, Moved 1]
     = Some (Ok 1, st')"
  using splice_blocking_returns [of "[SpliceFailed (IoError WouldBlock []), Moved 1, Moved 1, Moved 1]" "[4]"]
  by auto

theorem linux_direction_hides_write_errors_witness:
  "direction_loop 0 0 0 (sp_start [1, 2]) [Moved 2, SpliceFailed (IoError BrokenPipe []), Moved 5]
     = Some (0, \<lparr>sp_src = [], sp_pipe = [1, 2], sp_out = []\<rparr>)"
  using linux_direction_hides_write_errors [of "[1, 2]" "IoError BrokenPipe []" 5] by simp

end
