(* ===== verification/Platform_Path.thy ===== *)
theory Platform_Path
  imports Forward_Path Splice
begin

text \<open>
  The copier of each platform, \<^verbatim>\<open>src/src/proxy/zero_copy.rs\<close>, and the way of a client through the forward proxy
  with it: on Linux two tasks move bytes through pipes with \<open>splice\<close>, elsewhere two buffered loops copy them.

  The kernel is, for each direction, the list of outcomes of its system calls, as in the theory \<open>Splice\<close>; \<open>None\<close>
  is a direction that still runs when they are used up.
\<close>

section \<open>Linux\<close>

text \<open>
  The first direction runs before the second pipe is made: when making it fails, the error is
  returned while the first direction goes on. The result is given with what either side has received.
\<close>

definition splice_setup :: "IoError option \<Rightarrow> string option \<Rightarrow> AppError + unit" where
  "splice_setup pipe_result pipe_join =
     and_then (join_or ''Pipe creation failed: '' pipe_join) (\<lambda>_. io_or pipe_result)"

definition zero_copy_splice ::
  "ZeroCopyEnv \<Rightarrow> SpliceOutcome list \<Rightarrow> SpliceOutcome list \<Rightarrow> bytes \<Rightarrow> bytes
   \<Rightarrow> ((AppError + nat \<times> nat) \<times> bytes \<times> bytes) option" where
  "zero_copy_splice env rs1 rs2 client_data server_data =
     (case and_then (io_or (zc_client_nodelay env)) (\<lambda>_. and_then (io_or (zc_server_nodelay env)) (\<lambda>_.
             splice_setup (zc_pipe1 env) (zc_pipe1_join env))) of
        Inl e \<Rightarrow> Some (Err e, [], [])
      | Inr _ \<Rightarrow>
          (let c2s = direction_loop 0 0 0 (sp_start client_data) rs1 in
           case splice_setup (zc_pipe2 env) (zc_pipe2_join env) of
             Inl e \<Rightarrow> map_option (\<lambda>(_, st). (Err e, sp_out st, [])) c2s
           | Inr _ \<Rightarrow>
               Option.bind c2s (\<lambda>(bytes1, st1).
               Option.bind (direction_loop 0 0 0 (sp_start server_data) rs2) (\<lambda>(bytes2, st2).
               Some
                 (and_then (join_or ''C2S join error: '' (zc_c2s_join env)) (\<lambda>_.
                  and_then (join_or ''S2C join error: '' (zc_s2c_join env)) (\<lambda>_. Ok (bytes1, bytes2))),
                  sp_out st1, sp_out st2)))))"

text \<open>The result is the one of the theory \<open>Splice\<close>.\<close>

lemma zero_copy_splice_result:
  "zero_copy_splice env rs1 rs2 d1 d2 = Some (r, b1, b2) \<Longrightarrow> \<exists>n1 n2. r = zero_copy_linux env n1 n2"
  by (auto simp: zero_copy_splice_def zero_copy_linux_def splice_setup_def join_or_def io_or_def Let_def
      bind_eq_Some_conv split: option.splits)

section \<open>Other platforms\<close>

text \<open>The body is that of macOS, with another name on systems that are none of the three.\<close>

definition zero_copy_bidirectional_windows ::
  "IoError option \<Rightarrow> IoError option \<Rightarrow> Arrival list \<Rightarrow> Sink \<Rightarrow> Arrival list \<Rightarrow> Sink
   \<Rightarrow> (AppError + nat \<times> nat) \<times> Sink \<times> Sink" where
  "zero_copy_bidirectional_windows client_nodelay server_nodelay client_in server_out server_in client_out =
     (case and_then (io_or client_nodelay) (\<lambda>_. io_or server_nodelay) of
        Inl e \<Rightarrow> (Err e, server_out, client_out)
      | Inr _ \<Rightarrow> apfst Ok (both_ways (bulk_copy_optimized (KiB 256)) client_in server_out server_in client_out))"

definition zero_copy_bidirectional_other ::
  "IoError option \<Rightarrow> IoError option \<Rightarrow> Arrival list \<Rightarrow> Sink \<Rightarrow> Arrival list \<Rightarrow> Sink
   \<Rightarrow> (AppError + nat \<times> nat) \<times> Sink \<times> Sink" where
  "zero_copy_bidirectional_other client_nodelay server_nodelay client_in server_out server_in client_out =
     (case and_then (io_or client_nodelay) (\<lambda>_. io_or server_nodelay) of
        Inl e \<Rightarrow> (Err e, server_out, client_out)
      | Inr _ \<Rightarrow> apfst Ok (both_ways (bulk_copy_optimized (KiB 256)) client_in server_out server_in client_out))"

definition bulk_copy_bidirectional ::
  "IoError option \<Rightarrow> IoError option \<Rightarrow> Arrival list \<Rightarrow> Sink \<Rightarrow> Arrival list \<Rightarrow> Sink
   \<Rightarrow> (AppError + nat \<times> nat) \<times> Sink \<times> Sink" where
  "bulk_copy_bidirectional client_nodelay server_nodelay client_in server_out server_in client_out =
     (case and_then (io_or client_nodelay) (\<lambda>_. io_or server_nodelay) of
        Inl e \<Rightarrow> (Err e, server_out, client_out)
      | Inr _ \<Rightarrow> apfst Ok (both_ways (bulk_copy_optimized (KiB 256)) client_in server_out server_in client_out))"

lemma buffered_drivers_agree:
  "zero_copy_bidirectional_windows = zero_copy_bidirectional"
  "zero_copy_bidirectional_other = zero_copy_bidirectional"
  "bulk_copy_bidirectional = zero_copy_bidirectional"
  by (intro ext, simp add: zero_copy_bidirectional_windows_def zero_copy_bidirectional_other_def
      bulk_copy_bidirectional_def zero_copy_bidirectional_def io_or_def split: option.splits)+

section \<open>Splicing delivers\<close>

text \<open>On this loop only \<open>WouldBlock\<close> is tried again; an interrupted call ends it.\<close>

fun retried :: "SpliceOutcome \<Rightarrow> bool" where
  "retried (Moved k) = (0 < k)"
| "retried (SpliceFailed e) = (io_kind e = WouldBlock)"

lemma direction_loop_returns:
  "list_all retried rs \<Longrightarrow> written \<le> n \<Longrightarrow> n - written = length (sp_pipe st) \<Longrightarrow>
   2 * length (sp_src st) + length (sp_pipe st) < moves rs \<Longrightarrow>
   \<exists>m st'. direction_loop n written tot st rs = Some (m, st') \<and> sp_pipe st' = [] \<and> sp_src st' = []"
proof (induction n written tot st rs rule: direction_loop.induct)
  case (2 n written tot st k rs)
  let ?w = "min k (min (n - written) (length (sp_pipe st)))" and ?m = "min k (min (KiB 128) (length (sp_src st)))"
  consider "written < n" | "written = n" "0 < ?m" | "written = n" "?m = 0" using "2.prems"(2) by linarith
  then show ?case
  proof cases
    case 1
    with "2.prems" have w: "0 < ?w" by auto
    have le: "?w \<le> length (sp_pipe st)" by simp
    with w "2.prems"(4) have l: "2 * length (sp_src st) + (length (sp_pipe st) - ?w) < moves rs"
      unfolding moves.simps by linarith
    have "\<exists>m st'. direction_loop n (written + ?w) (tot + ?w) (splice_out ?w st) rs = Some (m, st') \<and> sp_pipe st' = [] \<and> sp_src st' = []"
      using 1 "2.prems" w le l by (intro "2.IH"(1)) (simp_all add: Let_def)
    with 1 w show ?thesis by (simp add: Let_def)
  next
    case 2
    have "?m \<le> length (sp_src st)" by simp
    with 2 "2.prems"(3,4) have l: "2 * length (drop ?m (sp_src st)) + ?m < moves rs"
      unfolding length_drop moves.simps by linarith
    have "\<exists>m st'. direction_loop ?m 0 tot (splice_in ?m st) rs = Some (m, st') \<and> sp_pipe st' = [] \<and> sp_src st' = []"
      using 2 "2.prems" l by (intro "2.IH"(3)) (auto simp: splice_in_def)
    with 2 show ?thesis by (simp add: Let_def)
  next
    case 3
    with "2.prems" have "sp_src st = []" "sp_pipe st = []" by (auto simp: min_def split: if_splits)
    with 3 show ?thesis by (simp add: Let_def)
  qed
qed auto

definition sound_env :: ZeroCopyEnv where
  "sound_env =
     \<lparr>zc_client_nodelay = None, zc_server_nodelay = None, zc_pipe1_join = None, zc_pipe1 = None, zc_pipe2_join = None,
      zc_pipe2 = None, zc_c2s_join = None, zc_s2c_join = None\<rparr>"

definition enough :: "bytes \<Rightarrow> SpliceOutcome list \<Rightarrow> bool" where
  "enough data rs \<longleftrightarrow> list_all retried rs \<and> 2 * length data < moves rs"

lemma direction_delivers:
  assumes "enough data rs"
  obtains st where "direction_loop 0 0 0 (sp_start data) rs = Some (length data, st)" "sp_out st = data"
proof -
  from assms direction_loop_returns [of rs 0 0 "sp_start data" 0] obtain m st where
    l: "direction_loop 0 0 0 (sp_start data) rs = Some (m, st)" "sp_pipe st = []" "sp_src st = []"
    by (auto simp: enough_def)
  with direction_loop_conserves [OF l(1)] that show thesis by (auto simp: sp_all_def)
qed

lemma zero_copy_splice_delivers:
  assumes "enough d1 rs1" "enough d2 rs2"
  shows "zero_copy_splice sound_env rs1 rs2 d1 d2 = Some (Ok (length d1, length d2), d1, d2)"
proof -
  obtain st1 where "direction_loop 0 0 0 (sp_start d1) rs1 = Some (length d1, st1)" "sp_out st1 = d1"
    by (rule direction_delivers [OF assms(1)])
  moreover obtain st2 where "direction_loop 0 0 0 (sp_start d2) rs2 = Some (length d2, st2)" "sp_out st2 = d2"
    by (rule direction_delivers [OF assms(2)])
  ultimately show ?thesis
    by (simp add: zero_copy_splice_def sound_env_def splice_setup_def io_or_def join_or_def)
qed

section \<open>The way of a client\<close>

text \<open>The copier that is compiled in, on two streams that deliver their data and end.\<close>

definition sink_append :: "bytes \<Rightarrow> Sink \<Rightarrow> Sink" where
  "sink_append bs s = s\<lparr>sk_writer := (sk_writer s)\<lparr>wr_data := sk_data s @ bs\<rparr>\<rparr>"

definition platform_transfer ::
  "OS \<Rightarrow> SpliceOutcome list \<Rightarrow> SpliceOutcome list \<Rightarrow> Arrival list \<Rightarrow> Arrival list \<Rightarrow> Sink \<Rightarrow> Sink
   \<Rightarrow> ((AppError + nat \<times> nat) \<times> Sink \<times> Sink) option" where
  "platform_transfer os rs1 rs2 client_in server_in server_out client_out =
     (case os of
        Linux \<Rightarrow>
          map_option (\<lambda>(r, b1, b2). (r, sink_append b1 server_out, sink_append b2 client_out))
            (zero_copy_splice sound_env rs1 rs2 (payload client_in) (payload server_in))
      | MacOs \<Rightarrow> Some (zero_copy_bidirectional None None client_in server_out server_in client_out)
      | Windows \<Rightarrow> Some (zero_copy_bidirectional_windows None None client_in server_out server_in client_out)
      | OtherOs \<Rightarrow> Some (zero_copy_bidirectional_other None None client_in server_out server_in client_out))"

text \<open>
  C5. On every platform what an admitted client and an accepting remote send each other is delivered and
  the client is counted once. On Linux it takes a kernel whose calls move bytes or ask to be tried again, and at most two moving calls for each
  byte and one for the end.
\<close>

theorem platform_path_delivers:
  assumes admitted: "fst (connection_begin client now h) = Ok ()"
    and streams: "clean ci" "clean ri" "sk_healthy ro" "sk_healthy co"
    and kernel: "os = Linux \<Longrightarrow> enough (payload ci) rs1 \<and> enough (payload ri) rs2"
  shows "\<exists>n h' ro' co'.
      platform_transfer os rs1 rs2 ci ri ro co = Some (Ok n, ro', co')
    \<and> serve_tcp_client seed evs None None (\<lambda>ro co. the (platform_transfer os rs1 rs2 ci ri ro co)) client now h ro co
        = Some (Ok (), h', ro', co')
    \<and> sk_data ro' = sk_data ro @ payload ci \<and> sk_data co' = sk_data co @ payload ri
    \<and> counted_once client h h'"
proof -
  obtain ro' co' where z: "both_ways (bulk_copy_optimized (KiB 256)) ci ro ri co = ((length (payload ci), length (payload ri)), ro', co')"
    "sk_data ro' = sk_data ro @ payload ci" "sk_data co' = sk_data co @ payload ri"
    using bulk256.both_ways_delivers [of ci ro ri co] streams by auto
  obtain ro1 co1 where t: "platform_transfer os rs1 rs2 ci ri ro co = Some (Ok (length (payload ci), length (payload ri)), ro1, co1)"
    "sk_data ro1 = sk_data ro @ payload ci" "sk_data co1 = sk_data co @ payload ri"
  proof (cases os)
    case Linux
    with kernel zero_copy_splice_delivers [of "payload ci" rs1 "payload ri" rs2] that [of "sink_append (payload ci) ro" "sink_append (payload ri) co"]
    show thesis by (simp add: platform_transfer_def sink_append_def)
  qed (use z that [of ro' co'] in \<open>simp_all add: platform_transfer_def buffered_drivers_agree zero_copy_bidirectional_def\<close>)
  with served_counts [OF admitted]
    served_accepted [OF admitted, of "\<lambda>ro co. the (platform_transfer os rs1 rs2 ci ri ro co)" ro co]
  show ?thesis by auto
qed

theorem platform_path_delivers_witness:
  "\<exists>h' ro' co'.
     serve_tcp_client 42 [] None None
       (\<lambda>ro co. the (platform_transfer Linux (replicate 5 (Moved 1)) [Moved 9, Moved 9, Moved 9] [Data [1, 2]] [Data [9]] ro co))
       (Some (SockV4 5 4444)) 0 (StealthConnectionHandler_new (SockV4 7 80) None None (Some 2) None) fresh_sink fresh_sink
       = Some (Ok (), h', ro', co') \<and> sk_data ro' = [1, 2] \<and> sk_data co' = [9]"
proof -
  let ?h = "StealthConnectionHandler_new (SockV4 7 80) None None (Some 2) None"
  have a: "fst (connection_begin (Some (SockV4 5 4444)) 0 ?h) = Ok ()"
    by (simp add: connection_begin_def check_security_def check_limits_def acl_allows_def StealthConnectionHandler_new_def
        ip_entry_def IpSecurityStats_new_def Let_def)
  have "enough [1, 2] (replicate 5 (Moved 1))" "enough [9] [Moved 9, Moved 9, Moved 9]"
    by (simp_all add: enough_def numeral_eq_Suc)
  with platform_path_delivers [OF a, of "[Data [1, 2]]" "[Data [9]]" fresh_sink fresh_sink Linux
      "replicate 5 (Moved 1)" "[Moved 9, Moved 9, Moved 9]" 42 "[]"]
  show ?thesis by auto
qed

end
