(* ===== verification/Protocol.thy ===== *)
theory Protocol
  imports Stream_IO
begin

text \<open>
  The control channel of the reverse proxy, \<^verbatim>\<open>src/src/reverse_proxy/protocol.rs\<close>: the messages and their
  framing with a big-endian 32-bit length.

  The byte format of a message is the one of the \<open>bincode\<close> crate, a pair of parameters
  \<open>ser\<close> and \<open>de\<close>; the locale \<open>serializer\<close> states what the protocol relies on.
\<close>

section \<open>Messages\<close>

definition PROTOCOL_VERSION :: u8 where "PROTOCOL_VERSION = 1"

definition MAX_MESSAGE_SIZE :: u32 where "MAX_MESSAGE_SIZE = 16 * 1024 * 1024"

record ReverseProxyConfig =
  server_port :: u16
  server_host :: "string option"
  local_host :: string
  local_port :: u16

datatype HandshakeStatus =
    StatusOk
  | VersionMismatch
  | StatusConfigError
  | PortAllocationFailed
  | InvalidToken
  | TokenExpired
  | AccessDenied
  | InvalidConfigHash

datatype ControlMessage =
    ClientHello (ch_version: u8) (ch_token: string) (ch_totp_code: "u32 option")
      (ch_proxies: "ReverseProxyConfig list") (ch_config_hash: string)
  | ServerHello (sh_version: u8) (sh_status: HandshakeStatus) (sh_message: string)
      (sh_allowed_ports: "u16 list") (sh_session_id: "string option")
  | Ping
  | Pong

type_synonym serialize = "ControlMessage \<Rightarrow> string + bytes"
type_synonym deserialize = "bytes \<Rightarrow> string + ControlMessage"

section \<open>Framing\<close>

definition to_bytes :: "serialize \<Rightarrow> ControlMessage \<Rightarrow> AppError + bytes" where
  "to_bytes ser m = map_err (\<lambda>e. ReverseProxy (SerializationFailed e)) (ser m)"

definition from_bytes :: "deserialize \<Rightarrow> bytes \<Rightarrow> AppError + ControlMessage" where
  "from_bytes de bs = map_err (\<lambda>e. ReverseProxy (DeserializationFailed e)) (de bs)"

definition too_large :: "u32 \<Rightarrow> AppError" where
  "too_large len =
     ReverseProxy (InvalidMessage (''Message too large: '' @ nat_to_string (unat len) @ '' bytes''))"

text \<open>The length is cast to 32 bits before it is compared.\<close>

definition write_to :: "serialize \<Rightarrow> ControlMessage \<Rightarrow> Writer \<Rightarrow> (AppError + unit) \<times> Writer" where
  "write_to ser m w =
     (case to_bytes ser m of
        Inl e \<Rightarrow> (Err e, w)
      | Inr data \<Rightarrow>
        (let len = (word_of_nat (length data) :: u32) in
         if MAX_MESSAGE_SIZE < len then (Err (too_large len), w)
         else
           (case write_all (u32_to_be_bytes len) w of
              (Inl e, w1) \<Rightarrow> (Err (Io e), w1)
            | (Inr _, w1) \<Rightarrow>
              (case write_all data w1 of
                 (Inl e, w2) \<Rightarrow> (Err (Io e), w2)
               | (Inr _, w2) \<Rightarrow>
                 (case flush w2 of
                    (Inl e, w3) \<Rightarrow> (Err (Io e), w3)
                  | (Inr _, w3) \<Rightarrow> (Ok (), w3))))))"

definition read_from :: "deserialize \<Rightarrow> Reader \<Rightarrow> (AppError + ControlMessage) \<times> Reader" where
  "read_from de r =
     (case read_exact 4 r of
        (Inl e, r1) \<Rightarrow> (Err (Io e), r1)
      | (Inr len_bytes, r1) \<Rightarrow>
        (let len = u32_from_be_bytes len_bytes in
         if MAX_MESSAGE_SIZE < len then (Err (too_large len), r1)
         else
           (case read_exact (unat len) r1 of
              (Inl e, r2) \<Rightarrow> (Err (Io e), r2)
            | (Inr data, r2) \<Rightarrow> (from_bytes de data, r2))))"

text \<open>Sequences of messages, written and read one after the other on one connection.\<close>

fun write_seq :: "serialize \<Rightarrow> ControlMessage list \<Rightarrow> Writer \<Rightarrow> (AppError + unit) \<times> Writer" where
  "write_seq ser [] w = (Ok (), w)"
| "write_seq ser (m # ms) w =
     (case write_to ser m w of
        (Inl e, w1) \<Rightarrow> (Err e, w1)
      | (Inr _, w1) \<Rightarrow> write_seq ser ms w1)"

fun read_seq :: "deserialize \<Rightarrow> nat \<Rightarrow> Reader \<Rightarrow> (AppError + ControlMessage list) \<times> Reader" where
  "read_seq de 0 r = (Ok [], r)"
| "read_seq de (Suc n) r =
     (case read_from de r of
        (Inl e, r1) \<Rightarrow> (Err e, r1)
      | (Inr m, r1) \<Rightarrow>
        (case read_seq de n r1 of
           (Inl e, r2) \<Rightarrow> (Err e, r2)
         | (Inr ms, r2) \<Rightarrow> (Ok (m # ms), r2)))"

section \<open>Frames\<close>

text \<open>The frame of a payload, and a frame as a reader sees it.\<close>

definition frame :: "bytes \<Rightarrow> bytes" where
  "frame data = u32_to_be_bytes (word_of_nat (length data)) @ data"

abbreviation max_payload :: nat where "max_payload \<equiv> 16777216"

lemma MAX_MESSAGE_SIZE_less_iff: "MAX_MESSAGE_SIZE < len \<longleftrightarrow> max_payload < unat len"
  by (simp add: MAX_MESSAGE_SIZE_def word_less_nat_alt)

lemma write_to_frame:
  assumes "ser m = Ok data" "length data \<le> max_payload" "healthy w"
  shows "write_to ser m w = (Ok (), w\<lparr>wr_data := wr_data w @ frame data\<rparr>)"
  using assms
  by (simp add: write_to_def to_bytes_def frame_def MAX_MESSAGE_SIZE_less_iff unat_of_nat Let_def)

lemma read_from_frame:
  assumes "length data \<le> max_payload" "rd_data r = frame data @ rest"
  shows "read_from de r = (from_bytes de data, r\<lparr>rd_data := rest\<rparr>)"
proof -
  have u: "unat (word_of_nat (length data) :: u32) = length data"
    using assms(1) by (simp add: unat_of_nat)
  have "read_exact 4 r =
     (Ok (u32_to_be_bytes (word_of_nat (length data))), r\<lparr>rd_data := data @ rest\<rparr>)"
    using assms(2) by (simp add: read_exact_def frame_def)
  then show ?thesis
    using assms(1) by (simp add: read_from_def MAX_MESSAGE_SIZE_less_iff u Let_def)
qed

lemma write_to_cases:
  assumes "healthy w" "ser m = Ok data"
  shows "write_to ser m w =
     (let len = length data mod 2 ^ 32 in
      if max_payload < len then (Err (too_large (word_of_nat (length data))), w)
      else (Ok (), w\<lparr>wr_data := wr_data w @ be_bytes 4 len @ data\<rparr>))"
  using assms
  by (simp add: write_to_def to_bytes_def MAX_MESSAGE_SIZE_less_iff unat_of_nat Let_def
      u32_to_be_bytes_def)

section \<open>The serializer the protocol relies on\<close>

text \<open>
  \<open>ser\<close> and \<open>de\<close> are inverse on the messages that serialize. The option view of \<open>read_from\<close>
  is the decoder of a wire format, whose messages are those with a payload of at most 16 MiB.
\<close>

definition control_encode :: "serialize \<Rightarrow> ControlMessage \<Rightarrow> bytes" where
  "control_encode ser m = (case ser m of Inl _ \<Rightarrow> [] | Inr data \<Rightarrow> frame data)"

definition control_decode :: "deserialize \<Rightarrow> bytes \<Rightarrow> (ControlMessage \<times> bytes) option" where
  "control_decode de bs =
     (case read_from de \<lparr>rd_data = bs, rd_end = IoError UnexpectedEof ''early eof''\<rparr> of
        (Inl _, _) \<Rightarrow> None
      | (Inr m, r) \<Rightarrow> Some (m, rd_data r))"

definition control_fits :: "serialize \<Rightarrow> ControlMessage \<Rightarrow> bool" where
  "control_fits ser m =
     (case ser m of Inl _ \<Rightarrow> False | Inr data \<Rightarrow> length data \<le> max_payload)"

locale serializer =
  fixes ser :: serialize and de :: deserialize
  assumes de_ser: "ser m = Ok data \<Longrightarrow> de data = Ok m"
begin

lemma control_decode_encode:
  "control_fits ser m \<Longrightarrow> control_decode de (control_encode ser m @ rest) = Some (m, rest)"
  by (auto simp: control_fits_def control_decode_def control_encode_def from_bytes_def de_ser
      read_from_frame split: sum.splits)

lemma write_read:
  assumes "control_fits ser m" "healthy w" "rd_data r = control_encode ser m @ rest"
  shows "write_to ser m w = (Ok (), w\<lparr>wr_data := wr_data w @ control_encode ser m\<rparr>)
    \<and> read_from de r = (Ok m, r\<lparr>rd_data := rest\<rparr>)"
  using assms
  by (auto simp: control_fits_def control_encode_def write_to_frame read_from_frame from_bytes_def
      de_ser split: sum.splits)

lemma write_seq_fits:
  "list_all (control_fits ser) ms \<Longrightarrow> healthy w \<Longrightarrow>
   write_seq ser ms w = (Ok (), w\<lparr>wr_data := wr_data w @ concat (map (control_encode ser) ms)\<rparr>)"
proof (induction ms arbitrary: w)
  case (Cons m ms)
  let ?r = "\<lparr>rd_data = control_encode ser m @ [], rd_end = IoError UnexpectedEof []\<rparr>"
  have "write_to ser m w = (Ok (), w\<lparr>wr_data := wr_data w @ control_encode ser m\<rparr>)"
    using write_read [of m w ?r "[]"] Cons.prems by simp
  with Cons show ?case by simp
qed simp

lemma read_seq_fits:
  "list_all (control_fits ser) ms \<Longrightarrow> rd_data r = concat (map (control_encode ser) ms) @ rest \<Longrightarrow>
   read_seq de (length ms) r = (Ok ms, r\<lparr>rd_data := rest\<rparr>)"
proof (induction ms arbitrary: r)
  case (Cons m ms)
  let ?w = "\<lparr>wr_data = [], wr_fail = None, wr_flush = None\<rparr>"
  let ?rest = "concat (map (control_encode ser) ms) @ rest"
  have "read_from de r = (Ok m, r\<lparr>rd_data := ?rest\<rparr>)"
    using write_read [of m ?w r ?rest] Cons.prems by simp
  with Cons show ?case by simp
qed simp

end

sublocale serializer \<subseteq> control: wire_format "control_encode ser" "control_decode de" "control_fits ser"
  by unfold_locales (rule control_decode_encode)

lemma read_from_consumes:
  assumes "read_from de r = (res, r')"
  shows "\<exists>used. rd_data r = used @ rd_data r' \<and> length used \<le> 4 + max_payload
           \<and> (4 \<le> length (rd_data r) \<and> max_payload < be_nat (take 4 (rd_data r)) \<longrightarrow>
                length used = 4 \<and> res = Err (too_large (word_of_nat (be_nat (take 4 (rd_data r))))))"
proof (cases "4 \<le> length (rd_data r)")
  case False
  then show ?thesis using assms by (auto simp: read_from_def)
next
  case True
  let ?len = "u32_from_be_bytes (take 4 (rd_data r))"
  have b: "be_nat (take 4 (rd_data r)) < 2 ^ 32"
    using be_nat_bound [of "take 4 (rd_data r)"] True by simp
  then have u: "unat ?len = be_nat (take 4 (rd_data r))"
    by (simp add: u32_from_be_bytes_def unat_of_nat)
  show ?thesis
  proof (cases "max_payload < unat ?len")
    case big: True
    then have "res = Err (too_large ?len)" "rd_data r' = drop 4 (rd_data r)"
      using assms True by (auto simp: read_from_def MAX_MESSAGE_SIZE_less_iff Let_def)
    then show ?thesis using True u
      by (intro exI [of _ "take 4 (rd_data r)"]) (simp add: u32_from_be_bytes_def)
  next
    case small: False
    let ?used = "take (4 + unat ?len) (rd_data r)"
    have "rd_data r' = drop (4 + unat ?len) (rd_data r)"
      using assms True small
      by (auto simp: read_from_def MAX_MESSAGE_SIZE_less_iff Let_def read_exact_def add.commute
          split: if_splits)
    then show ?thesis using small u by (intro exI [of _ ?used]) simp
  qed
qed

end
