(* ===== verification/Bincode.thy ===== *)
theory Bincode
  imports Protocol "HOL-Library.Monad_Syntax"
begin

text \<open>
  An instance of the serializer interface: the documented format of \<open>bincode\<close> version 1 with its
  default options, fixed-width little-endian integers, lengths in 64 bits, a 32-bit index for
  the variant of an enum and one byte for an option. It shows that the assumptions of
  \<open>serializer\<close> can be met by a real format; no property of the protocol depends on it.
\<close>

section \<open>Primitive formats\<close>

definition le_encode :: "nat \<Rightarrow> nat \<Rightarrow> bytes" where
  "le_encode n x = rev (be_bytes n x)"

definition le_decode :: "nat \<Rightarrow> bytes \<Rightarrow> (nat \<times> bytes) option" where
  "le_decode n bs = (if n \<le> length bs then Some (be_nat (rev (take n bs)), drop n bs) else None)"

definition word_encode :: "nat \<Rightarrow> 'a::len word \<Rightarrow> bytes" where
  "word_encode n w = le_encode n (unat w)"

definition word_decode :: "nat \<Rightarrow> bytes \<Rightarrow> ('a::len word \<times> bytes) option" where
  "word_decode n bs = do { (x, r) \<leftarrow> le_decode n bs; Some (word_of_nat x, r) }"

definition string_encode :: "string \<Rightarrow> bytes" where
  "string_encode s = le_encode 8 (length s) @ map char_byte s"

definition string_decode :: "bytes \<Rightarrow> (string \<times> bytes) option" where
  "string_decode bs =
     do { (n, r) \<leftarrow> le_decode 8 bs;
          if n \<le> length r then Some (map byte_char (take n r), drop n r) else None }"

definition string_fits :: "string \<Rightarrow> bool" where "string_fits s = (length s < 2 ^ 64)"

definition option_encode :: "('a \<Rightarrow> bytes) \<Rightarrow> 'a option \<Rightarrow> bytes" where
  "option_encode enc x = (case x of None \<Rightarrow> [0] | Some a \<Rightarrow> 1 # enc a)"

definition option_decode ::
  "(bytes \<Rightarrow> ('a \<times> bytes) option) \<Rightarrow> bytes \<Rightarrow> ('a option \<times> bytes) option" where
  "option_decode dec bs =
     (case bs of [] \<Rightarrow> None
      | t # r \<Rightarrow> if t = 0 then Some (None, r)
                  else if t = 1 then do { (a, r') \<leftarrow> dec r; Some (Some a, r') } else None)"

definition list_encode :: "('a \<Rightarrow> bytes) \<Rightarrow> 'a list \<Rightarrow> bytes" where
  "list_encode enc xs = le_encode 8 (length xs) @ concat (map enc xs)"

definition list_decode ::
  "(bytes \<Rightarrow> ('a \<times> bytes) option) \<Rightarrow> bytes \<Rightarrow> ('a list \<times> bytes) option" where
  "list_decode dec bs = do { (n, r) \<leftarrow> le_decode 8 bs; decode_many dec n r }"

lemma le_decode_encode [codec_simps]:
  "x < 256 ^ n \<Longrightarrow> le_decode n (le_encode n x @ rest) = Some (x, rest)"
  by (simp add: le_decode_def le_encode_def be_nat_be_bytes)

lemma word_decode_encode:
  "LENGTH('a) \<le> 8 * n \<Longrightarrow> word_decode n (word_encode n (w :: 'a::len word) @ rest) = Some (w, rest)"
proof -
  assume l: "LENGTH('a) \<le> 8 * n"
  have "unat w < 2 ^ LENGTH('a)" by (rule unsigned_less)
  also have "(2 :: nat) ^ LENGTH('a) \<le> 2 ^ (8 * n)" using l by (intro power_increasing) auto
  also have "(2 :: nat) ^ (8 * n) = 256 ^ n" by (simp add: power_mult)
  finally show ?thesis by (simp add: word_decode_def word_encode_def le_decode_encode)
qed

lemma string_decode_encode:
  "string_fits s \<Longrightarrow> string_decode (string_encode s @ rest) = Some (s, rest)"
  by (simp add: string_decode_def string_encode_def string_fits_def le_decode_encode o_def)

interpretation word8: wire_format "word_encode 1" "word_decode 1 :: bytes \<Rightarrow> (u8 \<times> bytes) option" "\<lambda>_. True"
  by unfold_locales (simp add: word_decode_encode)

interpretation word16: wire_format "word_encode 2" "word_decode 2 :: bytes \<Rightarrow> (u16 \<times> bytes) option" "\<lambda>_. True"
  by unfold_locales (simp add: word_decode_encode)

interpretation word32: wire_format "word_encode 4" "word_decode 4 :: bytes \<Rightarrow> (u32 \<times> bytes) option" "\<lambda>_. True"
  by unfold_locales (simp add: word_decode_encode)

interpretation chars: wire_format string_encode string_decode string_fits
  by unfold_locales (rule string_decode_encode)

context wire_format
begin

lemma option_decode_encode:
  "pred_option fits x \<Longrightarrow> option_decode decode (option_encode encode x @ rest) = Some (x, rest)"
  by (cases x) (simp_all add: option_decode_def option_encode_def decode_encode)

lemma list_decode_encode:
  "list_all fits xs \<Longrightarrow> length xs < 2 ^ 64 \<Longrightarrow>
   list_decode decode (list_encode encode xs @ rest) = Some (xs, rest)"
  by (simp add: list_decode_def list_encode_def le_decode_encode decode_sequence)

end

section \<open>Messages\<close>

definition config_encode :: "ReverseProxyConfig \<Rightarrow> bytes" where
  "config_encode c =
     word_encode 2 (server_port c) @ option_encode string_encode (server_host c)
     @ string_encode (local_host c) @ word_encode 2 (local_port c)"

definition config_decode :: "bytes \<Rightarrow> (ReverseProxyConfig \<times> bytes) option" where
  "config_decode bs =
     do { (sp, r1) \<leftarrow> word_decode 2 bs;
          (sh, r2) \<leftarrow> option_decode string_decode r1;
          (lh, r3) \<leftarrow> string_decode r2;
          (lp, r4) \<leftarrow> word_decode 2 r3;
          Some (\<lparr>server_port = sp, server_host = sh, local_host = lh, local_port = lp\<rparr>, r4) }"

definition config_fits :: "ReverseProxyConfig \<Rightarrow> bool" where
  "config_fits c = (pred_option string_fits (server_host c) \<and> string_fits (local_host c))"

interpretation config: wire_format config_encode config_decode config_fits
  by unfold_locales
     (simp add: config_encode_def config_decode_def config_fits_def word16.decode_encode
       chars.decode_encode chars.option_decode_encode)

definition status_encode :: "HandshakeStatus \<Rightarrow> bytes" where
  "status_encode st = word_encode 4 (case st of
       StatusOk \<Rightarrow> 0 | VersionMismatch \<Rightarrow> 1 | StatusConfigError \<Rightarrow> 2 | PortAllocationFailed \<Rightarrow> 3
     | InvalidToken \<Rightarrow> 4 | TokenExpired \<Rightarrow> 5 | AccessDenied \<Rightarrow> 6 | InvalidConfigHash \<Rightarrow> (7 :: u32))"

definition status_decode :: "bytes \<Rightarrow> (HandshakeStatus \<times> bytes) option" where
  "status_decode bs =
     do { (t :: u32, r) \<leftarrow> word_decode 4 bs;
          if t = 0 then Some (StatusOk, r) else if t = 1 then Some (VersionMismatch, r)
          else if t = 2 then Some (StatusConfigError, r) else if t = 3 then Some (PortAllocationFailed, r)
          else if t = 4 then Some (InvalidToken, r) else if t = 5 then Some (TokenExpired, r)
          else if t = 6 then Some (AccessDenied, r) else if t = 7 then Some (InvalidConfigHash, r)
          else None }"

interpretation status: wire_format status_encode status_decode "\<lambda>_. True"
  by unfold_locales
     (simp add: status_encode_def status_decode_def word32.decode_encode split: HandshakeStatus.split)

fun message_encode :: "ControlMessage \<Rightarrow> bytes" where
  "message_encode (ClientHello v t c ps h) =
     word_encode 4 (0 :: u32) @ word_encode 1 v @ string_encode t
     @ option_encode (word_encode 4) c @ list_encode config_encode ps @ string_encode h"
| "message_encode (ServerHello v st m ports s) =
     word_encode 4 (1 :: u32) @ word_encode 1 v @ status_encode st @ string_encode m
     @ list_encode (word_encode 2) ports @ option_encode string_encode s"
| "message_encode Ping = word_encode 4 (2 :: u32)"
| "message_encode Pong = word_encode 4 (3 :: u32)"

definition message_decode :: "bytes \<Rightarrow> (ControlMessage \<times> bytes) option" where
  "message_decode bs =
     do { (t :: u32, r0) \<leftarrow> word_decode 4 bs;
          if t = 0 then
            do { (v, r1) \<leftarrow> word_decode 1 r0; (k, r2) \<leftarrow> string_decode r1;
                 (c, r3) \<leftarrow> option_decode (word_decode 4) r2;
                 (ps, r4) \<leftarrow> list_decode config_decode r3; (h, r5) \<leftarrow> string_decode r4;
                 Some (ClientHello v k c ps h, r5) }
          else if t = 1 then
            do { (v, r1) \<leftarrow> word_decode 1 r0; (st, r2) \<leftarrow> status_decode r1;
                 (m, r3) \<leftarrow> string_decode r2; (ports, r4) \<leftarrow> list_decode (word_decode 2) r3;
                 (s, r5) \<leftarrow> option_decode string_decode r4;
                 Some (ServerHello v st m ports s, r5) }
          else if t = 2 then Some (Ping, r0)
          else if t = 3 then Some (Pong, r0)
          else None }"

fun message_fits :: "ControlMessage \<Rightarrow> bool" where
  "message_fits (ClientHello v t c ps h) =
     (string_fits t \<and> list_all config_fits ps \<and> length ps < 2 ^ 64 \<and> string_fits h)"
| "message_fits (ServerHello v st m ports s) =
     (string_fits m \<and> length ports < 2 ^ 64 \<and> pred_option string_fits s)"
| "message_fits Ping = True"
| "message_fits Pong = True"

lemma message_decode_encode:
  "message_fits m \<Longrightarrow> message_decode (message_encode m @ rest) = Some (m, rest)"
  by (cases m)
     (simp_all add: message_decode_def option.pred_True list.pred_True word8.decode_encode word32.decode_encode chars.decode_encode
       status.decode_encode word32.option_decode_encode chars.option_decode_encode
       config.list_decode_encode word16.list_decode_encode del: One_nat_def)

definition bincode_serialize :: serialize where
  "bincode_serialize m = (if message_fits m then Ok (message_encode m) else Err ''size limit'')"

definition bincode_deserialize :: deserialize where
  "bincode_deserialize bs =
     (case message_decode bs of None \<Rightarrow> Err ''invalid data'' | Some (m, _) \<Rightarrow> Ok m)"

interpretation bincode: serializer bincode_serialize bincode_deserialize
proof
  fix m data
  assume "bincode_serialize m = Ok data"
  then have "message_fits m" "data = message_encode m"
    by (auto simp: bincode_serialize_def split: if_splits)
  then show "bincode_deserialize data = Ok m"
    using message_decode_encode [of m "[]"] by (simp add: bincode_deserialize_def)
qed

declare le_encode_def [eval_simps] word_encode_def [eval_simps] string_encode_def [eval_simps]
  option_encode_def [eval_simps] list_encode_def [eval_simps] config_encode_def [eval_simps]
  status_encode_def [eval_simps]


section \<open>Properties of the control channel\<close>

abbreviation inverse_serializer :: "serialize \<Rightarrow> deserialize \<Rightarrow> bool" where
  "inverse_serializer ser de \<equiv> (\<forall>m data. ser m = Ok data \<longrightarrow> de data = Ok m)"

text \<open>
  C12. The control channel delivers what is sent: any sequence of messages, each with a payload
  of at most 16 MiB, is written without error, and a peer that reads the bytes reads exactly
  those messages in order and leaves exactly the bytes that follow them. The serializer is
  assumed to be inverted by the deserializer.
\<close>

theorem control_channel_delivers:
  assumes "inverse_serializer ser de" "list_all (control_fits ser) ms" "healthy w"
  shows "\<exists>out. write_seq ser ms w = (Ok (), w\<lparr>wr_data := wr_data w @ out\<rparr>)
    \<and> (\<forall>r rest. rd_data r = out @ rest \<longrightarrow>
         read_seq de (length ms) r = (Ok ms, r\<lparr>rd_data := rest\<rparr>))"
proof -
  have "serializer ser de" using assms(1) by unfold_locales blast
  then show ?thesis
    using serializer.write_seq_fits serializer.read_seq_fits assms(2,3) by blast
qed

theorem control_channel_delivers_witness:
  "\<exists>out. write_seq bincode_serialize [Ping, ClientHello 1 ''t'' None [] ''h'', Pong]
       \<lparr>wr_data = [], wr_fail = None, wr_flush = None\<rparr> =
       (Ok (), \<lparr>wr_data = out, wr_fail = None, wr_flush = None\<rparr>)
    \<and> read_seq bincode_deserialize 3
       \<lparr>rd_data = out @ [7], rd_end = IoError UnexpectedEof ''early eof''\<rparr> =
       (Ok [Ping, ClientHello 1 ''t'' None [] ''h'', Pong],
        \<lparr>rd_data = [7], rd_end = IoError UnexpectedEof ''early eof''\<rparr>)"
proof -
  have inv: "inverse_serializer bincode_serialize bincode_deserialize" using bincode.de_ser by blast
  have fits: "list_all (control_fits bincode_serialize) [Ping, ClientHello 1 ''t'' None [] ''h'', Pong]"
    by (simp add: control_fits_def bincode_serialize_def string_fits_def eval_simps)
  let ?w = "\<lparr>wr_data = [], wr_fail = None, wr_flush = None\<rparr>"
  from control_channel_delivers [OF inv fits, of ?w] obtain out where
    o: "write_seq bincode_serialize [Ping, ClientHello 1 ''t'' None [] ''h'', Pong] ?w
          = (Ok (), ?w\<lparr>wr_data := wr_data ?w @ out\<rparr>)"
       "\<forall>r rest. rd_data r = out @ rest \<longrightarrow>
          read_seq bincode_deserialize (length [Ping, ClientHello 1 ''t'' None [] ''h'', Pong]) r
          = (Ok [Ping, ClientHello 1 ''t'' None [] ''h'', Pong], r\<lparr>rd_data := rest\<rparr>)" by auto
  from o(2) [rule_format, of "\<lparr>rd_data = out @ [7], rd_end = IoError UnexpectedEof ''early eof''\<rparr>" "[7]"] o(1)
  show ?thesis
    by (intro exI [of _ out]) (simp add: numeral_3_eq_3 del: write_seq.simps read_seq.simps)
qed

text \<open>
  C37. Reading a message is bounded whatever the peer sends: at most 16 MiB and four bytes are
  taken from the stream, and a frame that announces more is refused when only its four length
  bytes have been read.
\<close>

theorem read_from_bounded:
  assumes "read_from de r = (res, r')"
  shows "\<exists>used. rd_data r = used @ rd_data r' \<and> length used \<le> 4 + 16 * 1024 * 1024
           \<and> (4 \<le> length (rd_data r) \<and> 16 * 1024 * 1024 < be_nat (take 4 (rd_data r)) \<longrightarrow>
                length used = 4 \<and> res = Err (too_large (word_of_nat (be_nat (take 4 (rd_data r))))))"
  using read_from_consumes [OF assms] by simp

theorem read_from_bounded_witness:
  "\<exists>res r'. read_from bincode_deserialize
       \<lparr>rd_data = [255, 0, 0, 0, 9], rd_end = IoError UnexpectedEof ''early eof''\<rparr> = (res, r')
     \<and> (\<exists>used. [255, 0, 0, 0, 9] = used @ rd_data r' \<and> length used = 4)"
proof -
  let ?r = "\<lparr>rd_data = [255, 0, 0, 0, 9 :: u8], rd_end = IoError UnexpectedEof ''early eof''\<rparr>"
  obtain res r' where e: "read_from bincode_deserialize ?r = (res, r')" by fastforce
  from read_from_bounded [OF e] obtain used where
    u: "rd_data ?r = used @ rd_data r'"
       "4 \<le> length (rd_data ?r) \<and> 16 * 1024 * 1024 < be_nat (take 4 (rd_data ?r)) \<longrightarrow> length used = 4"
    by blast
  have "4 \<le> length (rd_data ?r) \<and> 16 * 1024 * 1024 < be_nat (take 4 (rd_data ?r))"
    by (simp add: eval_simps)
  with u(2) have "length used = 4" by blast
  with e u(1) show ?thesis by (metis Reader.select_convs(1))
qed

text \<open>
  The sender's size check looks at the length cast to 32 bits: a payload of \<open>2 ^ 32 + k\<close> bytes
  with \<open>k\<close> at most 16 MiB passes it and is sent under the length \<open>k\<close>, so the peer takes its
  first \<open>k\<close> bytes for the message and the rest for further frames.
\<close>

theorem write_to_length_wraps:
  assumes "ser m = Ok data" "length data = 2 ^ 32 + k" "k \<le> 16 * 1024 * 1024" "healthy w"
    and "rd_data r = be_bytes 4 k @ data"
  shows "write_to ser m w = (Ok (), w\<lparr>wr_data := wr_data w @ be_bytes 4 k @ data\<rparr>)
    \<and> read_from de r = (from_bytes de (take k data), r\<lparr>rd_data := drop k data\<rparr>)"
proof -
  have k: "length data mod 2 ^ 32 = k" using assms(2,3) by simp
  have f: "be_bytes 4 k @ data = frame (take k data) @ drop k data"
    using assms(2,3) by (simp add: frame_def u32_to_be_bytes_def unat_of_nat)
  have "length (take k data) \<le> max_payload" using assms(3) by simp
  from read_from_frame [OF this, of r "drop k data" de] assms(5) f
  have "read_from de r = (from_bytes de (take k data), r\<lparr>rd_data := drop k data\<rparr>)" by simp
  with write_to_cases [of w ser m data] assms k show ?thesis by (simp add: Let_def)
qed

theorem write_to_length_wraps_witness:
  "fst (write_to (\<lambda>_. Ok (replicate (2 ^ 32 + 3) 0)) Ping \<lparr>wr_data = [], wr_fail = None, wr_flush = None\<rparr>)
     = Ok ()"
proof -
  let ?data = "replicate (2 ^ 32 + 3) (0 :: u8)"
  have "length ?data = 2 ^ 32 + 3" by (rule length_replicate)
  from write_to_length_wraps [of "\<lambda>_. Ok ?data" Ping ?data, OF refl this, of
      "\<lparr>wr_data = [], wr_fail = None, wr_flush = None\<rparr>"
      "\<lparr>rd_data = be_bytes 4 3 @ ?data, rd_end = IoError UnexpectedEof ''early eof''\<rparr>"]
  show ?thesis by (simp del: replicate.simps replicate_add)
qed

end
