(* ===== verification/Reverse_Server.thy ===== *)
theory Reverse_Server
  imports Config_Loader Totp Bincode Transition "HOL-Library.AList"
begin

text \<open>
  The reverse proxy server, \<^verbatim>\<open>src/src/reverse_proxy/server.rs\<close>: the handshake decision, the registry of
  client sessions with its cleanup task, the listeners of a client, and what is sent through
  a tunnel stream.

  The library functions the server calls are the fields of \<open>Lib\<close>: \<open>bincode\<close>, \<open>serde_json\<close>, the
  SHA-256 digest in hexadecimal, and those of \<^verbatim>\<open>Totp\<close>. Instants are natural numbers of
  nanoseconds. A panic is \<open>None\<close>.
\<close>

record Lib =
  ser :: serialize
  de :: deserialize
  json :: "ReverseProxyConfig list \<Rightarrow> string + string"
  sha256_hex :: "string \<Rightarrow> string"
  to_uppercase :: "string \<Rightarrow> string"
  base32_decode :: "string \<Rightarrow> string + bytes"
  hmac_sha1 :: "bytes \<Rightarrow> bytes \<Rightarrow> bytes"

section \<open>The server\<close>

record ReverseProxyServer =
  control_addr :: SocketAddr
  auth_token :: "string option"
  allowed_tokens :: "string list"
  srv_totp_secret :: "string option"
  cleanup_task :: bool

text \<open>\<open>env_token\<close> is the environment variable \<open>REVERSE_PROXY_TOKEN\<close>.\<close>

definition ReverseProxyServer_new :: "string option \<Rightarrow> IpAddr \<Rightarrow> u16 \<Rightarrow> ReverseProxyServer" where
  "ReverseProxyServer_new env_token ip control_port =
     \<lparr>control_addr = SocketAddr_new ip control_port, auth_token = env_token,
      allowed_tokens = [], srv_totp_secret = None, cleanup_task = True\<rparr>"

definition with_totp_secret :: "string option \<Rightarrow> ReverseProxyServer \<Rightarrow> ReverseProxyServer" where
  "with_totp_secret s srv = srv\<lparr>srv_totp_secret := s\<rparr>"

definition new_with_auth ::
  "IpAddr \<Rightarrow> u16 \<Rightarrow> string option \<Rightarrow> string list \<Rightarrow> ReverseProxyServer" where
  "new_with_auth ip control_port tok toks =
     \<lparr>control_addr = SocketAddr_new ip control_port, auth_token = tok,
      allowed_tokens = toks, srv_totp_secret = None, cleanup_task = True\<rparr>"

section \<open>Handshake\<close>

definition server_hello :: "HandshakeStatus \<Rightarrow> string \<Rightarrow> ControlMessage" where
  "server_hello status message = ServerHello PROTOCOL_VERSION status message [] None"

definition token_valid :: "string option \<Rightarrow> string list \<Rightarrow> string \<Rightarrow> bool" where
  "token_valid auth allowed tok =
     (case auth of Some server_token \<Rightarrow> tok = server_token \<or> tok \<in> set allowed | None \<Rightarrow> True)"

text \<open>A secret that is not Base32 is used as it is.\<close>

definition totp_of_secret :: "Lib \<Rightarrow> string \<Rightarrow> Totp" where
  "totp_of_secret lib s =
     (case from_base32 (to_uppercase lib) (base32_decode lib) s of
        Inr t \<Rightarrow> t | Inl _ \<Rightarrow> Totp_new (as_bytes s))"

definition totp_valid :: "Lib \<Rightarrow> u64 \<Rightarrow> string option \<Rightarrow> u32 option \<Rightarrow> bool option" where
  "totp_valid lib now secret_opt code_opt =
     (case secret_opt of None \<Rightarrow> Some True
      | Some s \<Rightarrow>
        (case code_opt of None \<Rightarrow> Some False
         | Some code \<Rightarrow> verify (hmac_sha1 lib) (totp_of_secret lib s) now code))"

text \<open>
  The verdict on a hello: an answer to send before failing, a failure without an answer, or
  the answer of an accepted client.
\<close>

datatype Verdict =
    Refuse ControlMessage AppError
  | Abort AppError
  | Accept ControlMessage

definition session_id_text :: "nat \<Rightarrow> SocketAddr \<Rightarrow> string" where
  "session_id_text secs addr = ''session_'' @ nat_to_string secs @ ''_'' @ show_sockaddr addr"

definition accept_hello :: "u64 \<Rightarrow> SocketAddr \<Rightarrow> ReverseProxyConfig list \<Rightarrow> ControlMessage" where
  "accept_hello now addr proxy_configs =
     ServerHello PROTOCOL_VERSION StatusOk
       (''Connected, '' @ nat_to_string (length proxy_configs) @ '' ports allocated'')
       (map server_port proxy_configs) (Some (session_id_text (unat now) addr))"

definition check_hello ::
  "Lib \<Rightarrow> ReverseProxyServer \<Rightarrow> u64 \<Rightarrow> SocketAddr
   \<Rightarrow> u8 \<Rightarrow> string \<Rightarrow> u32 option \<Rightarrow> ReverseProxyConfig list \<Rightarrow> string \<Rightarrow> Verdict option" where
  "check_hello lib srv now addr version tok code proxy_configs config_hash =
     (if version \<noteq> PROTOCOL_VERSION then
        Some (Refuse (server_hello VersionMismatch
                        (''Unsupported version: '' @ nat_to_string (unat version)))
                     (ReverseProxy (UnsupportedVersion version)))
      else if \<not> token_valid (auth_token srv) (allowed_tokens srv) tok then
        Some (Refuse (server_hello InvalidToken ''Invalid or missing authentication token'')
                     (ReverseProxy (HandshakeFailed ''Authentication failed (Token)'')))
      else
        (case totp_valid lib now (srv_totp_secret srv) code of
           None \<Rightarrow> None
         | Some False \<Rightarrow>
             Some (Refuse (server_hello InvalidToken ''Invalid or missing TOTP code'')
                          (ReverseProxy (HandshakeFailed ''Authentication failed (TOTP)'')))
         | Some True \<Rightarrow>
           (case json lib proxy_configs of
              Inl e \<Rightarrow> Some (Abort (ReverseProxy (SerializationFailed e)))
            | Inr expected_config_json \<Rightarrow>
                if sha256_hex lib expected_config_json \<noteq> config_hash then
                  Some (Refuse (server_hello InvalidConfigHash ''Configuration hash mismatch'')
                               (ReverseProxy (HandshakeFailed ''Configuration integrity check failed'')))
                else if proxy_configs = [] then
                  Some (Refuse (server_hello StatusConfigError ''No proxy configurations provided'')
                               (ReverseProxy (HandshakeFailed ''No proxies'')))
                else
                  Some (Accept (accept_hello now addr proxy_configs)))))"

text \<open>The first part of \<open>handle_client\<close>, up to the answer.\<close>

definition server_handshake ::
  "Lib \<Rightarrow> ReverseProxyServer \<Rightarrow> u64 \<Rightarrow> SocketAddr \<Rightarrow> Reader \<Rightarrow> Writer
   \<Rightarrow> ((AppError + ReverseProxyConfig list) \<times> Reader \<times> Writer) option" where
  "server_handshake lib srv now addr r w =
     (case read_from (de lib) r of
        (Inl e, r1) \<Rightarrow> Some (Err e, r1, w)
      | (Inr (ClientHello version tok code proxy_configs config_hash), r1) \<Rightarrow>
          (case check_hello lib srv now addr version tok code proxy_configs config_hash of
             None \<Rightarrow> None
           | Some (Abort e) \<Rightarrow> Some (Err e, r1, w)
           | Some (Refuse response e) \<Rightarrow>
               (case write_to (ser lib) response w of
                  (Inl e', w1) \<Rightarrow> Some (Err e', r1, w1)
                | (Inr _, w1) \<Rightarrow> Some (Err e, r1, w1))
           | Some (Accept response) \<Rightarrow>
               (case write_to (ser lib) response w of
                  (Inl e', w1) \<Rightarrow> Some (Err e', r1, w1)
                | (Inr _, w1) \<Rightarrow> Some (Ok proxy_configs, r1, w1)))
      | (Inr _, r1) \<Rightarrow> Some (Err (ReverseProxy (ProtocolError ''Expected ClientHello'')), r1, w))"

section \<open>The registry of sessions\<close>

text \<open>
  A listener task is a number; \<open>tasks\<close> holds those that run, each with its client, protocol and
  port. \<open>pending\<close> holds the listener handles a handler has spawned and not yet stored in a
  session, \<open>connected\<close> the clients whose handler runs.
\<close>

datatype Proto = TcpProto | UdpProto

record ClientSession =
  cs_proxies :: "ReverseProxyConfig list"
  cs_listeners :: "nat list"
  last_activity :: nat

definition ClientSession_new ::
  "ReverseProxyConfig list \<Rightarrow> nat list \<Rightarrow> nat \<Rightarrow> ClientSession" where
  "ClientSession_new ps ls now = \<lparr>cs_proxies = ps, cs_listeners = ls, last_activity = now\<rparr>"

definition update_activity :: "nat \<Rightarrow> ClientSession \<Rightarrow> ClientSession" where
  "update_activity now s = s\<lparr>last_activity := now\<rparr>"

record Registry =
  clients :: "(string \<times> ClientSession) list"
  tasks :: "nat \<rightharpoonup> string \<times> Proto \<times> u16"
  next_task :: nat
  pending :: "string \<rightharpoonup> ReverseProxyConfig list \<times> nat list"
  connected :: "string set"

definition Registry_new :: Registry where
  "Registry_new = \<lparr>clients = [], tasks = Map.empty, next_task = 0, pending = Map.empty,
                   connected = {}\<rparr>"

definition abort_tasks :: "nat list \<Rightarrow> Registry \<Rightarrow> Registry" where
  "abort_tasks ts s = s\<lparr>tasks := (\<lambda>t. if t \<in> set ts then None else tasks s t)\<rparr>"

definition spawn_task :: "string \<Rightarrow> Proto \<Rightarrow> u16 \<Rightarrow> Registry \<Rightarrow> nat \<times> Registry" where
  "spawn_task cid proto port s =
     (next_task s, s\<lparr>tasks := (tasks s)(next_task s \<mapsto> (cid, proto, port)),
                     next_task := Suc (next_task s)\<rparr>)"

text \<open>
  The loop that binds the ports. \<open>outcomes\<close> tells for each configuration whether the TCP and the
  UDP bind succeed; UDP is tried only after TCP.
\<close>

fun bind_loop ::
  "string \<Rightarrow> (ReverseProxyConfig \<times> bool \<times> bool) list \<Rightarrow> Registry \<Rightarrow> nat list \<times> Registry" where
  "bind_loop cid [] s = ([], s)"
| "bind_loop cid ((config, tcp_ok, udp_ok) # cs) s =
     (if tcp_ok then
        (let (h, s1) = spawn_task cid TcpProto (server_port config) s;
             (hs, s2) = (if udp_ok
                         then (let (u, s') = spawn_task cid UdpProto (server_port config) s1 in ([u], s'))
                         else ([], s1));
             (rest, s3) = bind_loop cid cs s2
         in (h # hs @ rest, s3))
      else bind_loop cid cs s)"

definition bind_listeners ::
  "string \<Rightarrow> ReverseProxyConfig list \<Rightarrow> (bool \<times> bool) list \<Rightarrow> Registry \<Rightarrow> Registry" where
  "bind_listeners cid configs outcomes s =
     (let (hs, s') = bind_loop cid (zip configs outcomes) s
      in s'\<lparr>pending := (pending s')(cid \<mapsto> (configs, hs)), connected := insert cid (connected s')\<rparr>)"

definition store_session :: "string \<Rightarrow> nat \<Rightarrow> Registry \<Rightarrow> Registry" where
  "store_session cid now s =
     (case pending s cid of None \<Rightarrow> s
      | Some (configs, hs) \<Rightarrow>
          s\<lparr>clients := AList.update cid (ClientSession_new configs hs now) (clients s),
            pending := (pending s)(cid := None)\<rparr>)"

text \<open>Taking a session out of the map and aborting its listeners, if it is there.\<close>

definition remove_session :: "string \<Rightarrow> Registry \<Rightarrow> Registry" where
  "remove_session cid s =
     (case map_of (clients s) cid of None \<Rightarrow> s
      | Some session \<Rightarrow>
          abort_tasks (cs_listeners session) (s\<lparr>clients := AList.delete cid (clients s)\<rparr>))"

text \<open>The end of \<open>handle_client\<close>.\<close>

definition remove_client :: "string \<Rightarrow> Registry \<Rightarrow> Registry" where
  "remove_client cid s = remove_session cid (s\<lparr>connected := connected s - {cid}\<rparr>)"

text \<open>One tick of the cleanup task; \<open>duration_since\<close> is zero for an instant in the future.\<close>

definition inactive :: "nat \<Rightarrow> ClientSession \<Rightarrow> bool" where
  "inactive now session = (300 * 10 ^ 9 < now - last_activity session)"

definition to_remove :: "nat \<Rightarrow> Registry \<Rightarrow> string list" where
  "to_remove now s = map fst (filter (\<lambda>(_, session). inactive now session) (clients s))"

definition cleanup_tick :: "nat \<Rightarrow> Registry \<Rightarrow> Registry" where
  "cleanup_tick now s = fold remove_session (to_remove now s) s"

section \<open>Tunnels\<close>

text \<open>
  A request from a listener task. A TCP stream is the bytes its peer sends until it closes its
  side.
\<close>

record TunnelRequest =
  tr_tcp_stream :: "bytes option"
  tr_udp_socket :: bool
  tr_target_port :: u16
  tr_udp_data :: "bytes option"
  tr_udp_peer :: "SocketAddr option"

definition tcp_request :: "u16 \<Rightarrow> bytes \<Rightarrow> TunnelRequest" where
  "tcp_request port stream =
     \<lparr>tr_tcp_stream = Some stream, tr_udp_socket = False, tr_target_port = port,
      tr_udp_data = None, tr_udp_peer = None\<rparr>"

definition udp_request :: "u16 \<Rightarrow> bytes \<Rightarrow> SocketAddr \<Rightarrow> TunnelRequest" where
  "udp_request port data peer =
     \<lparr>tr_tcp_stream = None, tr_udp_socket = True, tr_target_port = port,
      tr_udp_data = Some data, tr_udp_peer = Some peer\<rparr>"

text \<open>The four-byte header, with the source's shift and casts.\<close>

definition tunnel_header :: "u8 \<Rightarrow> u16 \<Rightarrow> bytes" where
  "tunnel_header kind port = [kind, 0x00, ucast (drop_bit 8 port), ucast port]"

text \<open>
  The loop that reads framed responses: the datagrams to send to the peer. It ends at the end
  of the stream or inside a frame.
\<close>

function udp_response_loop :: "Reader \<Rightarrow> bytes list" where
  "udp_response_loop r =
     (case read_exact 2 r of
        (Inl _, _) \<Rightarrow> []
      | (Inr len_bytes, r1) \<Rightarrow>
          (case read_exact (unat (u16_from_be_bytes len_bytes)) r1 of
             (Inl _, _) \<Rightarrow> []
           | (Inr response_buf, r2) \<Rightarrow> response_buf # udp_response_loop r2))"
  by pat_completeness auto
termination
  by (relation "measure (\<lambda>r. length (rd_data r))") (auto simp: read_exact_def split: if_splits)

datatype PeerAction =
    ToTcpPeer bytes
  | ToUdpPeer SocketAddr bytes

text \<open>
  The task that serves a request on an open stream. \<open>copy_bidirectional\<close> passes on what the peer
  sends and delivers what comes back.
\<close>

definition serve_request ::
  "TunnelRequest \<Rightarrow> Reader \<Rightarrow> Writer \<Rightarrow> PeerAction list \<times> Writer" where
  "serve_request request r w =
     (case tr_tcp_stream request of
        Some stream \<Rightarrow>
          (case write_all (tunnel_header 0x01 (tr_target_port request)) w of
             (Inl _, w1) \<Rightarrow> ([], w1)
           | (Inr _, w1) \<Rightarrow> ([ToTcpPeer (rd_data r)], snd (write_all stream w1)))
      | None \<Rightarrow>
          (case (tr_udp_data request, tr_udp_peer request) of
             (Some udp_data, Some peer) \<Rightarrow>
               (case write_all (tunnel_header 0x02 (tr_target_port request)) w of
                  (Inl _, w1) \<Rightarrow> ([], w1)
                | (Inr _, w1) \<Rightarrow>
                    (case write_all (u16_to_be_bytes (word_of_nat (length udp_data))) w1 of
                       (Inl _, w2) \<Rightarrow> ([], w2)
                     | (Inr _, w2) \<Rightarrow>
                         (case write_all udp_data w2 of
                            (Inl _, w3) \<Rightarrow> ([], w3)
                          | (Inr _, w3) \<Rightarrow>
                              (if tr_udp_socket request
                               then map (ToUdpPeer peer) (udp_response_loop r) else [],
                               snd (flush w3)))))
           | _ \<Rightarrow> ([], w)))"

section \<open>The handler\<close>

text \<open>
  What the main loop of a handler may see: a request and whether a stream could be opened for
  it, an inbound stream, a connection error, the end of the connection.
\<close>

datatype LoopEvent =
    Request TunnelRequest bool
  | InboundStream
  | YamuxError
  | YamuxClosed

fun handler_loop :: "LoopEvent list \<Rightarrow> TunnelRequest list" where
  "handler_loop [] = []"
| "handler_loop (Request req opened # evs) = (if opened then req # handler_loop evs else handler_loop evs)"
| "handler_loop (InboundStream # evs) = handler_loop evs"
| "handler_loop (YamuxError # evs) = []"
| "handler_loop (YamuxClosed # evs) = []"

text \<open>
  The whole handler, run without interruption: the handshake, and if it succeeds the listeners,
  the session, the loop and the cleanup. The result is what \<open>handle_client\<close> returns and the
  requests it served.
\<close>

definition handle_client ::
  "Lib \<Rightarrow> ReverseProxyServer \<Rightarrow> u64 \<Rightarrow> nat \<Rightarrow> SocketAddr \<Rightarrow> (bool \<times> bool) list \<Rightarrow> LoopEvent list
   \<Rightarrow> Reader \<Rightarrow> Writer \<Rightarrow> Registry
   \<Rightarrow> ((AppError + TunnelRequest list) \<times> Reader \<times> Writer \<times> Registry) option" where
  "handle_client lib srv now instant addr outcomes evs r w s =
     (case server_handshake lib srv now addr r w of
        None \<Rightarrow> None
      | Some (Inl e, r1, w1) \<Rightarrow> Some (Err e, r1, w1, s)
      | Some (Inr configs, r1, w1) \<Rightarrow>
          (let cid = show_sockaddr addr;
               s1 = bind_listeners cid configs outcomes s;
               s2 = store_session cid instant s1
           in Some (Ok (handler_loop evs), r1, w1, remove_client cid s2)))"

text \<open>
  The accept loop of \<open>start\<close>: the addresses for which a handler is spawned until shutdown. The
  sessions are left alone.
\<close>

datatype AcceptEvent =
    Accepted SocketAddr
  | AcceptError IoError
  | Shutdown

fun accept_loop :: "AcceptEvent list \<Rightarrow> SocketAddr list \<times> bool" where
  "accept_loop [] = ([], False)"
| "accept_loop (Accepted addr # evs) = apfst ((#) addr) (accept_loop evs)"
| "accept_loop (AcceptError e # evs) = accept_loop evs"
| "accept_loop (Shutdown # evs) = ([], True)"

definition server_start ::
  "(SocketAddr \<Rightarrow> IoError option) \<Rightarrow> ReverseProxyServer \<Rightarrow> AcceptEvent list
   \<Rightarrow> AppError + SocketAddr list \<times> bool" where
  "server_start bind_result srv evs =
     (case bind_result (control_addr srv) of
        Some e \<Rightarrow> Err (Io e)
      | None \<Rightarrow> Ok (accept_loop evs))"

definition server_drop :: "ReverseProxyServer \<Rightarrow> ReverseProxyServer" where
  "server_drop srv = srv\<lparr>cleanup_task := False\<rparr>"

section \<open>Interleavings of handlers and the cleanup task\<close>

inductive registry_step :: "Registry \<Rightarrow> Registry \<Rightarrow> bool" where
  bind: "cid \<notin> connected s \<Longrightarrow> length outcomes = length configs \<Longrightarrow>
         registry_step s (bind_listeners cid configs outcomes s)"
| store: "cid \<in> connected s \<Longrightarrow> registry_step s (store_session cid now s)"
| close: "cid \<in> connected s \<Longrightarrow> pending s cid = None \<Longrightarrow> registry_step s (remove_client cid s)"
| tick: "registry_step s (cleanup_tick now s)"

inductive_cases registry_stepE: "registry_step s t"

section \<open>The registry invariant\<close>

definition registry_inv :: "Registry \<Rightarrow> bool" where
  "registry_inv s \<longleftrightarrow>
     distinct (map fst (clients s))
     \<and> (\<forall>t cid pr port. tasks s t = Some (cid, pr, port) \<longrightarrow>
          t < next_task s \<and> cid \<in> connected s
          \<and> ((\<exists>cfg hs. pending s cid = Some (cfg, hs) \<and> t \<in> set hs)
             \<or> (\<exists>ses. map_of (clients s) cid = Some ses \<and> t \<in> set (cs_listeners ses))))
     \<and> (\<forall>cid cfg hs. pending s cid = Some (cfg, hs) \<longrightarrow>
          cid \<in> connected s \<and> map_of (clients s) cid = None)
     \<and> (\<forall>cid ses. map_of (clients s) cid = Some ses \<longrightarrow> cid \<in> connected s)"

lemma registry_invI:
  assumes "distinct (map fst (clients s))"
    and "\<And>t cid pr port. tasks s t = Some (cid, pr, port) \<Longrightarrow>
          t < next_task s \<and> cid \<in> connected s
          \<and> ((\<exists>cfg hs. pending s cid = Some (cfg, hs) \<and> t \<in> set hs)
             \<or> (\<exists>ses. map_of (clients s) cid = Some ses \<and> t \<in> set (cs_listeners ses)))"
    and "\<And>cid cfg hs. pending s cid = Some (cfg, hs) \<Longrightarrow>
          cid \<in> connected s \<and> map_of (clients s) cid = None"
    and "\<And>cid ses. map_of (clients s) cid = Some ses \<Longrightarrow> cid \<in> connected s"
  shows "registry_inv s"
  using assms unfolding registry_inv_def by blast

lemma registry_inv_task:
  "registry_inv s \<Longrightarrow> tasks s t = Some (cid, pr, port) \<Longrightarrow>
     t < next_task s \<and> cid \<in> connected s
     \<and> ((\<exists>cfg hs. pending s cid = Some (cfg, hs) \<and> t \<in> set hs)
        \<or> (\<exists>ses. map_of (clients s) cid = Some ses \<and> t \<in> set (cs_listeners ses)))"
  unfolding registry_inv_def by blast

lemma registry_inv_pending:
  "registry_inv s \<Longrightarrow> pending s cid = Some p \<Longrightarrow> cid \<in> connected s \<and> map_of (clients s) cid = None"
  unfolding registry_inv_def by (cases p) blast

lemma registry_inv_session:
  "registry_inv s \<Longrightarrow> map_of (clients s) cid = Some ses \<Longrightarrow> cid \<in> connected s"
  unfolding registry_inv_def by blast

lemma registry_inv_distinct: "registry_inv s \<Longrightarrow> distinct (map fst (clients s))"
  unfolding registry_inv_def by blast

lemma registry_inv_fresh:
  assumes "registry_inv s" "cid \<notin> connected s"
  shows "map_of (clients s) cid = None" "pending s cid = None"
  using assms by (cases "map_of (clients s) cid"; cases "pending s cid";
      auto dest: registry_inv_session registry_inv_pending)+

lemma bind_loop_tcp_udp:
  "bind_loop cid ((config, True, udp_ok) # cs) s =
     (let s1 = snd (spawn_task cid TcpProto (server_port config) s);
          s2 = (if udp_ok then snd (spawn_task cid UdpProto (server_port config) s1) else s1);
          r = bind_loop cid cs s2
      in (next_task s # (if udp_ok then [next_task s1] else []) @ fst r, snd r))"
  by (simp add: spawn_task_def Let_def split: prod.split)

lemma bind_loop_spec:
  "bind_loop cid cs s = (hs, s') \<Longrightarrow>
     clients s' = clients s \<and> pending s' = pending s \<and> connected s' = connected s
     \<and> next_task s \<le> next_task s' \<and> set hs = {next_task s..<next_task s'}
     \<and> (\<forall>t. t \<notin> set hs \<longrightarrow> tasks s' t = tasks s t)
     \<and> (\<forall>t \<in> set hs. \<exists>pr port. tasks s' t = Some (cid, pr, port))"
proof (induction cs arbitrary: hs s s')
  case (Cons c cs)
  obtain config tcp_ok udp_ok where c: "c = (config, tcp_ok, udp_ok)" by (metis prod_cases3)
  show ?case
  proof (cases tcp_ok)
    case False
    with Cons c show ?thesis by simp
  next
    case True
    define s1 where "s1 = snd (spawn_task cid TcpProto (server_port config) s)"
    define s2 where "s2 = (if udp_ok then snd (spawn_task cid UdpProto (server_port config) s1) else s1)"
    obtain rest s3 where r: "bind_loop cid cs s2 = (rest, s3)" by fastforce
    with Cons.prems True c have e: "hs = next_task s # (if udp_ok then [next_task s1] else []) @ rest" "s' = s3"
      by (simp_all only: bind_loop_tcp_udp Let_def flip: s1_def s2_def) auto
    have f: "clients s2 = clients s" "pending s2 = pending s" "connected s2 = connected s"
      "next_task s1 = Suc (next_task s)" "next_task s2 = (if udp_ok then Suc (Suc (next_task s)) else Suc (next_task s))"
      "tasks s2 = (if udp_ok then (tasks s)(next_task s \<mapsto> (cid, TcpProto, server_port config),
          Suc (next_task s) \<mapsto> (cid, UdpProto, server_port config))
         else (tasks s)(next_task s \<mapsto> (cid, TcpProto, server_port config)))"
      by (simp_all add: s1_def s2_def spawn_task_def)
    from Cons.IH [OF r] f e show ?thesis by (cases udp_ok) auto
  qed
qed simp

lemma bind_listeners_inv:
  assumes "registry_inv s" "cid \<notin> connected s"
  shows "registry_inv (bind_listeners cid configs outcomes s)"
proof -
  obtain hs s' where b: "bind_loop cid (zip configs outcomes) s = (hs, s')" by fastforce
  from bind_loop_spec [OF b] have sp: "clients s' = clients s" "pending s' = pending s"
    "connected s' = connected s" "next_task s \<le> next_task s'" "set hs = {next_task s..<next_task s'}"
    and keep: "\<And>t. t \<notin> set hs \<Longrightarrow> tasks s' t = tasks s t"
    and own: "\<And>t. t \<in> set hs \<Longrightarrow> \<exists>pr port. tasks s' t = Some (cid, pr, port)"
    by auto
  let ?s = "s'\<lparr>pending := (pending s')(cid \<mapsto> (configs, hs)), connected := insert cid (connected s')\<rparr>"
  have bl: "bind_listeners cid configs outcomes s = ?s" using b by (simp add: bind_listeners_def)
  note new = registry_inv_fresh [OF assms]
  show ?thesis unfolding bl
  proof (rule registry_invI, goal_cases)
    case 1
    then show ?case using sp assms by (simp add: registry_inv_distinct)
  next
    case (2 t c pr port)
    then have tt: "tasks s' t = Some (c, pr, port)" by simp
    show ?case
    proof (cases "t \<in> set hs")
      case True
      with own [OF True] tt sp show ?thesis by auto
    next
      case False
      with keep tt have "tasks s t = Some (c, pr, port)" by simp
      from registry_inv_task [OF assms(1) this] sp assms(2) show ?thesis by auto
    qed
  next
    case (3 c cfg hs)
    then show ?case using sp new registry_inv_pending [OF assms(1), of c]
      by (cases "c = cid") auto
  next
    case (4 c ses)
    then show ?case using sp registry_inv_session [OF assms(1), of c] by simp
  qed
qed

lemma store_session_inv:
  assumes "registry_inv s"
  shows "registry_inv (store_session cid now s)"
proof (cases "pending s cid")
  case None
  with assms show ?thesis by (simp add: store_session_def)
next
  case (Some p)
  obtain configs hs where p: "p = (configs, hs)" by fastforce
  with Some have st: "store_session cid now s =
     s\<lparr>clients := AList.update cid (ClientSession_new configs hs now) (clients s), pending := (pending s)(cid := None)\<rparr>"
    by (simp add: store_session_def)
  note pc = registry_inv_pending [OF assms Some]
  show ?thesis unfolding st
  proof (rule registry_invI, goal_cases)
    case 1
    then show ?case using assms by (simp add: registry_inv_distinct distinct_update)
  next
    case (2 t c pr port)
    then show ?case using registry_inv_task [OF assms, of t c pr port] Some p pc
      by (auto simp: update_conv' ClientSession_new_def)
  next
    case (3 c cfg hs)
    then show ?case using registry_inv_pending [OF assms, of c] by (auto simp: update_conv' split: if_splits)
  next
    case (4 c ses)
    then show ?case using registry_inv_session [OF assms, of c] pc by (auto simp: update_conv' split: if_splits)
  qed
qed

lemma remove_session_inv:
  assumes "registry_inv s"
  shows "registry_inv (remove_session cid s)"
proof (cases "map_of (clients s) cid")
  case None
  with assms show ?thesis by (simp add: remove_session_def)
next
  case (Some ses)
  then have rm: "remove_session cid s = abort_tasks (cs_listeners ses) (s\<lparr>clients := AList.delete cid (clients s)\<rparr>)"
    by (simp add: remove_session_def)
  have np: "pending s cid = None" using Some registry_inv_pending [OF assms, of cid] by (cases "pending s cid") auto
  show ?thesis unfolding rm
  proof (rule registry_invI, goal_cases)
    case 1
    then show ?case using assms by (simp add: abort_tasks_def registry_inv_distinct distinct_delete)
  next
    case (2 t c pr port)
    then show ?case using registry_inv_task [OF assms, of t c pr port] Some np
      by (auto simp: abort_tasks_def delete_conv' split: if_splits)
  next
    case (3 c cfg hs)
    then show ?case using registry_inv_pending [OF assms, of c] by (auto simp: abort_tasks_def delete_conv')
  next
    case (4 c ses)
    then show ?case using registry_inv_session [OF assms, of c] by (auto simp: abort_tasks_def delete_conv' split: if_splits)
  qed
qed

text \<open>After its session is removed, a client that is not about to store one owns no task.\<close>

lemma remove_session_tasks:
  assumes "registry_inv s" "pending s cid = None" "tasks (remove_session cid s) t = Some (c, pr, port)"
  shows "c \<noteq> cid"
  using assms registry_inv_task [OF assms(1), of t c pr port]
  by (auto simp: remove_session_def abort_tasks_def split: option.splits if_splits)

lemma remove_session_fields [simp]:
  "pending (remove_session cid s) = pending s"
  "connected (remove_session cid s) = connected s"
  "next_task (remove_session cid s) = next_task s"
  by (simp_all add: remove_session_def abort_tasks_def split: option.splits)

lemma remove_session_connected:
  "remove_session cid (s\<lparr>connected := X\<rparr>) = (remove_session cid s)\<lparr>connected := X\<rparr>"
  by (cases s) (simp add: remove_session_def abort_tasks_def split: option.splits cong: if_cong)

lemma remove_client_inv:
  assumes "registry_inv s" "pending s cid = None"
  shows "registry_inv (remove_client cid s)"
proof -
  have i: "registry_inv (remove_session cid s)" by (rule remove_session_inv [OF assms(1)])
  have m: "map_of (clients (remove_session cid s)) cid = None"
    by (simp add: remove_session_def abort_tasks_def delete_conv' split: option.splits)
  show ?thesis unfolding remove_client_def remove_session_connected
  proof (rule registry_invI, goal_cases)
    case 1
    then show ?case using registry_inv_distinct [OF i] by simp
  next
    case (2 t c pr port)
    then show ?case using registry_inv_task [OF i, of t c pr port]
       remove_session_tasks [OF assms, of t c pr port] by simp
  next
    case (3 c cfg hs)
    then show ?case using registry_inv_pending [OF i, of c] assms(2) by (cases "c = cid") auto
  next
    case (4 c ses)
    then show ?case using registry_inv_session [OF i, of c] m by (cases "c = cid") auto
  qed
qed

lemma fold_remove_inv: "registry_inv s \<Longrightarrow> registry_inv (fold remove_session cids s)"
  by (induction cids arbitrary: s) (simp_all add: remove_session_inv)

lemma cleanup_tick_inv: "registry_inv s \<Longrightarrow> registry_inv (cleanup_tick now s)"
  by (simp add: cleanup_tick_def fold_remove_inv)

interpretation registry: invariant "\<lambda>s. s = Registry_new" registry_step registry_inv
proof
  show "registry_inv s" if "s = Registry_new" for s
    using that by (simp add: registry_inv_def Registry_new_def)
  show "registry_inv t" if "registry_inv s" "registry_step s t" for s t
    using that(2,1)
    by (cases rule: registry_stepE)
       (auto intro: bind_listeners_inv store_session_inv remove_client_inv cleanup_tick_inv)
qed


lemma to_remove_iff:
  "registry_inv s \<Longrightarrow>
   cid \<in> set (to_remove now s) \<longleftrightarrow> (\<exists>ses. map_of (clients s) cid = Some ses \<and> inactive now ses)"
  by (auto simp: to_remove_def registry_inv_distinct intro: rev_image_eqI)

lemma fold_remove_fields [simp]:
  "pending (fold remove_session cids s) = pending s"
  "connected (fold remove_session cids s) = connected s"
  by (induction cids arbitrary: s) simp_all

lemma remove_session_tasks_sub: "tasks (remove_session cid s) t = Some x \<Longrightarrow> tasks s t = Some x"
  by (auto simp: remove_session_def abort_tasks_def split: option.splits if_splits)

lemma fold_remove_tasks_sub:
  "tasks (fold remove_session cids s) t = Some x \<Longrightarrow> tasks s t = Some x"
proof (induction cids arbitrary: s)
  case (Cons d ds)
  from Cons.IH [of "remove_session d s"] Cons.prems remove_session_tasks_sub [of d s t x]
  show ?case by simp
qed simp

lemma fold_remove_tasks:
  assumes "registry_inv s" "cid \<in> set cids" "pending s cid = None"
    "tasks (fold remove_session cids s) t = Some (c, pr, port)"
  shows "c \<noteq> cid"
  using assms
proof (induction cids arbitrary: s)
  case (Cons d ds)
  show ?case
  proof (cases "cid = d")
    case True
    have "tasks (remove_session d s) t = Some (c, pr, port)"
      by (rule fold_remove_tasks_sub) (use Cons.prems in simp)
    with remove_session_tasks [OF Cons.prems(1,3)] True show ?thesis by blast
  next
    case False
    with Cons remove_session_inv [of s d] show ?thesis by simp
  qed
qed simp

lemma map_of_remove_session:
  "map_of (clients (remove_session d s)) c = (if c = d then None else map_of (clients s) c)"
  by (simp add: remove_session_def abort_tasks_def delete_conv' split: option.splits)

lemma map_of_fold_remove:
  "map_of (clients (fold remove_session cids s)) c = (if c \<in> set cids then None else map_of (clients s) c)"
  by (induction cids arbitrary: s) (auto simp: map_of_remove_session)

text \<open>
  C2. No listener outlives its client. In every interleaving of handlers and cleanup ticks, a
  running listener task belongs to a client whose handler still runs, and the cleanup at the
  end of that handler stops every listener the client has.
\<close>

theorem no_listener_outlives_its_client:
  assumes "reach (\<lambda>s. s = Registry_new) registry_step s" "tasks s t = Some (cid, pr, port)"
  shows "cid \<in> connected s
    \<and> (\<forall>t' pr' port'. pending s cid = None \<longrightarrow> tasks (remove_client cid s) t' \<noteq> Some (cid, pr', port'))"
  using registry_inv_task [OF registry.reach_inv [OF assms(1)] assms(2)]
    remove_session_tasks [OF registry.reach_inv [OF assms(1)], of cid]
  by (auto simp: remove_client_def remove_session_connected)

text \<open>Two states of the registry: one client binding its ports, then with its session stored.\<close>

definition sample_rp_config :: ReverseProxyConfig where
  "sample_rp_config =
     \<lparr>server_port = 7000, server_host = None, local_host = ''localhost'', local_port = 8080\<rparr>"

definition sample_bound :: Registry where
  "sample_bound = bind_listeners ''c'' [sample_rp_config] [(True, True)] Registry_new"

definition sample_stored :: Registry where
  "sample_stored = store_session ''c'' 0 sample_bound"

lemma sample_bound_reach: "reach (\<lambda>s. s = Registry_new) registry_step sample_bound"
  unfolding sample_bound_def
proof (rule reach_step)
  show "reach (\<lambda>s. s = Registry_new) registry_step Registry_new" by (rule reach_init) simp
  show "registry_step Registry_new (bind_listeners ''c'' [sample_rp_config] [(True, True)] Registry_new)"
    by (rule bind) (simp_all add: Registry_new_def)
qed

lemma sample_bound_fields:
  "tasks sample_bound 0 = Some (''c'', TcpProto, 7000)" "''c'' \<in> connected sample_bound"
  "pending sample_bound ''c'' = Some ([sample_rp_config], [0, 1])"
  by (simp_all add: sample_bound_def bind_listeners_def spawn_task_def Registry_new_def
      sample_rp_config_def)

lemma sample_stored_reach: "reach (\<lambda>s. s = Registry_new) registry_step sample_stored"
  unfolding sample_stored_def
  by (rule reach_step [OF sample_bound_reach]) (rule store [OF sample_bound_fields(2)])

lemma sample_stored_client:
  "map_of (clients sample_stored) ''c'' = Some (ClientSession_new [sample_rp_config] [0, 1] 0)"
  by (simp add: sample_stored_def store_session_def sample_bound_fields update_conv')

theorem no_listener_outlives_its_client_witness:
  "''c'' \<in> connected sample_bound"
  using no_listener_outlives_its_client [OF sample_bound_reach sample_bound_fields(1)] by blast

text \<open>
  The cleanup task looks at the time a session was stored, which nothing ever updates: at a
  tick more than five minutes later the session is removed and every listener of the client is
  stopped although its handler still runs, however busy the client is; until then the
  session is kept unchanged.
\<close>

theorem cleanup_stops_connected_clients:
  assumes "reach (\<lambda>s. s = Registry_new) registry_step s" "map_of (clients s) cid = Some ses"
  shows "cid \<in> connected (cleanup_tick now s)
    \<and> (if 300 * 10 ^ 9 < now - last_activity ses
       then map_of (clients (cleanup_tick now s)) cid = None
         \<and> (\<forall>t pr port. tasks (cleanup_tick now s) t \<noteq> Some (cid, pr, port))
       else map_of (clients (cleanup_tick now s)) cid = Some ses)"
proof -
  note inv = registry.reach_inv [OF assms(1)]
  have p: "pending s cid = None"
    using registry_inv_pending [OF inv] assms(2) by (metis not_None_eq option.simps(3))
  have "cid \<in> set (to_remove now s) \<longleftrightarrow> inactive now ses"
    using to_remove_iff [OF inv] assms(2) by simp
  moreover have "tasks (cleanup_tick now s) t \<noteq> Some (cid, pr, port)" if "cid \<in> set (to_remove now s)" for t pr port
    using fold_remove_tasks [OF inv that p] unfolding cleanup_tick_def by blast
  ultimately show ?thesis
    using registry_inv_session [OF inv assms(2)] assms(2)
    by (auto simp: cleanup_tick_def map_of_fold_remove inactive_def)
qed


theorem cleanup_stops_connected_clients_witness:
  "''c'' \<in> connected (cleanup_tick (301 * 10 ^ 9) sample_stored)
   \<and> map_of (clients (cleanup_tick (301 * 10 ^ 9) sample_stored)) ''c'' = None"
  using cleanup_stops_connected_clients [OF sample_stored_reach sample_stored_client, of "301 * 10 ^ 9"]
  by (simp add: ClientSession_new_def)

section \<open>Runs of the handler\<close>

lemma delete_update_fresh: "cid \<notin> fst ` set al \<Longrightarrow> AList.delete cid (AList.update cid x al) = al"
  by (induction al) (auto simp: AList.delete_eq filter_id_conv)

lemma handler_run:
  assumes "registry_inv s" "cid \<notin> connected s"
    and s': "s' = remove_client cid (store_session cid now (bind_listeners cid configs outcomes s))"
  shows "clients s' = clients s \<and> tasks s' = tasks s \<and> pending s' = pending s \<and> connected s' = connected s"
proof -
  obtain hs s1 where b: "bind_loop cid (zip configs outcomes) s = (hs, s1)" by fastforce
  note sp = bind_loop_spec [OF b]
  note new = registry_inv_fresh [OF assms(1,2)]
  have t: "tasks s t = None" if "t \<in> set hs" for t
    using registry_inv_task [OF assms(1), of t] sp that by (cases "tasks s t") force+
  have tt: "(\<lambda>t. if next_task s \<le> t \<and> t < next_task s1 then None else tasks s1 t) = tasks s"
    using sp t by auto
  have t0: "(\<lambda>t. if next_task s \<le> t \<and> t < next_task s1 then None else tasks s t) = tasks s"
    using sp t by auto
  have d: "AList.delete cid (AList.update cid x (clients s)) = clients s" for x
    using new(1) by (simp add: map_of_eq_None_iff delete_update_fresh)
  have p: "(pending s)(cid := None) = pending s" using new(2) by (simp add: fun_upd_idem)
  from s' b sp show ?thesis
    by (simp add: bind_listeners_def store_session_def remove_client_def remove_session_def abort_tasks_def
      ClientSession_new_def update_conv' d tt t0 p assms(2) cong: if_cong)
qed

text \<open>
  C23. A complete run of \<open>handle_client\<close> leaves no trace: from any reachable state in which the
  address is not connected, whatever the client sends, whichever ports can be bound and
  whatever happens on the connection, the sessions, the running listeners and the connected
  clients are afterwards those from before.
\<close>

theorem handle_client_leaves_no_trace:
  assumes "reach (\<lambda>s. s = Registry_new) registry_step s" "show_sockaddr addr \<notin> connected s"
    and "handle_client lib srv now instant addr outcomes evs r w s = Some (res, r', w', s')"
  shows "clients s' = clients s \<and> tasks s' = tasks s \<and> connected s' = connected s"
proof -
  from assms(3) consider "s' = s"
    | configs where "s' = remove_client (show_sockaddr addr)
        (store_session (show_sockaddr addr) instant (bind_listeners (show_sockaddr addr) configs outcomes s))"
    by (auto simp: handle_client_def Let_def split: option.splits sum.splits)
  then show ?thesis
  proof cases
    case 2
    from handler_run [OF registry.reach_inv [OF assms(1)] assms(2) 2] show ?thesis by blast
  qed simp
qed

definition sample_lib :: Lib where
  "sample_lib =
     \<lparr>ser = bincode_serialize, de = bincode_deserialize,
      json = (\<lambda>cfgs. Ok (replicate (length cfgs) CHR ''j'')), sha256_hex = (\<lambda>s. ''h'' @ s),
      to_uppercase = sample_upper, base32_decode = sample_decode, hmac_sha1 = sample_hmac\<rparr>"

theorem handle_client_leaves_no_trace_witness:
  "\<exists>res r' w' s'. handle_client sample_lib (ReverseProxyServer_new None ipv4_unspecified 9001) 0 0
       (SocketAddr_new ipv4_localhost 5000) [] []
       \<lparr>rd_data = [], rd_end = IoError UnexpectedEof ''early eof''\<rparr>
       \<lparr>wr_data = [], wr_fail = None, wr_flush = None\<rparr> Registry_new = Some (res, r', w', s')
     \<and> clients s' = [] \<and> tasks s' = Map.empty"
proof -
  let ?r = "\<lparr>rd_data = [], rd_end = IoError UnexpectedEof ''early eof''\<rparr>"
  let ?w = "\<lparr>wr_data = [], wr_fail = None, wr_flush = None\<rparr>"
  have init: "reach (\<lambda>s. s = Registry_new) registry_step Registry_new" by (rule reach_init) simp
  have "\<exists>res r' w' s'. handle_client sample_lib (ReverseProxyServer_new None ipv4_unspecified 9001) 0 0
       (SocketAddr_new ipv4_localhost 5000) [] [] ?r ?w Registry_new = Some (res, r', w', s')"
    by (simp add: handle_client_def server_handshake_def read_from_def)
  then obtain res r' w' s' where e: "handle_client sample_lib
       (ReverseProxyServer_new None ipv4_unspecified 9001) 0 0
       (SocketAddr_new ipv4_localhost 5000) [] [] ?r ?w Registry_new = Some (res, r', w', s')" by blast
  from handle_client_leaves_no_trace [OF init _ e] e show ?thesis by (simp add: Registry_new_def)
qed

section \<open>Tunnel headers\<close>

lemma tunnel_header_eq: "tunnel_header kind port = [kind, 0] @ u16_to_be_bytes port"
proof -
  have 1: "(ucast (drop_bit 8 port) :: u8) = word_of_nat (unat port div 256)"
    by (simp add: word_unat_eq_iff unsigned_ucast_eq unsigned_drop_bit_eq drop_bit_eq_div take_bit_eq_mod unat_of_nat unat_div)
  have 2: "(ucast port :: u8) = word_of_nat (unat port)" by simp
  show ?thesis unfolding tunnel_header_def u16_to_be_bytes_def numeral_2_eq_2
    by (simp only: be_bytes.simps 1 2) simp
qed


section \<open>UDP frames\<close>

definition udp_frame :: "bytes \<Rightarrow> bytes" where
  "udp_frame data = u16_to_be_bytes (word_of_nat (length data)) @ data"

definition udp_unframe :: "bytes \<Rightarrow> (bytes \<times> bytes) option" where
  "udp_unframe bs =
     (if length bs < 2 then None
      else (let len = be_nat (take 2 bs); r = drop 2 bs in
            if length r < len then None else Some (take len r, drop len r)))"

definition udp_fits :: "bytes \<Rightarrow> bool" where "udp_fits data = (length data < 65536)"

lemma be_nat_take2: "be_nat (u16_to_be_bytes w) = unat w"
proof -
  have "unat w < 256 ^ 2" by simp
  then show ?thesis by (simp add: u16_to_be_bytes_def be_nat_be_bytes)
qed

interpretation udp: wire_format udp_frame udp_unframe udp_fits
  by unfold_locales
     (simp add: udp_frame_def udp_unframe_def udp_fits_def be_nat_take2 unat_of_nat Let_def)

lemma unat_u16_from_be_bytes: "length bs = 2 \<Longrightarrow> unat (u16_from_be_bytes bs) = be_nat bs"
  using be_nat_bound [of bs] by (simp add: u16_from_be_bytes_def unat_of_nat)

lemma udp_response_loop_unframe:
  "udp_response_loop r =
     (case udp_unframe (rd_data r) of None \<Rightarrow> []
      | Some (d, rest) \<Rightarrow> d # udp_response_loop (r\<lparr>rd_data := rest\<rparr>))"
  by (subst udp_response_loop.simps)
     (auto simp: udp_unframe_def read_exact_def unat_u16_from_be_bytes Let_def simp del: udp_response_loop.simps)

declare udp_response_loop.simps [simp del]

lemma udp_response_loop_framed:
  "list_all udp_fits ds \<Longrightarrow> rd_data r = concat (map udp_frame ds) \<Longrightarrow> udp_response_loop r = ds"
proof (induction ds arbitrary: r)
  case Nil
  then show ?case by (subst udp_response_loop_unframe) (simp add: udp_unframe_def)
next
  case (Cons d ds)
  then show ?case by (subst udp_response_loop_unframe) (simp add: udp.decode_encode)
qed

lemma udp_response_loop_short:
  "sum_list (map (\<lambda>d. length d + 2) (udp_response_loop r)) \<le> length (rd_data r)"
proof (induction r rule: measure_induct_rule [of "\<lambda>r. length (rd_data r)"])
  case (less r)
  show ?case
  proof (cases "udp_unframe (rd_data r)")
    case None
    then show ?thesis by (subst udp_response_loop_unframe) simp
  next
    case (Some p)
    obtain d rest where p: "p = (d, rest)" by fastforce
    with Some have l: "length d + 2 + length rest = length (rd_data r)"
      by (auto simp: udp_unframe_def Let_def split: if_splits)
    with less [of "r\<lparr>rd_data := rest\<rparr>"] Some p show ?thesis
      by (subst udp_response_loop_unframe) simp
  qed
qed

lemma udp_response_loop_mem: "d \<in> set (udp_response_loop r) \<Longrightarrow> length d + 2 \<le> length (rd_data r)"
  using udp_response_loop_short [of r] member_le_sum_list [of "length d + 2" "map (\<lambda>d. length d + 2) (udp_response_loop r)"]
  by fastforce

section \<open>Handshake verdicts\<close>

text \<open>
  C13. The server accepts a hello exactly when its version is 1, its token is the server's token
  or an allowed one (or the server has no token, and then any token), a configured TOTP secret
  verifies the code that came with it, the hash is the digest of the configuration, and the
  configuration is not empty.
\<close>

theorem check_hello_accepts_iff:
  "(\<exists>resp. check_hello lib srv now addr v tok code cfgs hash = Some (Accept resp)) \<longleftrightarrow>
     v = PROTOCOL_VERSION
     \<and> (auth_token srv = None \<or> auth_token srv = Some tok \<or> tok \<in> set (allowed_tokens srv))
     \<and> (case srv_totp_secret srv of None \<Rightarrow> True
        | Some s \<Rightarrow> \<exists>c. code = Some c \<and> verify (hmac_sha1 lib) (totp_of_secret lib s) now c = Some True)
     \<and> (\<exists>j. json lib cfgs = Ok j \<and> sha256_hex lib j = hash)
     \<and> cfgs \<noteq> []"
  by (auto simp: check_hello_def token_valid_def totp_valid_def
      split: option.splits bool.splits sum.splits if_splits)

end
