(* ===== verification/Reverse_Client.thy ===== *)
theory Reverse_Client
  imports Reverse_Server
begin

text \<open>
  The reverse proxy client, \<^verbatim>\<open>src/src/reverse_proxy/client.rs\<close>: where its token comes from, the reconnect
  loop, the handshake, and the tunnel streams; then the properties of client and server together.

  What the network does is given by arguments: the outcomes of the attempts, of connecting,
  and of the local service. A panic is \<open>None\<close>.
\<close>

section \<open>The client\<close>

record ReverseProxyClient =
  server_addr :: SocketAddr
  client_config :: ConfigFile
  client_auth_token :: "string option"
  client_totp_secret :: "string option"

text \<open>\<open>env_token\<close> is the environment variable \<open>REVERSE_PROXY_TOKEN\<close>.\<close>

definition ReverseProxyClient_new ::
  "string option \<Rightarrow> SocketAddr \<Rightarrow> ConfigFile \<Rightarrow> ReverseProxyClient" where
  "ReverseProxyClient_new env_token addr config =
     \<lparr>server_addr = addr, client_config = config,
      client_auth_token =
        (case env_token of Some t \<Rightarrow> Some t
         | None \<Rightarrow>
           Option.bind (reverse_proxy_server config) (\<lambda>s.
             case rs_allowed_tokens s of [] \<Rightarrow> None | t # _ \<Rightarrow> Some t)),
      client_totp_secret = Option.bind (reverse_proxy_client config) rc_totp_secret\<rparr>"

definition new_with_token :: "SocketAddr \<Rightarrow> ConfigFile \<Rightarrow> string \<Rightarrow> ReverseProxyClient" where
  "new_with_token addr config tok =
     \<lparr>server_addr = addr, client_config = config, client_auth_token = Some tok,
      client_totp_secret = None\<rparr>"

section \<open>The reconnect loop\<close>

text \<open>
  The environment of \<open>start\<close>, by the number of failures so far: whether a shutdown signal is
  waiting before an attempt, how the attempt ends, and whether a shutdown interrupts the sleep
  after it. The result comes with the lengths of the sleeps that were begun, in seconds.
\<close>

record StartEnv =
  shutdown_before :: "nat \<Rightarrow> bool"
  attempt :: "nat \<Rightarrow> AppError + unit"
  shutdown_in_backoff :: "nat \<Rightarrow> bool"

abbreviation MAX_BACKOFF :: nat where "MAX_BACKOFF \<equiv> 60"
abbreviation MAX_RETRIES :: nat where "MAX_RETRIES \<equiv> 10"

definition gave_up :: AppError where
  "gave_up = ReverseProxy (RpConnectionFailed
     (''Failed after '' @ nat_to_string MAX_RETRIES @ '' retry attempts''))"

function start_loop :: "StartEnv \<Rightarrow> nat \<Rightarrow> nat \<Rightarrow> nat list \<times> (AppError + unit)" where
  "start_loop env retry_count backoff_seconds =
     (if shutdown_before env retry_count then ([], Ok ())
      else if MAX_RETRIES \<le> retry_count then ([], Err gave_up)
      else
        (case attempt env retry_count of
           Inr _ \<Rightarrow> ([], Ok ())
         | Inl e \<Rightarrow>
           (let retry_count' = retry_count + 1 in
            if retry_count' < MAX_RETRIES then
              (if shutdown_in_backoff env retry_count' then ([backoff_seconds], Ok ())
               else apfst ((#) backoff_seconds)
                      (start_loop env retry_count' (min (backoff_seconds * 2) MAX_BACKOFF)))
            else start_loop env retry_count' backoff_seconds)))"
  by pat_completeness auto
termination by (relation "measure (\<lambda>(env, n, b). MAX_RETRIES - n)") auto

definition client_start :: "StartEnv \<Rightarrow> nat list \<times> (AppError + unit)" where
  "client_start env = start_loop env 0 1"

section \<open>One connection\<close>

fun parse_proxy_configs :: "ReverseProxySection list \<Rightarrow> AppError + ReverseProxyConfig list" where
  "parse_proxy_configs [] = Ok []"
| "parse_proxy_configs (rproxy # rs) =
     and_then (map_err (\<lambda>e. ReverseProxy (HandshakeFailed (''Invalid server config: '' @ show_AppError e)))
                 (get_server_port rproxy)) (\<lambda>sp.
     and_then (map_err (\<lambda>e. ReverseProxy (HandshakeFailed (''Invalid local config: '' @ show_AppError e)))
                 (get_reverse_local_port rproxy)) (\<lambda>lp.
     and_then (parse_proxy_configs rs) (\<lambda>cfgs.
       Ok (\<lparr>server_port = sp, server_host = get_server_ip rproxy,
            local_host = (case get_local_host rproxy of Some h \<Rightarrow> h | None \<Rightarrow> ''localhost''),
            local_port = lp\<rparr> # cfgs))))"

text \<open>The hello the client sends. The clock is read only when there is a secret.\<close>

definition client_hello ::
  "Lib \<Rightarrow> ReverseProxyClient \<Rightarrow> u64 \<Rightarrow> ReverseProxyConfig list \<Rightarrow> (AppError + ControlMessage) option" where
  "client_hello lib cl now config =
     (case json lib config of
        Inl e \<Rightarrow> Some (Err (ReverseProxy (SerializationFailed e)))
      | Inr config_json \<Rightarrow>
        (let config_hash = sha256_hex lib config_json;
             tok = (case client_auth_token cl of Some t \<Rightarrow> t | None \<Rightarrow> [])
         in case client_totp_secret cl of
              None \<Rightarrow> Some (Ok (ClientHello PROTOCOL_VERSION tok None config config_hash))
            | Some s \<Rightarrow>
                map_option (\<lambda>code. Ok (ClientHello PROTOCOL_VERSION tok (Some code) config config_hash))
                  (generate (hmac_sha1 lib) (totp_of_secret lib s) now)))"

definition do_handshake ::
  "Lib \<Rightarrow> ReverseProxyClient \<Rightarrow> u64 \<Rightarrow> ReverseProxyConfig list \<Rightarrow> Reader \<Rightarrow> Writer
   \<Rightarrow> ((AppError + unit) \<times> Reader \<times> Writer) option" where
  "do_handshake lib cl now config r w =
     (case client_hello lib cl now config of
        None \<Rightarrow> None
      | Some (Inl e) \<Rightarrow> Some (Err e, r, w)
      | Some (Inr hello) \<Rightarrow>
          (case write_to (ser lib) hello w of
             (Inl e, w1) \<Rightarrow> Some (Err e, r, w1)
           | (Inr _, w1) \<Rightarrow>
             (case read_from (de lib) r of
                (Inl e, r1) \<Rightarrow> Some (Err e, r1, w1)
              | (Inr (ServerHello version status message ports session_id), r1) \<Rightarrow>
                  Some (if status = StatusOk then Ok ()
                        else Err (ReverseProxy (HandshakeFailed message)), r1, w1)
              | (Inr _, r1) \<Rightarrow>
                  Some (Err (ReverseProxy (HandshakeFailed ''Invalid server response'')), r1, w1))))"

text \<open>Connecting: the stream as a reader and a writer, the 30-second timeout, or an I/O error.\<close>

datatype ConnectOutcome =
    Connected Reader Writer
  | ConnectTimeout
  | ConnectError IoError

definition create_optimized_tcp :: "ConnectOutcome \<Rightarrow> AppError + Reader \<times> Writer" where
  "create_optimized_tcp outcome =
     (case outcome of
        Connected r w \<Rightarrow> Ok (r, w)
      | ConnectTimeout \<Rightarrow> Err (ReverseProxy (RpConnectionFailed ''Connection timeout''))
      | ConnectError e \<Rightarrow> Err (Io e))"

datatype ClientEvent =
    ShutdownSignal
  | TunnelStream
  | ConnectionError string
  | ConnectionClosedByServer

text \<open>The loop after the handshake: the number of streams handed to tasks, and the result.\<close>

fun client_loop :: "ClientEvent list \<Rightarrow> nat \<times> (AppError + unit) option" where
  "client_loop [] = (0, None)"
| "client_loop (ShutdownSignal # evs) = (0, Some (Ok ()))"
| "client_loop (TunnelStream # evs) = apfst Suc (client_loop evs)"
| "client_loop (ConnectionError text # evs) = (0, Some (Err (ReverseProxy (RpConnectionFailed text))))"
| "client_loop (ConnectionClosedByServer # evs) =
     (0, Some (Err (ReverseProxy (RpConnectionFailed ''Connection closed by server''))))"

definition run_connection ::
  "Lib \<Rightarrow> ReverseProxyClient \<Rightarrow> u64 \<Rightarrow> ConnectOutcome \<Rightarrow> ClientEvent list
   \<Rightarrow> (nat \<times> (AppError + unit) option) option" where
  "run_connection lib cl now outcome evs =
     (case parse_proxy_configs (reverse_proxies (client_config cl)) of
        Inl e \<Rightarrow> Some (0, Some (Err e))
      | Inr proxy_configs \<Rightarrow>
          if proxy_configs = [] then
            Some (0, Some (Err (ReverseProxy (HandshakeFailed ''No valid reverse proxy configurations''))))
          else
            (case create_optimized_tcp outcome of
               Inl e \<Rightarrow> Some (0, Some (Err e))
             | Inr (r, w) \<Rightarrow>
                 (case do_handshake lib cl now proxy_configs r w of
                    None \<Rightarrow> None
                  | Some (Inl e, _) \<Rightarrow> Some (0, Some (Err e))
                  | Some (Inr _, _) \<Rightarrow> Some (client_loop evs))))"

section \<open>Tunnel streams\<close>

datatype UdpOutcome =
    UdpResponse bytes
  | UdpRecvError
  | UdpTimeout

record LocalEnv =
  udp_bind :: "IoError option"
  udp_send :: "string \<Rightarrow> IoError option"
  udp_recv :: UdpOutcome
  tcp_connect :: "string \<Rightarrow> IoError + bytes"

datatype LocalAction =
    UdpToLocal string bytes
  | TcpToLocal string bytes

definition tunnel_error :: "string \<Rightarrow> AppError" where
  "tunnel_error s = ReverseProxy (RpConnectionFailed s)"

definition find_target :: "u16 \<Rightarrow> ReverseProxyConfig list \<Rightarrow> AppError + ReverseProxyConfig" where
  "find_target port configs =
     ok_or (tunnel_error (''No local target for port '' @ nat_to_string (unat port)))
       (find (\<lambda>c. server_port c = port) configs)"

definition local_addr_text :: "ReverseProxyConfig \<Rightarrow> string" where
  "local_addr_text target = local_host target @ '':'' @ nat_to_string (unat (local_port target))"

definition hex_byte :: "u8 \<Rightarrow> string" where
  "hex_byte b = (let h = nat_to_hex (unat b) in if length h < 2 then ''0'' @ h else h)"

definition read_or :: "string \<Rightarrow> nat \<Rightarrow> Reader \<Rightarrow> AppError + bytes \<times> Reader" where
  "read_or what n r =
     (case read_exact n r of
        (Inl e, _) \<Rightarrow> Err (tunnel_error (what @ '': '' @ io_text e))
      | (Inr bs, r') \<Rightarrow> Ok (bs, r'))"

text \<open>The branch for UDP: what goes to the local service and what is written back to the stream.\<close>

definition handle_udp ::
  "LocalEnv \<Rightarrow> ReverseProxyConfig list \<Rightarrow> u16 \<Rightarrow> Reader \<Rightarrow> Writer
   \<Rightarrow> (AppError + unit) \<times> LocalAction list \<times> Writer" where
  "handle_udp env configs port r w =
     (case (and_then (find_target port configs) (\<lambda>target.
            and_then (read_or ''Failed to read UDP payload length'' 2 r) (\<lambda>(len_bytes, r1).
            and_then (read_or ''Failed to read UDP payload'' (unat (u16_from_be_bytes len_bytes)) r1)
              (\<lambda>(payload, r2). Ok (target, payload))))) of
        Inl e \<Rightarrow> (Err e, [], w)
      | Inr (target, payload) \<Rightarrow>
          (case udp_bind env of
             Some e \<Rightarrow> (Err (tunnel_error (''Failed to bind UDP socket: '' @ io_text e)), [], w)
           | None \<Rightarrow>
               (case udp_send env (local_addr_text target) of
                  Some e \<Rightarrow> (Err (tunnel_error (''Failed to send UDP data: '' @ io_text e)), [], w)
                | None \<Rightarrow>
                    (Ok (), [UdpToLocal (local_addr_text target) payload],
                     case udp_recv env of
                       UdpResponse response \<Rightarrow> snd (write_all response w)
                     | UdpRecvError \<Rightarrow> w
                     | UdpTimeout \<Rightarrow> w))))"

definition handle_tcp ::
  "LocalEnv \<Rightarrow> ReverseProxyConfig list \<Rightarrow> u16 \<Rightarrow> Reader \<Rightarrow> Writer
   \<Rightarrow> (AppError + unit) \<times> LocalAction list \<times> Writer" where
  "handle_tcp env configs port r w =
     (case find_target port configs of
        Inl e \<Rightarrow> (Err e, [], w)
      | Inr target \<Rightarrow>
          (case tcp_connect env (local_addr_text target) of
             Inl e \<Rightarrow>
               (Err (tunnel_error (''Failed to connect to local service ''
                                   @ local_addr_text target @ '': '' @ io_text e)), [], w)
           | Inr from_local \<Rightarrow>
               (Ok (), [TcpToLocal (local_addr_text target) (rd_data r)],
                snd (write_all from_local w))))"

definition handle_tunnel_stream ::
  "LocalEnv \<Rightarrow> ReverseProxyConfig list \<Rightarrow> Reader \<Rightarrow> Writer
   \<Rightarrow> (AppError + unit) \<times> LocalAction list \<times> Writer" where
  "handle_tunnel_stream env configs r w =
     (case read_or ''Failed to read header'' 4 r of
        Inl e \<Rightarrow> (Err e, [], w)
      | Inr (header, r1) \<Rightarrow>
          (let msg_type = header ! 0;
               target_port = u16_from_be_bytes [header ! 2, header ! 3]
           in if msg_type = 0x01 then handle_tcp env configs target_port r1 w
              else if msg_type = 0x02 then handle_udp env configs target_port r1 w
              else if msg_type = 0x03 then (Err (tunnel_error ''PROXY protocol not implemented''), [], w)
              else (Err (tunnel_error (''Unknown protocol type 0x'' @ hex_byte msg_type)), [], w)))"

section \<open>Bounds of the reconnect loop\<close>

declare start_loop.simps [simp del]

fun backoffs :: "nat \<Rightarrow> nat \<Rightarrow> nat list" where
  "backoffs 0 b = []"
| "backoffs (Suc n) b = b # backoffs n (min (b * 2) MAX_BACKOFF)"

lemma start_loop_sleeps:
  "n \<le> 10 \<Longrightarrow> \<exists>k. k \<le> 9 - n \<and> fst (start_loop env n b) = backoffs k b"
proof (induction env n b rule: start_loop.induct)
  case (1 env n b)
  show ?case
  proof (cases "shutdown_before env n \<or> 10 \<le> n \<or> (\<exists>u. attempt env n = Ok u)")
    case True
    then show ?thesis by (intro exI [of _ 0]) (auto simp: start_loop.simps [of env n b])
  next
    case False
    then obtain e where e: "attempt env n = Err e" by (cases "attempt env n") auto
    consider "n + 1 = 10" | "n + 1 < 10" "shutdown_in_backoff env (n + 1)" | "n + 1 < 10" "\<not> shutdown_in_backoff env (n + 1)"
      using False by linarith
    then show ?thesis
    proof cases
      case 1
      then have "start_loop env n b = start_loop env 10 b"
        using False e by (subst start_loop.simps) simp
      moreover have "fst (start_loop env 10 b) = []" by (subst start_loop.simps) simp
      ultimately show ?thesis by (intro exI [of _ 0]) simp
    next
      case 2
      then show ?thesis using False e
        by (intro exI [of _ 1]) (auto simp: start_loop.simps [of env n b])
    next
      case 3
      with "1.IH"(1) [OF _ _ e refl] False obtain k where
        k: "k \<le> 9 - (n + 1)" "fst (start_loop env (n + 1) (min (b * 2) 60)) = backoffs k (min (b * 2) 60)"
        by auto
      then show ?thesis using 3 False e
        by (intro exI [of _ "Suc k"]) (auto simp: start_loop.simps [of env n b])
    qed
  qed
qed

lemma take_backoffs: "k \<le> n \<Longrightarrow> backoffs k b = take k (backoffs n b)"
proof (induction n arbitrary: k b)
  case (Suc n)
  show ?case
  proof (cases k)
    case (Suc j)
    with Suc.IH [of j "min (b * 2) MAX_BACKOFF"] Suc.prems show ?thesis by simp
  qed simp
qed simp

lemma backoffs_9: "backoffs 9 1 = [1, 2, 4, 8, 16, 32, 60, 60, 60]"
  by (simp add: numeral_eq_Suc)

lemma backoffs_values: "k \<le> 9 \<Longrightarrow> backoffs k 1 = take k [1, 2, 4, 8, 16, 32, 60, 60, 60]"
  using take_backoffs [of k 9 1] by (simp only: backoffs_9)

definition never_succeeds :: "StartEnv \<Rightarrow> nat \<Rightarrow> bool" where
  "never_succeeds env n \<longleftrightarrow>
     (\<forall>i \<in> {n..10}. \<not> shutdown_before env i) \<and> (\<forall>i \<in> {n..<10}. \<exists>e. attempt env i = Err e)
     \<and> (\<forall>i \<in> {Suc n..<10}. \<not> shutdown_in_backoff env i)"

lemma never_succeeds_step:
  "n < 10 \<Longrightarrow> never_succeeds env n \<longleftrightarrow>
     \<not> shutdown_before env n \<and> (\<exists>e. attempt env n = Err e)
     \<and> (Suc n < 10 \<longrightarrow> \<not> shutdown_in_backoff env (Suc n)) \<and> never_succeeds env (Suc n)"
proof -
  assume n: "n < 10"
  then have "{n..10} = insert n {Suc n..10}" "{n..<10} = insert n {Suc n..<10}" by auto
  moreover have "{Suc n..<10} = (if Suc n < 10 then insert (Suc n) {Suc (Suc n)..<10} else {})" by auto
  ultimately show ?thesis unfolding never_succeeds_def by auto
qed

lemma start_loop_gives_up:
  "n \<le> 10 \<Longrightarrow> snd (start_loop env n b) = (if never_succeeds env n then Err gave_up else Ok ())"
proof (induction env n b rule: start_loop.induct)
  case (1 env n b)
  show ?case
  proof (cases "n < 10")
    case False
    with "1.prems" have "n = 10" by simp
    moreover have "snd (start_loop env 10 b) = (if shutdown_before env 10 then Ok () else Err gave_up)"
      by (subst start_loop.simps) simp
    ultimately show ?thesis by (simp add: never_succeeds_def)
  next
    case True
    show ?thesis
    proof (cases "shutdown_before env n \<or> (\<exists>u. attempt env n = Ok u)")
      case stop: True
      then have "\<not> never_succeeds env n" using never_succeeds_step [OF True, of env] by auto
      moreover have "snd (start_loop env n b) = Ok ()" using stop True by (subst start_loop.simps) auto
      ultimately show ?thesis by simp
    next
      case go: False
      then obtain e where e: "attempt env n = Err e" by (cases "attempt env n") auto
      have eq: "start_loop env n b =
         (if n + 1 < 10 then
            (if shutdown_in_backoff env (n + 1) then ([b], Ok ())
             else apfst ((#) b) (start_loop env (n + 1) (min (b * 2) MAX_BACKOFF)))
          else start_loop env (n + 1) b)"
        using go e True by (subst start_loop.simps) simp
      have ns: "never_succeeds env n \<longleftrightarrow>
         (n + 1 < 10 \<longrightarrow> \<not> shutdown_in_backoff env (n + 1)) \<and> never_succeeds env (n + 1)"
        using never_succeeds_step [OF True, of env] go e by simp
      have nb: "\<not> shutdown_before env n" "\<not> 10 \<le> n" using go True by auto
      show ?thesis
      proof (cases "n + 1 < 10")
        case lt: True
        with "1.IH"(1) [OF nb e refl lt] show ?thesis
          by (cases "shutdown_in_backoff env (n + 1)") (simp_all add: eq ns)
      next
        case ge: False
        from "1.IH"(2) [OF nb e refl ge] True ge show ?thesis by (simp add: eq ns)
      qed
    qed
  qed
qed

text \<open>
  C21. The client always stops reconnecting: it begins at most nine sleeps, their lengths are a
  prefix of 1, 2, 4, 8, 16, 32, 60, 60, 60 seconds, 243 in all, and it fails exactly when ten
  attempts fail and no shutdown comes; otherwise it returns without error. The failures are
  counted over the life of the client, not since the last working connection.
\<close>

theorem reconnect_bounded:
  "(\<exists>k \<le> 9. fst (client_start env) = take k [1, 2, 4, 8, 16, 32, 60, 60, 60])
   \<and> sum_list (fst (client_start env)) \<le> 243
   \<and> snd (client_start env) = (if never_succeeds env 0 then Err gave_up else Ok ())"
proof -
  from start_loop_sleeps [of 0 env 1] obtain k where "k \<le> 9" "fst (client_start env) = backoffs k 1"
    by (auto simp: client_start_def)
  with backoffs_values have k: "k \<le> 9" "fst (client_start env) = take k [1, 2, 4, 8, 16, 32, 60, 60, 60]" by auto
  have "sum_list (take k [1, 2, 4, 8, 16, 32, 60, 60, 60 :: nat]) \<le> sum_list [1, 2, 4, 8, 16, 32, 60, 60, 60 :: nat]"
    by (metis append_take_drop_id le_add1 sum_list_append)
  with k start_loop_gives_up [of 0 env 1] show ?thesis by (auto simp: client_start_def)
qed

section \<open>Configurations\<close>

lemma get_local_host_Some: "\<exists>h. get_local_host r = Some h"
  by (auto simp: get_local_host_def Let_def)

lemma parse_proxy_configs_ok:
  "list_all reverse_proxy_ok rs \<Longrightarrow> \<exists>cfgs. parse_proxy_configs rs = Ok cfgs
     \<and> map (\<lambda>c. (Inr (server_port c), Inr (local_port c))) cfgs = map (\<lambda>r. (get_server_port r, get_reverse_local_port r)) rs"
proof (induction rs)
  case (Cons r rs)
  then obtain cfgs where "parse_proxy_configs rs = Ok cfgs"
    "map (\<lambda>c. (Inr (server_port c), Inr (local_port c))) cfgs = map (\<lambda>r. (get_server_port r, get_reverse_local_port r)) rs" by auto
  moreover from Cons.prems obtain sp lp where "get_server_port r = Ok sp" "get_reverse_local_port r = Ok lp"
    by (auto simp: reverse_proxy_ok_def port_ok_def split: sum.splits)
  ultimately show ?case by simp
qed simp

text \<open>
  What validation accepts the client can use: the reverse proxies of an accepted
  configuration all parse, one entry for each, with ports that are not zero and server ports that
  are pairwise distinct.
\<close>

theorem validated_proxies_parse:
  assumes "validate c = (Ok ws, c')"
  shows "\<exists>cfgs. parse_proxy_configs (reverse_proxies c') = Ok cfgs
    \<and> length cfgs = length (reverse_proxies c)
    \<and> distinct (map server_port cfgs) \<and> (\<forall>x \<in> set cfgs. server_port x \<noteq> 0 \<and> local_port x \<noteq> 0)"
proof -
  have ok: "config_ok c" using validate_ok_iff [of c] assms by simp
  have same: "reverse_proxies c' = reverse_proxies c"
    using assms by (auto simp: validate_def Let_def split: prod.splits if_splits)
  from ok have l: "list_all reverse_proxy_ok (reverse_proxies c)"
    and d: "distinct (map get_server_port (reverse_proxies c))" by (simp_all add: config_ok_def)
  from parse_proxy_configs_ok [OF l] obtain cfgs where
    p: "parse_proxy_configs (reverse_proxies c) = Ok cfgs"
    and m: "map (\<lambda>c. (Inr (server_port c), Inr (local_port c))) cfgs
      = map (\<lambda>r. (get_server_port r, get_reverse_local_port r)) (reverse_proxies c)" by blast
  have "map Inr (map server_port cfgs) = map get_server_port (reverse_proxies c)"
    using arg_cong [OF m, of "map fst"] by (simp add: comp_def)
  with d have "distinct (map (Inr :: u16 \<Rightarrow> AppError + u16) (map server_port cfgs))" by simp
  then have "distinct (map server_port cfgs)" by (simp only: distinct_map)
  moreover have "server_port x \<noteq> 0 \<and> local_port x \<noteq> 0" if "x \<in> set cfgs" for x
  proof -
    from that have "(Inr (server_port x), Inr (local_port x)) \<in>
        set (map (\<lambda>r. (get_server_port r, get_reverse_local_port r)) (reverse_proxies c))"
      by (simp flip: m)
    then obtain q where q: "q \<in> set (reverse_proxies c)" "get_server_port q = Inr (server_port x)"
      "get_reverse_local_port q = Inr (local_port x)" by auto
    with l have "reverse_proxy_ok q" by (simp add: list_all_iff)
    with q show ?thesis by (simp add: reverse_proxy_ok_def port_ok_def)
  qed
  moreover have "length cfgs = length (reverse_proxies c)"
    using arg_cong [OF m, of length] by simp
  ultimately show ?thesis using p same by auto
qed

definition sample_reverse_config :: ConfigFile where
  "sample_reverse_config = sample_config
     \<lparr>server := None, proxies := [],
      reverse_proxies := [\<lparr>rp_server = ''7000'', rp_local = ''10.0.0.9:80'', rp_source_ip = None\<rparr>],
      reverse_proxy_client := Some \<lparr>rc_server = ''h:1'', rc_token = Some ''t'', rc_totp_secret = None\<rparr>\<rparr>"

theorem validated_proxies_parse_witness:
  "\<exists>cfgs. parse_proxy_configs (reverse_proxies sample_reverse_config) = Ok cfgs \<and> length cfgs = 1"
proof -
  have "validate sample_reverse_config = (Ok [], sample_reverse_config)"
    by (simp add: validate_def sample_reverse_config_def sample_config_def validate_server_def
        validate_reverse_proxy_def validate_source_ip_def get_server_port_def
        get_reverse_local_port_def rsplit_port_def parse_port_or_def eval_simps)
  from validated_proxies_parse [OF this] show ?thesis by (auto simp: sample_reverse_config_def)
qed

text \<open>
  The token the client sends is the environment's, else the first allowed token of the
  \<^emph>\<open>server\<close> section of its own file, else empty. The token in the client section, which is
  documented as the client's token, is never used.
\<close>

theorem client_token_source:
  "client_auth_token (ReverseProxyClient_new (Some t) addr c) = Some t
   \<and> client_auth_token (ReverseProxyClient_new None addr c) =
       Option.bind (reverse_proxy_server c)
         (\<lambda>s. if rs_allowed_tokens s = [] then None else Some (hd (rs_allowed_tokens s)))
   \<and> client_auth_token (ReverseProxyClient_new env addr (c\<lparr>reverse_proxy_client := x\<rparr>)) =
       client_auth_token (ReverseProxyClient_new env addr c)"
proof -
  have "(case xs of [] \<Rightarrow> None | t # _ \<Rightarrow> Some t) = (if xs = [] then None else Some (hd xs))" for xs :: "string list"
    by (cases xs) auto
  then show ?thesis by (cases env) (simp_all add: ReverseProxyClient_new_def)
qed

section \<open>Handshakes\<close>

abbreviation client_token :: "ReverseProxyClient \<Rightarrow> string" where
  "client_token cl \<equiv> (case client_auth_token cl of Some t \<Rightarrow> t | None \<Rightarrow> [])"

abbreviation hung_up :: "bytes \<Rightarrow> Reader" where
  "hung_up bs \<equiv> \<lparr>rd_data = bs, rd_end = IoError UnexpectedEof ''early eof''\<rparr>"

abbreviation fresh_writer :: Writer where
  "fresh_writer \<equiv> \<lparr>wr_data = [], wr_fail = None, wr_flush = None\<rparr>"

lemma totp_of_secret_params: "digits (totp_of_secret lib s) = 6 \<and> step_secs (totp_of_secret lib s) = 30"
  by (auto simp: totp_of_secret_def from_base32_def Totp_new_def Let_def and_then_Ok_iff split: sum.splits)

lemma div30_close: "a \<le> b + 30 \<Longrightarrow> b \<le> a + 30 \<Longrightarrow> a div 30 \<in> {b div 30 - 1, b div 30, b div 30 + 1}" for a b :: nat
proof -
  assume ab: "a \<le> b + 30" "b \<le> a + 30"
  have "a div 30 \<le> (b + 30) div 30" using ab(1) by (rule div_le_mono)
  moreover have "b div 30 \<le> (a + 30) div 30" using ab(2) by (rule div_le_mono)
  ultimately have "a div 30 \<le> b div 30 + 1" "b div 30 \<le> a div 30 + 1" by simp_all
  then have "a div 30 = b div 30 - 1 \<or> a div 30 = b div 30 \<or> a div 30 = b div 30 + 1" by arith
  then show ?thesis by blast
qed

lemma totp_codes_agree:
  assumes tag: "\<forall>k m. length (hmac_sha1 lib k m) = 20"
    and gen: "generate (hmac_sha1 lib) (totp_of_secret lib s) nowc = Some code"
    and clocks: "unat nowc \<le> unat nows + 30" "unat nows \<le> unat nowc + 30" "unat nows + 30 < 2 ^ 64"
  shows "verify (hmac_sha1 lib) (totp_of_secret lib s) nows code = Some True"
proof -
  let ?t = "totp_of_secret lib s"
  have p: "step_secs ?t \<noteq> 0" "unat (step_secs ?t) = 30" "unat (digits ?t) = 6"
    using totp_of_secret_params [of lib s] by auto
  have c: "unat code = rfc6238_code (hmac_sha1 lib) (secret ?t) (unat nowc div 30) 6"
    using generate_rfc6238 [OF tag p(1), of nowc] gen p by auto
  have "verify (hmac_sha1 lib) ?t nows code = Some (\<exists>k \<in> {unat nows div 30 - 1, unat nows div 30, unat nows div 30 + 1}.
      unat code = rfc6238_code (hmac_sha1 lib) (secret ?t) k 6)"
    using verify_rfc6238 [OF tag p(1), of nows code] p clocks(3) by (simp only: Let_def p)
  moreover have "\<exists>k \<in> {unat nows div 30 - 1, unat nows div 30, unat nows div 30 + 1}.
      unat code = rfc6238_code (hmac_sha1 lib) (secret ?t) k 6"
    using c div30_close [OF clocks(1,2)] by blast
  ultimately show ?thesis by simp
qed

lemma client_hello_shape:
  "client_hello lib cl now cfgs = Some (Ok hello) \<Longrightarrow>
   \<exists>code j. hello = ClientHello PROTOCOL_VERSION (client_token cl) code cfgs (sha256_hex lib j)
     \<and> json lib cfgs = Ok j
     \<and> (case client_totp_secret cl of None \<Rightarrow> code = None
        | Some s \<Rightarrow> \<exists>c. code = Some c \<and> generate (hmac_sha1 lib) (totp_of_secret lib s) now = Some c)"
  by (auto simp: client_hello_def Let_def split: sum.splits option.splits)

lemma server_reads_hello:
  assumes inv: "inverse_serializer (ser lib) (de lib)" and fits: "control_fits (ser lib) (ClientHello v t c cfgs h)"
    and r: "rd_data r = control_encode (ser lib) (ClientHello v t c cfgs h) @ rest"
  shows "server_handshake lib srv now addr r w =
     (case check_hello lib srv now addr v t c cfgs h of
        None \<Rightarrow> None
      | Some (Abort e) \<Rightarrow> Some (Err e, r\<lparr>rd_data := rest\<rparr>, w)
      | Some (Refuse response e) \<Rightarrow>
          (case write_to (ser lib) response w of
             (Inl e', w1) \<Rightarrow> Some (Err e', r\<lparr>rd_data := rest\<rparr>, w1)
           | (Inr _, w1) \<Rightarrow> Some (Err e, r\<lparr>rd_data := rest\<rparr>, w1))
      | Some (Accept response) \<Rightarrow>
          (case write_to (ser lib) response w of
             (Inl e', w1) \<Rightarrow> Some (Err e', r\<lparr>rd_data := rest\<rparr>, w1)
           | (Inr _, w1) \<Rightarrow> Some (Ok cfgs, r\<lparr>rd_data := rest\<rparr>, w1)))"
proof -
  have "serializer (ser lib) (de lib)" using inv by unfold_locales blast
  from serializer.write_read [OF this fits, of fresh_writer r rest] r
  show ?thesis by (simp add: server_handshake_def)
qed

lemma write_response:
  assumes inv: "inverse_serializer (ser lib) (de lib)" and fits: "control_fits (ser lib) m"
  shows "write_to (ser lib) m fresh_writer = (Ok (), fresh_writer\<lparr>wr_data := control_encode (ser lib) m\<rparr>)
    \<and> read_from (de lib) (hung_up (control_encode (ser lib) m)) = (Ok m, hung_up [])"
proof -
  have "serializer (ser lib) (de lib)" using inv by unfold_locales blast
  from serializer.write_read [OF this fits, of fresh_writer "hung_up (control_encode (ser lib) m)" "[]"]
  show ?thesis by simp
qed

lemma client_reads_answer:
  assumes inv: "inverse_serializer (ser lib) (de lib)" and hello: "client_hello lib cl now cfgs = Some (Ok hello)"
    and fits: "control_fits (ser lib) hello" "control_fits (ser lib) (ServerHello v st m ports sid)"
  shows "do_handshake lib cl now cfgs (hung_up (control_encode (ser lib) (ServerHello v st m ports sid))) fresh_writer =
    Some (if st = StatusOk then Ok () else Err (ReverseProxy (HandshakeFailed m)), hung_up [],
          fresh_writer\<lparr>wr_data := control_encode (ser lib) hello\<rparr>)"
  using write_response [OF inv fits(1)] write_response [OF inv fits(2)] hello
  by (simp add: do_handshake_def)

definition handshake_agrees ::
  "Lib \<Rightarrow> ReverseProxyClient \<Rightarrow> ReverseProxyServer \<Rightarrow> u64 \<Rightarrow> u64 \<Rightarrow> bool" where
  "handshake_agrees lib cl srv nowc nows \<longleftrightarrow>
     (auth_token srv = None \<or> auth_token srv = Some (client_token cl)
        \<or> client_token cl \<in> set (allowed_tokens srv))
     \<and> (srv_totp_secret srv = None
        \<or> srv_totp_secret srv = client_totp_secret cl
          \<and> unat nowc \<le> unat nows + 30 \<and> unat nows \<le> unat nowc + 30 \<and> unat nows + 30 < 2 ^ 64)"

lemma check_hello_agrees:
  assumes "handshake_agrees lib cl srv nowc nows" "\<forall>k m. length (hmac_sha1 lib k m) = 20"
    and "client_hello lib cl nowc cfgs = Some (Ok (ClientHello v t c cfgs h))" "cfgs \<noteq> []"
  shows "check_hello lib srv nows addr v t c cfgs h = Some (Accept (accept_hello nows addr cfgs))"
proof -
  from client_hello_shape [OF assms(3)] obtain j where
    s: "v = PROTOCOL_VERSION" "t = client_token cl" "h = sha256_hex lib j" "json lib cfgs = Ok j"
    and c: "case client_totp_secret cl of None \<Rightarrow> c = None
        | Some s \<Rightarrow> \<exists>d. c = Some d \<and> generate (hmac_sha1 lib) (totp_of_secret lib s) nowc = Some d"
    by auto
  have tv: "token_valid (auth_token srv) (allowed_tokens srv) t"
    using assms(1) s(2) by (auto simp: handshake_agrees_def token_valid_def split: option.splits)
  have ov: "totp_valid lib nows (srv_totp_secret srv) c = Some True"
  proof (cases "srv_totp_secret srv")
    case None
    then show ?thesis by (simp add: totp_valid_def)
  next
    case (Some x)
    with assms(1) have "client_totp_secret cl = Some x" and
      k: "unat nowc \<le> unat nows + 30" "unat nows \<le> unat nowc + 30" "unat nows + 30 < 2 ^ 64"
      by (auto simp: handshake_agrees_def)
    with c obtain d where "c = Some d" "generate (hmac_sha1 lib) (totp_of_secret lib x) nowc = Some d" by auto
    with totp_codes_agree [OF assms(2) _ k] Some show ?thesis by (simp add: totp_valid_def)
  qed
  show ?thesis using s tv ov assms(4) by (simp add: check_hello_def)
qed

text \<open>
  C6. Client and server agree: when the server has no token or the client's token is one it
  accepts, and either no TOTP secret is configured on the server or both sides have the same
  and clocks at most 30 seconds apart, the hello the client sends is accepted, and the answer
  the server writes makes the client's handshake succeed. Assumed are an invertible
  serializer, 20-byte HMAC tags, and messages within the size limit.
\<close>

theorem handshake_succeeds:
  assumes inv: "inverse_serializer (ser lib) (de lib)" and tag: "\<forall>k m. length (hmac_sha1 lib k m) = 20"
    and hello: "client_hello lib cl nowc cfgs = Some (Ok hello)" and ne: "cfgs \<noteq> []"
    and agree: "handshake_agrees lib cl srv nowc nows"
    and fits: "control_fits (ser lib) hello" "control_fits (ser lib) (accept_hello nows addr cfgs)"
  shows "\<exists>w. server_handshake lib srv nows addr (hung_up (control_encode (ser lib) hello)) fresh_writer
        = Some (Ok cfgs, hung_up [], w)
      \<and> do_handshake lib cl nowc cfgs (hung_up (wr_data w)) fresh_writer
        = Some (Ok (), hung_up [], fresh_writer\<lparr>wr_data := control_encode (ser lib) hello\<rparr>)"
proof -
  from client_hello_shape [OF hello] obtain c h where
    h: "hello = ClientHello PROTOCOL_VERSION (client_token cl) c cfgs h" by auto
  have ch: "check_hello lib srv nows addr PROTOCOL_VERSION (client_token cl) c cfgs h
     = Some (Accept (accept_hello nows addr cfgs))"
    using check_hello_agrees [OF agree tag _ ne] hello h by simp
  have "server_handshake lib srv nows addr (hung_up (control_encode (ser lib) hello)) fresh_writer
        = Some (Ok cfgs, hung_up [], fresh_writer\<lparr>wr_data := control_encode (ser lib) (accept_hello nows addr cfgs)\<rparr>)"
    using server_reads_hello [OF inv fits(1) [unfolded h], of "hung_up (control_encode (ser lib) hello)" "[]"]
      ch write_response [OF inv fits(2)] h by simp
  moreover have "do_handshake lib cl nowc cfgs (hung_up (control_encode (ser lib) (accept_hello nows addr cfgs))) fresh_writer
        = Some (Ok (), hung_up [], fresh_writer\<lparr>wr_data := control_encode (ser lib) hello\<rparr>)"
    using client_reads_answer [OF inv hello fits(1)] fits(2) by (simp add: accept_hello_def)
  ultimately show ?thesis by (intro exI conjI) auto
qed

definition sample_client :: ReverseProxyClient where
  "sample_client =
     \<lparr>server_addr = SocketAddr_new ipv4_localhost 9001, client_config = sample_config,
      client_auth_token = Some ''t'', client_totp_secret = Some ''j a''\<rparr>"

definition sample_server :: ReverseProxyServer where
  "sample_server = with_totp_secret (Some ''j a'')
     (new_with_auth ipv4_unspecified 9001 (Some ''x'') [''t''])"

lemma length_le_encode [simp]: "length (le_encode n x) = n"
  by (simp add: le_encode_def)

lemma sample_client_hello:
  obtains code where "client_hello sample_lib sample_client 100 [sample_rp_config] =
    Some (Ok (ClientHello 1 ''t'' (Some code) [sample_rp_config] ''hj''))"
proof -
  have "\<forall>k m. length (sample_hmac k m) = 20" by (simp add: length_sample_hmac)
  then obtain code where "generate sample_hmac (totp_of_secret sample_lib ''j a'') 100 = Some code"
    using generate_rfc6238 [of sample_hmac "totp_of_secret sample_lib ''j a''" 100]
      totp_of_secret_params [of sample_lib "''j a''"] by auto
  then show thesis
    by (intro that [of code])
       (simp add: client_hello_def sample_lib_def sample_client_def PROTOCOL_VERSION_def)
qed

lemma sample_fits:
  "control_fits bincode_serialize (ClientHello 1 ''t'' (Some code) [sample_rp_config] ''hj'')"
  "control_fits bincode_serialize
     (accept_hello 110 (SocketAddr_new ipv4_localhost 5000) [sample_rp_config])"
  "control_fits bincode_serialize (server_hello InvalidToken ''Invalid or missing authentication token'')"
  by (simp_all add: control_fits_def bincode_serialize_def string_fits_def config_fits_def
      sample_rp_config_def accept_hello_def server_hello_def session_id_text_def word_encode_def
      string_encode_def option_encode_def list_encode_def config_encode_def status_encode_def
      eval_simps)

theorem handshake_succeeds_witness:
  "\<exists>hello w. server_handshake sample_lib sample_server 110 (SocketAddr_new ipv4_localhost 5000)
        (hung_up (control_encode bincode_serialize hello)) fresh_writer
        = Some (Ok [sample_rp_config], hung_up [], w)
      \<and> fst (the (do_handshake sample_lib sample_client 100 [sample_rp_config]
          (hung_up (wr_data w)) fresh_writer)) = Ok ()"
proof -
  obtain code where h: "client_hello sample_lib sample_client 100 [sample_rp_config] =
    Some (Ok (ClientHello 1 ''t'' (Some code) [sample_rp_config] ''hj''))" by (rule sample_client_hello)
  have lib: "ser sample_lib = bincode_serialize" "de sample_lib = bincode_deserialize"
    "hmac_sha1 sample_lib = sample_hmac" by (simp_all add: sample_lib_def)
  have a: "handshake_agrees sample_lib sample_client sample_server 100 110"
    by (simp add: handshake_agrees_def sample_client_def sample_server_def with_totp_secret_def
        new_with_auth_def)
  have i: "inverse_serializer (ser sample_lib) (de sample_lib)" using bincode.de_ser lib by simp
  have t: "\<forall>k m. length (hmac_sha1 sample_lib k m) = 20" by (simp add: lib length_sample_hmac)
  from handshake_succeeds [OF i t h _ a, of "SocketAddr_new ipv4_localhost 5000"] sample_fits
  show ?thesis by (fastforce simp: lib)
qed

text \<open>
  A server that has a token refuses every client whose token is neither that one nor an
  allowed one: it answers \<open>InvalidToken\<close> and ends with an error, and the client's handshake
  fails with the server's message.
\<close>

theorem handshake_refuses_unknown_token:
  assumes inv: "inverse_serializer (ser lib) (de lib)"
    and hello: "client_hello lib cl nowc cfgs = Some (Ok hello)"
    and tok: "auth_token srv = Some t" "client_token cl \<noteq> t" "client_token cl \<notin> set (allowed_tokens srv)"
    and fits: "control_fits (ser lib) hello"
      "control_fits (ser lib) (server_hello InvalidToken ''Invalid or missing authentication token'')"
  shows "\<exists>w. server_handshake lib srv nows addr (hung_up (control_encode (ser lib) hello)) fresh_writer
        = Some (Err (ReverseProxy (HandshakeFailed ''Authentication failed (Token)'')), hung_up [], w)
      \<and> do_handshake lib cl nowc cfgs (hung_up (wr_data w)) fresh_writer
        = Some (Err (ReverseProxy (HandshakeFailed ''Invalid or missing authentication token'')), hung_up [],
                fresh_writer\<lparr>wr_data := control_encode (ser lib) hello\<rparr>)"
proof -
  let ?resp = "server_hello InvalidToken ''Invalid or missing authentication token''"
  from client_hello_shape [OF hello] obtain c h where
    h: "hello = ClientHello PROTOCOL_VERSION (client_token cl) c cfgs h" by auto
  have ch: "check_hello lib srv nows addr PROTOCOL_VERSION (client_token cl) c cfgs h
     = Some (Refuse ?resp (ReverseProxy (HandshakeFailed ''Authentication failed (Token)'')))"
    using tok by (simp add: check_hello_def token_valid_def)
  have "server_handshake lib srv nows addr (hung_up (control_encode (ser lib) hello)) fresh_writer
        = Some (Err (ReverseProxy (HandshakeFailed ''Authentication failed (Token)'')), hung_up [],
                fresh_writer\<lparr>wr_data := control_encode (ser lib) ?resp\<rparr>)"
    using server_reads_hello [OF inv fits(1) [unfolded h], of "hung_up (control_encode (ser lib) hello)" "[]"]
      ch write_response [OF inv fits(2)] h by simp
  moreover have "do_handshake lib cl nowc cfgs (hung_up (control_encode (ser lib) ?resp)) fresh_writer
        = Some (Err (ReverseProxy (HandshakeFailed ''Invalid or missing authentication token'')), hung_up [],
                fresh_writer\<lparr>wr_data := control_encode (ser lib) hello\<rparr>)"
    using client_reads_answer [OF inv hello fits(1)] fits(2) by (simp add: server_hello_def)
  ultimately show ?thesis by (intro exI conjI) auto
qed


theorem handshake_refuses_unknown_token_witness:
  "\<exists>hello w. server_handshake sample_lib
        (ReverseProxyServer_new (Some ''secret'') ipv4_unspecified 9001) 110
        (SocketAddr_new ipv4_localhost 5000)
        (hung_up (control_encode bincode_serialize hello)) fresh_writer
        = Some (Err (ReverseProxy (HandshakeFailed ''Authentication failed (Token)'')), hung_up [], w)"
proof -
  obtain code where h: "client_hello sample_lib sample_client 100 [sample_rp_config] =
    Some (Ok (ClientHello 1 ''t'' (Some code) [sample_rp_config] ''hj''))" by (rule sample_client_hello)
  have lib: "ser sample_lib = bincode_serialize" "de sample_lib = bincode_deserialize"
    by (simp_all add: sample_lib_def)
  have i: "inverse_serializer (ser sample_lib) (de sample_lib)" using bincode.de_ser lib by simp
  from handshake_refuses_unknown_token [OF i h, of
      "ReverseProxyServer_new (Some ''secret'') ipv4_unspecified 9001" "''secret''" 110
      "SocketAddr_new ipv4_localhost 5000"] sample_fits
  show ?thesis
    by (fastforce simp: lib sample_client_def ReverseProxyServer_new_def)
qed

section \<open>Tunnels from end to end\<close>

lemma tunnel_header_port:
  "u16_from_be_bytes [tunnel_header kind port ! 2, tunnel_header kind port ! 3] = port"
proof -
  have "length (u16_to_be_bytes port) = Suc (Suc 0)" by simp
  then obtain a b where "u16_to_be_bytes port = [a, b]" by (metis (no_types) length_0_conv length_Suc_conv)
  then have "[tunnel_header kind port ! 2, tunnel_header kind port ! 3] = u16_to_be_bytes port"
    by (simp add: tunnel_header_eq)
  then show ?thesis by (simp only: u16_from_to_be_bytes)
qed

lemma read_header:
  "rd_data r = tunnel_header kind port @ rest \<Longrightarrow>
   handle_tunnel_stream env configs r w =
     (if kind = 1 then handle_tcp env configs port (r\<lparr>rd_data := rest\<rparr>) w
      else if kind = 2 then handle_udp env configs port (r\<lparr>rd_data := rest\<rparr>) w
      else if kind = 3 then (Err (tunnel_error ''PROXY protocol not implemented''), [], w)
      else (Err (tunnel_error (''Unknown protocol type 0x'' @ hex_byte kind)), [], w))"
proof -
  assume r: "rd_data r = tunnel_header kind port @ rest"
  have h: "read_or ''Failed to read header'' 4 r = Ok (tunnel_header kind port, r\<lparr>rd_data := rest\<rparr>)"
    using r by (simp add: read_or_def read_exact_def tunnel_header_def)
  have "tunnel_header kind port ! 0 = kind" by (simp add: tunnel_header_def)
  then show ?thesis
    unfolding handle_tunnel_stream_def h Let_def sum.case prod.case by (simp only: tunnel_header_port)
qed

lemma find_target_Some:
  "find (\<lambda>c. server_port c = port) configs = Some target \<Longrightarrow> find_target port configs = Ok target"
  by (simp add: find_target_def)

lemma serve_tcp:
  "serve_request (tcp_request port stream) r fresh_writer =
     ([ToTcpPeer (rd_data r)], fresh_writer\<lparr>wr_data := tunnel_header 0x01 port @ stream\<rparr>)"
  by (simp add: serve_request_def tcp_request_def)

lemma serve_udp:
  "serve_request (udp_request port data peer) r fresh_writer =
     (map (ToUdpPeer peer) (udp_response_loop r),
      fresh_writer\<lparr>wr_data := tunnel_header 0x02 port @ udp_frame data\<rparr>)"
  by (simp add: serve_request_def udp_request_def udp_frame_def)

text \<open>
  C9. A TCP tunnel delivers: what the peer sends to the server's port is what the client sends
  to the local service configured for that port, and the service's reply is what the server
  hands to the peer.
\<close>

theorem tcp_tunnel_delivers:
  assumes "find (\<lambda>c. server_port c = port) configs = Some target"
    and "tcp_connect env (local_addr_text target) = Ok reply"
  shows "\<exists>w w'. snd (serve_request (tcp_request port stream) (hung_up reply) fresh_writer) = w
     \<and> handle_tunnel_stream env configs (hung_up (wr_data w)) fresh_writer
        = (Ok (), [TcpToLocal (local_addr_text target) stream], w')
     \<and> fst (serve_request (tcp_request port stream) (hung_up (wr_data w')) fresh_writer) = [ToTcpPeer reply]"
proof -
  have r: "rd_data (hung_up (tunnel_header 1 port @ stream)) = tunnel_header 1 port @ stream" by simp
  from read_header [OF r, of env configs fresh_writer] show ?thesis
    by (simp add: serve_tcp handle_tcp_def find_target_Some [OF assms(1)] assms(2))
qed

definition sample_env :: LocalEnv where
  "sample_env = \<lparr>udp_bind = None, udp_send = (\<lambda>_. None), udp_recv = UdpResponse [0, 1, 9],
                 tcp_connect = (\<lambda>_. Ok [7, 8])\<rparr>"

theorem tcp_tunnel_delivers_witness:
  "\<exists>w w'. snd (serve_request (tcp_request 7000 [1, 2]) (hung_up [7, 8]) fresh_writer) = w
     \<and> handle_tunnel_stream sample_env [sample_rp_config] (hung_up (wr_data w)) fresh_writer
        = (Ok (), [TcpToLocal (local_addr_text sample_rp_config) [1, 2]], w')"
  using tcp_tunnel_delivers [of 7000 "[sample_rp_config]" sample_rp_config sample_env "[7, 8]" "[1, 2]"]
  by (auto simp: sample_rp_config_def sample_env_def)

lemma handle_udp_delivers:
  assumes "find (\<lambda>c. server_port c = port) configs = Some target" "udp_fits data"
    and "udp_bind env = None" "udp_send env (local_addr_text target) = None"
    and "rd_data r = udp_frame data @ rest"
  shows "handle_udp env configs port r w =
     (Ok (), [UdpToLocal (local_addr_text target) data],
      case udp_recv env of UdpResponse response \<Rightarrow> snd (write_all response w) | UdpRecvError \<Rightarrow> w | UdpTimeout \<Rightarrow> w)"
proof -
  have "read_or what 2 r = Ok (u16_to_be_bytes (word_of_nat (length data)), r\<lparr>rd_data := data @ rest\<rparr>)" for what
    using assms(5) by (simp add: read_or_def read_exact_def udp_frame_def)
  moreover have "unat (word_of_nat (length data) :: u16) = length data"
    using assms(2) by (simp add: udp_fits_def unat_of_nat)
  moreover have "read_or what (length data) (r\<lparr>rd_data := data @ rest\<rparr>) = Ok (data, r\<lparr>rd_data := rest\<rparr>)" for what
    by (simp add: read_or_def)
  ultimately show ?thesis using assms(3,4) by (simp add: handle_udp_def find_target_Some [OF assms(1)])
qed

text \<open>
  C38. A UDP datagram is delivered to the local service, but its response never comes back
  intact: the client writes the response to the stream as it is, the server expects a two-byte
  length before each response, so whatever the server sends to the peer, it is not the response.
\<close>

theorem udp_request_delivered_response_lost:
  assumes target: "find (\<lambda>c. server_port c = port) configs = Some target" and fits: "length data < 65536"
    and env: "udp_bind env = None" "udp_send env (local_addr_text target) = None" "udp_recv env = UdpResponse response"
  shows "\<exists>w w'. snd (serve_request (udp_request port data peer) r fresh_writer) = w
     \<and> handle_tunnel_stream env configs (hung_up (wr_data w)) fresh_writer
        = (Ok (), [UdpToLocal (local_addr_text target) data], w')
     \<and> wr_data w' = response
     \<and> ToUdpPeer peer response
         \<notin> set (fst (serve_request (udp_request port data peer) (hung_up (wr_data w')) fresh_writer))"
proof -
  have r: "rd_data (hung_up (tunnel_header 2 port @ udp_frame data)) = tunnel_header 2 port @ udp_frame data" by simp
  have f: "udp_fits data" using fits by (simp add: udp_fits_def)
  have "response \<notin> set (udp_response_loop (hung_up response))"
    using udp_response_loop_mem [of response "hung_up response"] by auto
  with read_header [OF r, of env configs fresh_writer]
    handle_udp_delivers [OF target f env(1,2), of "hung_up (udp_frame data)" "[]" fresh_writer] env(3)
  show ?thesis by (auto simp: serve_udp)
qed

theorem udp_request_delivered_response_lost_witness:
  "\<exists>w'. handle_tunnel_stream sample_env [sample_rp_config]
      (hung_up (wr_data (snd (serve_request
         (udp_request 7000 [5] (SocketAddr_new ipv4_localhost 53)) (hung_up []) fresh_writer))))
      fresh_writer = (Ok (), [UdpToLocal (local_addr_text sample_rp_config) [5]], w')
    \<and> wr_data w' = [0, 1, 9]"
  using udp_request_delivered_response_lost [of 7000 "[sample_rp_config]" sample_rp_config "[5]"
      sample_env "[0, 1, 9]" "SocketAddr_new ipv4_localhost 53" "hung_up []"]
  by (auto simp: sample_rp_config_def sample_env_def)

end
