(* ===== verification/Tunnel_Run.thy ===== *)
theory Tunnel_Run
  imports Reverse_Client "HOL-Library.Sublist"
begin

text \<open>
  All tunnels of a connected client at once: the listeners of \<^verbatim>\<open>src/src/reverse_proxy/server.rs\<close> put connections and
  datagrams into a bounded channel, the loop of the handler opens a stream for each, and the tasks of the streams on both
  sides move bytes in pieces, in any order, until they are done or the connection of the client breaks.

  The multiplexer is a parameter. What is used of it is \<open>mux_ok\<close>: opening gives a stream that was not in use, a stream is accepted
  once, and on each stream bytes arrive in the order in which they were written.
\<close>

section \<open>The multiplexer\<close>

datatype Side = ServerSide | ClientSide

text \<open>\<open>poll_new_outbound\<close>, \<open>poll_next_inbound\<close>, and writing to and reading from a stream.\<close>

record 'm Mux =
  mux_open :: "'m \<Rightarrow> nat option \<times> 'm"
  mux_accept :: "'m \<Rightarrow> nat option \<times> 'm"
  mux_write :: "Side \<Rightarrow> nat \<Rightarrow> bytes \<Rightarrow> 'm \<Rightarrow> 'm"
  mux_read :: "Side \<Rightarrow> nat \<Rightarrow> nat \<Rightarrow> 'm \<Rightarrow> bytes \<times> 'm"

text \<open>What has happened on a stream: \<open>down\<close> is from the server to the client.\<close>

record Stream =
  st_open :: bool
  st_accepted :: bool
  st_down :: bytes
  st_down_read :: bytes
  st_up :: bytes
  st_up_read :: bytes

definition no_stream :: Stream where
  "no_stream =
     \<lparr>st_open = False, st_accepted = False, st_down = [], st_down_read = [], st_up = [], st_up_read = []\<rparr>"

fun add_written :: "Side \<Rightarrow> bytes \<Rightarrow> Stream \<Rightarrow> Stream" where
  "add_written ServerSide bs x = x\<lparr>st_down := st_down x @ bs\<rparr>"
| "add_written ClientSide bs x = x\<lparr>st_up := st_up x @ bs\<rparr>"

fun add_read :: "Side \<Rightarrow> bytes \<Rightarrow> Stream \<Rightarrow> Stream" where
  "add_read ServerSide bs x = x\<lparr>st_up_read := st_up_read x @ bs\<rparr>"
| "add_read ClientSide bs x = x\<lparr>st_down_read := st_down_read x @ bs\<rparr>"

definition in_order :: "Stream \<Rightarrow> bool" where
  "in_order x \<longleftrightarrow> prefix (st_down_read x) (st_down x) \<and> prefix (st_up_read x) (st_up x)"

definition unread :: "Side \<Rightarrow> Stream \<Rightarrow> bytes" where
  "unread d x =
     (case d of ServerSide \<Rightarrow> drop (length (st_up_read x)) (st_up x)
      | ClientSide \<Rightarrow> drop (length (st_down_read x)) (st_down x))"

definition mux_ok :: "'m Mux \<Rightarrow> 'm \<Rightarrow> ('m \<Rightarrow> nat \<Rightarrow> Stream) \<Rightarrow> bool" where
  "mux_ok mx new seen \<longleftrightarrow>
     (\<forall>i. seen new i = no_stream)
     \<and> (\<forall>m m' i. mux_open mx m = (Some i, m') \<longrightarrow>
          seen m i = no_stream \<and> seen m' = (seen m)(i := no_stream\<lparr>st_open := True\<rparr>))
     \<and> (\<forall>m m'. mux_open mx m = (None, m') \<longrightarrow> seen m' = seen m)
     \<and> (\<forall>m m' i. mux_accept mx m = (Some i, m') \<longrightarrow>
          st_open (seen m i) \<and> \<not> st_accepted (seen m i)
          \<and> seen m' = (seen m)(i := (seen m i)\<lparr>st_accepted := True\<rparr>))
     \<and> (\<forall>m m'. mux_accept mx m = (None, m') \<longrightarrow> seen m' = seen m)
     \<and> (\<forall>m d i bs. st_open (seen m i) \<longrightarrow> seen (mux_write mx d i bs m) = (seen m)(i := add_written d bs (seen m i)))
     \<and> (\<forall>m m' d i n bs. st_open (seen m i) \<longrightarrow> mux_read mx d i n m = (bs, m') \<longrightarrow>
          length bs \<le> n \<and> seen m' = (seen m)(i := add_read d bs (seen m i))
          \<and> (in_order (seen m i) \<longrightarrow> in_order (add_read d bs (seen m i))))"

lemma mux_okD:
  assumes "mux_ok mx new seen"
  shows "seen new i = no_stream"
    and "mux_open mx m = (Some i, m') \<Longrightarrow> seen m i = no_stream \<and> seen m' = (seen m)(i := no_stream\<lparr>st_open := True\<rparr>)"
    and "mux_open mx m = (None, m') \<Longrightarrow> seen m' = seen m"
    and "mux_accept mx m = (Some i, m') \<Longrightarrow> st_open (seen m i) \<and> \<not> st_accepted (seen m i)
      \<and> seen m' = (seen m)(i := (seen m i)\<lparr>st_accepted := True\<rparr>)"
    and "mux_accept mx m = (None, m') \<Longrightarrow> seen m' = seen m"
    and "st_open (seen m i) \<Longrightarrow> seen (mux_write mx d i bs m) = (seen m)(i := add_written d bs (seen m i))"
    and "st_open (seen m i) \<Longrightarrow> mux_read mx d i n m = (bs, m') \<Longrightarrow> length bs \<le> n \<and> seen m' = (seen m)(i := add_read d bs (seen m i))
      \<and> (in_order (seen m i) \<longrightarrow> in_order (add_read d bs (seen m i)))"
  using assms unfolding mux_ok_def by simp_all

section \<open>The tasks\<close>

text \<open>
  The task the server spawns for a request. The bytes it writes to the stream in the end are those \<open>serve_request\<close> writes: the
  header, and what the peer sends. \<open>sv_pending\<close> are those still to be written, \<open>sv_read\<close> those read from the stream.
\<close>

definition request_bytes :: "TunnelRequest \<Rightarrow> bytes" where
  "request_bytes req = wr_data (snd (serve_request req (hung_up []) fresh_writer))"

record ServerTask =
  sv_request :: TunnelRequest
  sv_pending :: bytes
  sv_read :: bytes

definition ServerTask_new :: "TunnelRequest \<Rightarrow> ServerTask" where
  "ServerTask_new req = \<lparr>sv_request = req, sv_pending = request_bytes req, sv_read = []\<rparr>"

text \<open>
  A task for a connection copies in both directions once the header is written; a task for a datagram reads when it
  has written everything.
\<close>

definition may_read :: "ServerTask \<Rightarrow> bool" where
  "may_read v \<longleftrightarrow>
     (case tr_tcp_stream (sv_request v) of
        Some stream \<Rightarrow> length (sv_pending v) \<le> length stream
      | None \<Rightarrow> sv_pending v = [])"

text \<open>What the peer has received of the bytes read so far.\<close>

definition delivered :: "ServerTask \<Rightarrow> PeerAction list" where
  "delivered v = fst (serve_request (sv_request v) (hung_up (sv_read v)) fresh_writer)"

text \<open>
  The task the client spawns for a stream: it reads the header; it forwards between the stream and a local
  service, to which it has sent some bytes and which sends \<open>reply\<close>, of which the last argument
  is still to be copied; it reads a datagram; it has sent the datagram on and writes the response; or it has ended with an error.
\<close>

datatype ClientTask =
    ReadingHeader bytes
  | Forwarding ReverseProxyConfig bytes bytes bytes
  | ReadingDatagram ReverseProxyConfig bytes
  | DatagramSent ReverseProxyConfig bytes bytes bytes
  | Ended AppError

record 'm TunnelRun =
  requests :: "TunnelRequest list"
  connected_mux :: bool
  muxer :: 'm
  server_tasks :: "nat \<Rightarrow> ServerTask option"
  client_tasks :: "nat \<Rightarrow> ClientTask option"

text \<open>\<open>mpsc::channel(256)\<close>: a listener waits while the channel is full.\<close>

definition CHANNEL_CAPACITY :: nat where
  "CHANNEL_CAPACITY = 256"

abbreviation header_port :: "bytes \<Rightarrow> u16" where
  "header_port h \<equiv> u16_from_be_bytes [h ! 2, h ! 3]"

text \<open>How many bytes of a datagram are to be read: the two bytes of its length, then as many as they say.\<close>

definition frame_wanted :: "bytes \<Rightarrow> nat" where
  "frame_wanted got =
     (if length got < 2 then 2 - length got else 2 + unat (u16_from_be_bytes (take 2 got)) - length got)"

definition udp_reply :: "LocalEnv \<Rightarrow> bytes" where
  "udp_reply env = (case udp_recv env of UdpResponse response \<Rightarrow> response | UdpRecvError \<Rightarrow> [] | UdpTimeout \<Rightarrow> [])"

text \<open>
  The server: its listeners, whose buffer holds a datagram of at most 65535 bytes, the loop of the handler, and the tasks of the streams. When
  the loop ends the channel is dropped and the listeners are aborted; the tasks go on while the streams let them.
\<close>

inductive serving_step :: "'m Mux \<Rightarrow> ReverseProxyConfig list \<Rightarrow> 'm TunnelRun \<Rightarrow> 'm TunnelRun \<Rightarrow> bool"
  for mx :: "'m Mux" and configs :: "ReverseProxyConfig list" where
  peer_connects: "connected_mux s \<Longrightarrow> port \<in> server_port ` set configs \<Longrightarrow> length (requests s) < CHANNEL_CAPACITY \<Longrightarrow>
    serving_step mx configs s (s\<lparr>requests := requests s @ [tcp_request port stream]\<rparr>)"
| datagram_arrives: "connected_mux s \<Longrightarrow> port \<in> server_port ` set configs \<Longrightarrow> length (requests s) < CHANNEL_CAPACITY \<Longrightarrow>
    length data \<le> 65535 \<Longrightarrow> serving_step mx configs s (s\<lparr>requests := requests s @ [udp_request port data peer]\<rparr>)"
| request_opened: "connected_mux s \<Longrightarrow> requests s = req # reqs \<Longrightarrow> mux_open mx (muxer s) = (Some i, m) \<Longrightarrow>
    serving_step mx configs s
      (s\<lparr>requests := reqs, muxer := m, server_tasks := (server_tasks s)(i \<mapsto> ServerTask_new req)\<rparr>)"
| request_dropped: "connected_mux s \<Longrightarrow> requests s = req # reqs \<Longrightarrow> mux_open mx (muxer s) = (None, m) \<Longrightarrow>
    serving_step mx configs s (s\<lparr>requests := reqs, muxer := m\<rparr>)"
| connection_lost: "serving_step mx configs s (s\<lparr>requests := [], connected_mux := False\<rparr>)"
| peer_to_stream: "server_tasks s i = Some v \<Longrightarrow> sv_pending v = bs @ rest \<Longrightarrow>
    serving_step mx configs s
      (s\<lparr>muxer := mux_write mx ServerSide i bs (muxer s),
         server_tasks := (server_tasks s)(i \<mapsto> v\<lparr>sv_pending := rest\<rparr>)\<rparr>)"
| stream_to_peer: "server_tasks s i = Some v \<Longrightarrow> may_read v \<Longrightarrow> mux_read mx ServerSide i n (muxer s) = (bs, m) \<Longrightarrow>
    serving_step mx configs s
      (s\<lparr>muxer := m, server_tasks := (server_tasks s)(i \<mapsto> v\<lparr>sv_read := sv_read v @ bs\<rparr>)\<rparr>)"

text \<open>The client. The local services are given for each stream, by the environment its task meets.\<close>

inductive forwarding_step ::
  "'m Mux \<Rightarrow> ReverseProxyConfig list \<Rightarrow> (nat \<Rightarrow> LocalEnv) \<Rightarrow> 'm TunnelRun \<Rightarrow> 'm TunnelRun \<Rightarrow> bool"
  for mx :: "'m Mux" and configs :: "ReverseProxyConfig list" and envs :: "nat \<Rightarrow> LocalEnv" where
  stream_accepted: "mux_accept mx (muxer s) = (Some i, m) \<Longrightarrow>
    forwarding_step mx configs envs s
      (s\<lparr>muxer := m, client_tasks := (client_tasks s)(i \<mapsto> ReadingHeader [])\<rparr>)"
| nothing_accepted: "mux_accept mx (muxer s) = (None, m) \<Longrightarrow> forwarding_step mx configs envs s (s\<lparr>muxer := m\<rparr>)"
| header_read: "client_tasks s i = Some (ReadingHeader h) \<Longrightarrow> mux_read mx ClientSide i (4 - length h) (muxer s) = (bs, m) \<Longrightarrow>
    forwarding_step mx configs envs s
      (s\<lparr>muxer := m, client_tasks := (client_tasks s)(i \<mapsto> ReadingHeader (h @ bs))\<rparr>)"
| local_connected: "client_tasks s i = Some (ReadingHeader h) \<Longrightarrow> length h = 4 \<Longrightarrow> h ! 0 = 0x01 \<Longrightarrow>
    find_target (header_port h) configs = Ok target \<Longrightarrow> tcp_connect (envs i) (local_addr_text target) = Ok reply \<Longrightarrow>
    forwarding_step mx configs envs s
      (s\<lparr>client_tasks := (client_tasks s)(i \<mapsto> Forwarding target [] reply reply)\<rparr>)"
| datagram_expected: "client_tasks s i = Some (ReadingHeader h) \<Longrightarrow> length h = 4 \<Longrightarrow> h ! 0 = 0x02 \<Longrightarrow>
    find_target (header_port h) configs = Ok target \<Longrightarrow>
    forwarding_step mx configs envs s
      (s\<lparr>client_tasks := (client_tasks s)(i \<mapsto> ReadingDatagram target [])\<rparr>)"
| header_refused: "client_tasks s i = Some (ReadingHeader h) \<Longrightarrow> length h = 4 \<Longrightarrow>
    h ! 0 \<noteq> 0x02 \<or> find_target (header_port h) configs = Err e \<Longrightarrow>
    fst (handle_tunnel_stream (envs i) configs (hung_up h) fresh_writer) = Err e \<Longrightarrow>
    forwarding_step mx configs envs s (s\<lparr>client_tasks := (client_tasks s)(i \<mapsto> Ended e)\<rparr>)"
| stream_to_local: "client_tasks s i = Some (Forwarding target to_local reply rest) \<Longrightarrow>
    mux_read mx ClientSide i n (muxer s) = (bs, m) \<Longrightarrow>
    forwarding_step mx configs envs s
      (s\<lparr>muxer := m, client_tasks := (client_tasks s)(i \<mapsto> Forwarding target (to_local @ bs) reply rest)\<rparr>)"
| local_to_stream: "client_tasks s i = Some (Forwarding target to_local reply (bs @ rest)) \<Longrightarrow>
    forwarding_step mx configs envs s
      (s\<lparr>muxer := mux_write mx ClientSide i bs (muxer s),
         client_tasks := (client_tasks s)(i \<mapsto> Forwarding target to_local reply rest)\<rparr>)"
| datagram_read: "client_tasks s i = Some (ReadingDatagram target got) \<Longrightarrow>
    mux_read mx ClientSide i (frame_wanted got) (muxer s) = (bs, m) \<Longrightarrow>
    forwarding_step mx configs envs s
      (s\<lparr>muxer := m, client_tasks := (client_tasks s)(i \<mapsto> ReadingDatagram target (got @ bs))\<rparr>)"
| datagram_sent: "client_tasks s i = Some (ReadingDatagram target got) \<Longrightarrow> frame_wanted got = 0 \<Longrightarrow>
    udp_bind (envs i) = None \<Longrightarrow> udp_send (envs i) (local_addr_text target) = None \<Longrightarrow>
    forwarding_step mx configs envs s
      (s\<lparr>client_tasks := (client_tasks s)(i \<mapsto> DatagramSent target (drop 2 got) (udp_reply (envs i)) (udp_reply (envs i)))\<rparr>)"
| datagram_failed: "client_tasks s i = Some (ReadingDatagram target got) \<Longrightarrow> frame_wanted got = 0 \<Longrightarrow>
    fst (handle_udp (envs i) configs (server_port target) (hung_up got) fresh_writer) = Err e \<Longrightarrow>
    forwarding_step mx configs envs s (s\<lparr>client_tasks := (client_tasks s)(i \<mapsto> Ended e)\<rparr>)"
| response_written: "client_tasks s i = Some (DatagramSent target payload response (bs @ rest)) \<Longrightarrow>
    forwarding_step mx configs envs s
      (s\<lparr>muxer := mux_write mx ClientSide i bs (muxer s),
         client_tasks := (client_tasks s)(i \<mapsto> DatagramSent target payload response rest)\<rparr>)"

definition tunnel_step ::
  "'m Mux \<Rightarrow> ReverseProxyConfig list \<Rightarrow> (nat \<Rightarrow> LocalEnv) \<Rightarrow> 'm TunnelRun \<Rightarrow> 'm TunnelRun \<Rightarrow> bool" where
  "tunnel_step mx configs envs s t \<longleftrightarrow> serving_step mx configs s t \<or> forwarding_step mx configs envs s t"

definition tunnel_start :: "'m \<Rightarrow> 'm TunnelRun \<Rightarrow> bool" where
  "tunnel_start new s \<longleftrightarrow>
     s = \<lparr>requests = [], connected_mux = True, muxer = new, server_tasks = (\<lambda>_. None), client_tasks = (\<lambda>_. None)\<rparr>"

section \<open>Requests\<close>

text \<open>The requests the listeners make: a connection, or a datagram, to a port that is configured.\<close>

definition request_ok :: "ReverseProxyConfig list \<Rightarrow> TunnelRequest \<Rightarrow> bool" where
  "request_ok configs req \<longleftrightarrow>
     tr_target_port req \<in> server_port ` set configs
     \<and> (\<exists>port stream data peer. req = tcp_request port stream \<or> req = udp_request port data peer \<and> udp_fits data)"

lemma request_bytes_simps [simp]:
  "request_bytes (tcp_request port stream) = tunnel_header 0x01 port @ stream"
  "request_bytes (udp_request port data peer) = tunnel_header 0x02 port @ udp_frame data"
  by (simp_all add: request_bytes_def serve_tcp serve_udp)

lemma request_fields [simp]:
  "tr_target_port (tcp_request port stream) = port" "tr_tcp_stream (tcp_request port stream) = Some stream"
  "tr_target_port (udp_request port data peer) = port" "tr_tcp_stream (udp_request port data peer) = None"
  by (simp_all add: tcp_request_def udp_request_def)

lemma request_inject [simp]:
  "tcp_request port stream = tcp_request port' stream' \<longleftrightarrow> port = port' \<and> stream = stream'"
  "udp_request port data peer = udp_request port' data' peer' \<longleftrightarrow> port = port' \<and> data = data' \<and> peer = peer'"
  "tcp_request port stream \<noteq> udp_request port' data peer" "udp_request port' data peer \<noteq> tcp_request port stream"
  by (auto simp: tcp_request_def udp_request_def)

lemma tunnel_header_length [simp]: "length (tunnel_header kind port) = 4"
  by (simp add: tunnel_header_def)

lemma tunnel_header_kind [simp]: "tunnel_header kind port ! 0 = kind"
  by (simp add: tunnel_header_def)

lemma frame_complete:
  assumes "prefix got (udp_frame data)" "udp_fits data" "frame_wanted got = 0"
  shows "got = udp_frame data"
proof -
  have len: "2 \<le> length got" using assms(3) by (simp add: frame_wanted_def split: if_splits)
  obtain zs where z: "udp_frame data = got @ zs" using assms(1) by (auto simp: prefix_def)
  then have "take 2 (udp_frame data) = take 2 got" using len by simp
  then have "take 2 got = u16_to_be_bytes (word_of_nat (length data))" by (simp add: udp_frame_def)
  with assms(2,3) len have "2 + length data \<le> length got"
    by (simp add: frame_wanted_def udp_fits_def unat_of_nat)
  moreover have "length got + length zs = 2 + length data" using arg_cong [OF z, of length] by (simp add: udp_frame_def)
  ultimately have "length zs = 0" by linarith
  with z show ?thesis by simp
qed

section \<open>The invariant\<close>

text \<open>What holds of a stream and its two tasks.\<close>

definition service_reached :: "LocalEnv \<Rightarrow> TunnelRequest \<Rightarrow> ReverseProxyConfig \<Rightarrow> bool" where
  "service_reached env req target \<longleftrightarrow>
     (if tr_tcp_stream req = None then udp_bind env = None \<and> udp_send env (local_addr_text target) = None
      else is_ok (tcp_connect env (local_addr_text target)))"

fun client_ok :: "ReverseProxyConfig list \<Rightarrow> LocalEnv \<Rightarrow> TunnelRequest \<Rightarrow> Stream \<Rightarrow> ClientTask option \<Rightarrow> bool" where
  "client_ok configs env req x None \<longleftrightarrow> \<not> st_accepted x \<and> st_down_read x = [] \<and> st_up x = []"
| "client_ok configs env req x (Some (ReadingHeader h)) \<longleftrightarrow>
     st_accepted x \<and> st_down_read x = h \<and> length h \<le> 4 \<and> st_up x = []"
| "client_ok configs env req x (Some (Forwarding target to_local reply rest)) \<longleftrightarrow>
     st_accepted x
     \<and> (\<exists>port stream. req = tcp_request port stream \<and> find (\<lambda>c. server_port c = port) configs = Some target
          \<and> st_down_read x = tunnel_header 0x01 port @ to_local)
     \<and> tcp_connect env (local_addr_text target) = Ok reply \<and> reply = st_up x @ rest"
| "client_ok configs env req x (Some (ReadingDatagram target got)) \<longleftrightarrow>
     st_accepted x \<and> st_up x = []
     \<and> (\<exists>port data peer. req = udp_request port data peer \<and> find (\<lambda>c. server_port c = port) configs = Some target
          \<and> st_down_read x = tunnel_header 0x02 port @ got)"
| "client_ok configs env req x (Some (DatagramSent target payload response rest)) \<longleftrightarrow>
     st_accepted x
     \<and> (\<exists>port peer. req = udp_request port payload peer \<and> find (\<lambda>c. server_port c = port) configs = Some target)
     \<and> udp_send env (local_addr_text target) = None \<and> response = udp_reply env \<and> response = st_up x @ rest"
| "client_ok configs env req x (Some (Ended e)) \<longleftrightarrow>
     st_accepted x \<and> st_up x = []
     \<and> (\<forall>target. find (\<lambda>c. server_port c = tr_target_port req) configs = Some target \<longrightarrow> \<not> service_reached env req target)"

definition server_ok :: "Stream \<Rightarrow> ServerTask \<Rightarrow> bool" where
  "server_ok x v \<longleftrightarrow>
     st_open x \<and> in_order x \<and> st_up_read x = sv_read v \<and> st_down x @ sv_pending v = request_bytes (sv_request v)"

definition stream_ok ::
  "ReverseProxyConfig list \<Rightarrow> LocalEnv \<Rightarrow> Stream \<Rightarrow> ServerTask option \<Rightarrow> ClientTask option \<Rightarrow> bool" where
  "stream_ok configs env x sv cl \<longleftrightarrow>
     (case sv of None \<Rightarrow> x = no_stream \<and> cl = None
      | Some v \<Rightarrow> request_ok configs (sv_request v) \<and> server_ok x v \<and> client_ok configs env (sv_request v) x cl)"

definition tunnel_inv ::
  "ReverseProxyConfig list \<Rightarrow> (nat \<Rightarrow> LocalEnv) \<Rightarrow> ('m \<Rightarrow> nat \<Rightarrow> Stream) \<Rightarrow> 'm TunnelRun \<Rightarrow> bool" where
  "tunnel_inv configs envs seen s \<longleftrightarrow>
     length (requests s) \<le> CHANNEL_CAPACITY \<and> list_all (request_ok configs) (requests s)
     \<and> (\<forall>i. stream_ok configs (envs i) (seen (muxer s) i) (server_tasks s i) (client_tasks s i))"

lemma stream_okE:
  assumes "stream_ok configs env x sv cl" "st_open x"
  obtains v where "sv = Some v" "request_ok configs (sv_request v)" "server_ok x v" "client_ok configs env (sv_request v) x cl"
  using assms by (cases sv) (auto simp: stream_ok_def no_stream_def)

lemma stream_ok_client: "stream_ok configs env x sv (Some c) \<Longrightarrow> st_open x"
  by (cases sv) (auto simp: stream_ok_def server_ok_def)

lemma stream_ok_Some:
  "stream_ok configs env x (Some v) cl \<longleftrightarrow>
     request_ok configs (sv_request v) \<and> server_ok x v \<and> client_ok configs env (sv_request v) x cl"
  by (simp add: stream_ok_def)

text \<open>Each step keeps the invariant of the stream it works on.\<close>

lemma stream_ok_opened:
  "stream_ok configs env no_stream sv cl \<Longrightarrow> request_ok configs req \<Longrightarrow>
   stream_ok configs env (no_stream\<lparr>st_open := True\<rparr>) (Some (ServerTask_new req)) cl"
  by (cases sv) (auto simp: stream_ok_def server_ok_def no_stream_def in_order_def ServerTask_new_def)

lemma client_ok_written:
  "client_ok configs env req x cl \<Longrightarrow> client_ok configs env req (add_written ServerSide bs x) cl"
  by (cases "(configs, env, req, x, cl)" rule: client_ok.cases) auto

lemma client_ok_read:
  "client_ok configs env req x cl \<Longrightarrow> client_ok configs env req (add_read ServerSide bs x) cl"
  by (cases "(configs, env, req, x, cl)" rule: client_ok.cases) auto

lemma server_ok_sent:
  "server_ok x v \<Longrightarrow> sv_pending v = bs @ rest \<Longrightarrow>
   server_ok (add_written ServerSide bs x) (v\<lparr>sv_pending := rest\<rparr>)"
  by (auto simp: server_ok_def in_order_def)

lemma server_ok_received:
  "server_ok x v \<Longrightarrow> in_order (add_read ServerSide bs x) \<Longrightarrow>
   server_ok (add_read ServerSide bs x) (v\<lparr>sv_read := sv_read v @ bs\<rparr>)"
  by (auto simp: server_ok_def)

lemma server_ok_accepted: "server_ok x v \<Longrightarrow> server_ok (x\<lparr>st_accepted := True\<rparr>) v"
  by (auto simp: server_ok_def in_order_def)

lemma server_ok_down:
  assumes "server_ok x v"
  shows "prefix (st_down_read x) (request_bytes (sv_request v))"
    and "sv_pending v = [] \<Longrightarrow> st_down_read x = st_down x \<Longrightarrow> st_down_read x = request_bytes (sv_request v)"
  using assms by (auto simp: server_ok_def in_order_def prefix_def) (metis append.assoc)

text \<open>A header that has been read is the one that was written.\<close>

lemma header_complete:
  assumes "request_ok configs (sv_request v)" "server_ok x v" "st_down_read x = h" "length h = 4"
  shows "\<exists>port stream data peer.
      sv_request v = tcp_request port stream \<and> h = tunnel_header 0x01 port
    \<or> sv_request v = udp_request port data peer \<and> udp_fits data \<and> h = tunnel_header 0x02 port"
proof -
  have p: "prefix h (request_bytes (sv_request v))" using server_ok_down(1) [OF assms(2)] assms(3) by simp
  have h: "h = tunnel_header kind port" if "prefix h (tunnel_header kind port @ body)" for kind port body
    using that assms(4) by (auto simp: prefix_def append_eq_append_conv)
  from assms(1) p h show ?thesis unfolding request_ok_def by (metis request_bytes_simps)
qed

lemma stream_ok_header:
  assumes ok: "stream_ok configs env x sv (Some (ReadingHeader h))" and h: "length h = 4"
    and target: "find_target (header_port h) configs = Ok target"
  shows "h ! 0 = 0x01 \<Longrightarrow> tcp_connect env (local_addr_text target) = Ok reply \<Longrightarrow>
      stream_ok configs env x sv (Some (Forwarding target [] reply reply))"
    and "h ! 0 = 0x02 \<Longrightarrow> stream_ok configs env x sv (Some (ReadingDatagram target []))"
proof -
  from stream_okE [OF ok stream_ok_client [OF ok]] obtain v where
    v: "sv = Some v" "request_ok configs (sv_request v)" "server_ok x v"
    "client_ok configs env (sv_request v) x (Some (ReadingHeader h))" .
  have f: "find (\<lambda>c. server_port c = port) configs = Some target" if "h = tunnel_header kind port" for kind port
    using target that by (simp add: tunnel_header_port find_target_def ok_or_def split: option.splits)
  have req: "\<exists>port stream data peer.
      sv_request v = tcp_request port stream \<and> h = tunnel_header 0x01 port
    \<or> sv_request v = udp_request port data peer \<and> udp_fits data \<and> h = tunnel_header 0x02 port"
    using header_complete [OF v(2,3) _ h] v(4) by simp
  { assume "h ! 0 = 0x01" "tcp_connect env (local_addr_text target) = Ok reply"
    with req f v show "stream_ok configs env x sv (Some (Forwarding target [] reply reply))"
      by (auto simp: stream_ok_Some) }
  { assume "h ! 0 = 0x02"
    with req f v show "stream_ok configs env x sv (Some (ReadingDatagram target []))"
      by (auto simp: stream_ok_Some) }
qed

lemma stream_ok_accepted:
  assumes ok: "stream_ok configs env x sv cl" and "st_open x" "\<not> st_accepted x"
  shows "stream_ok configs env (x\<lparr>st_accepted := True\<rparr>) sv (Some (ReadingHeader []))"
proof -
  from stream_okE [OF ok assms(2)] obtain v where
    v: "sv = Some v" "request_ok configs (sv_request v)" "server_ok x v" "client_ok configs env (sv_request v) x cl" .
  with assms(3) have "cl = None" by (cases "(configs, env, sv_request v, x, cl)" rule: client_ok.cases) auto
  with v show ?thesis by (simp add: stream_ok_Some server_ok_accepted)
qed

lemma stream_ok_change:
  assumes ok: "stream_ok configs env x sv (Some c)"
    and "\<And>v. server_ok x v \<Longrightarrow> server_ok x' v"
    and "\<And>req. request_ok configs req \<Longrightarrow> client_ok configs env req x (Some c) \<Longrightarrow> client_ok configs env req x' (Some c')"
  shows "stream_ok configs env x' sv (Some c')"
proof -
  from stream_okE [OF ok stream_ok_client [OF ok]] obtain v where
    "sv = Some v" "request_ok configs (sv_request v)" "server_ok x v" "client_ok configs env (sv_request v) x (Some c)" .
  with assms(2,3) show ?thesis by (simp add: stream_ok_Some)
qed

lemma stream_ok_header_read:
  assumes "stream_ok configs env x sv (Some (ReadingHeader h))"
    and "length bs \<le> 4 - length h" "in_order x \<longrightarrow> in_order (add_read ClientSide bs x)"
  shows "stream_ok configs env (add_read ClientSide bs x) sv (Some (ReadingHeader (h @ bs)))"
  by (rule stream_ok_change [OF assms(1)]) (use assms(2,3) in \<open>auto simp: server_ok_def\<close>)

lemma stream_ok_to_local:
  assumes "stream_ok configs env x sv (Some (Forwarding target to_local reply rest))"
    and "in_order x \<longrightarrow> in_order (add_read ClientSide bs x)"
  shows "stream_ok configs env (add_read ClientSide bs x) sv (Some (Forwarding target (to_local @ bs) reply rest))"
  by (rule stream_ok_change [OF assms(1)]) (use assms(2) in \<open>auto simp: server_ok_def\<close>)

lemma stream_ok_to_stream:
  assumes "stream_ok configs env x sv (Some (Forwarding target to_local reply (bs @ rest)))"
  shows "stream_ok configs env (add_written ClientSide bs x) sv (Some (Forwarding target to_local reply rest))"
  by (rule stream_ok_change [OF assms]) (auto simp: server_ok_def in_order_def)

lemma stream_ok_datagram_read:
  assumes "stream_ok configs env x sv (Some (ReadingDatagram target got))"
    and "in_order x \<longrightarrow> in_order (add_read ClientSide bs x)"
  shows "stream_ok configs env (add_read ClientSide bs x) sv (Some (ReadingDatagram target (got @ bs)))"
  by (rule stream_ok_change [OF assms(1)]) (use assms(2) in \<open>auto simp: server_ok_def\<close>)

lemma stream_ok_response_written:
  assumes "stream_ok configs env x sv (Some (DatagramSent target payload response (bs @ rest)))"
  shows "stream_ok configs env (add_written ClientSide bs x) sv (Some (DatagramSent target payload response rest))"
  by (rule stream_ok_change [OF assms]) (auto simp: server_ok_def in_order_def)

lemma stream_ok_datagram_sent:
  assumes ok: "stream_ok configs env x sv (Some (ReadingDatagram target got))" and "frame_wanted got = 0"
    and "udp_send env (local_addr_text target) = None"
  shows "stream_ok configs env x sv (Some (DatagramSent target (drop 2 got) (udp_reply env) (udp_reply env)))"
proof -
  from stream_okE [OF ok stream_ok_client [OF ok]] obtain v where
    v: "sv = Some v" "request_ok configs (sv_request v)" "server_ok x v"
    "client_ok configs env (sv_request v) x (Some (ReadingDatagram target got))" .
  then obtain port data peer where u: "sv_request v = udp_request port data peer"
    "find (\<lambda>c. server_port c = port) configs = Some target" "st_down_read x = tunnel_header 0x02 port @ got"
    by auto
  with v(2) have "udp_fits data" by (auto simp: request_ok_def)
  moreover from u server_ok_down(1) [OF v(3)] have "prefix got (udp_frame data)" by (auto simp: prefix_def)
  ultimately have "got = udp_frame data" using frame_complete assms(2) by blast
  then have "drop 2 got = data" by (simp add: udp_frame_def)
  with v u assms(3) show ?thesis by (simp add: stream_ok_Some)
qed

lemma stream_ok_refused:
  assumes ok: "stream_ok configs env x sv (Some (ReadingHeader h))" and h: "length h = 4"
    and no: "h ! 0 \<noteq> 0x02 \<or> find_target (header_port h) configs = Err e"
    and e: "fst (handle_tunnel_stream env configs (hung_up h) fresh_writer) = Err e"
  shows "stream_ok configs env x sv (Some (Ended e))"
proof -
  from stream_okE [OF ok stream_ok_client [OF ok]] obtain v where
    v: "sv = Some v" "request_ok configs (sv_request v)" "server_ok x v"
    "client_ok configs env (sv_request v) x (Some (ReadingHeader h))" .
  have "\<not> service_reached env (sv_request v) target"
    if f: "find (\<lambda>c. server_port c = tr_target_port (sv_request v)) configs = Some target" for target
  proof -
    from header_complete [OF v(2,3) _ h] v(4) consider
      port stream where "sv_request v = tcp_request port stream" "h = tunnel_header 0x01 port"
    | port data peer where "sv_request v = udp_request port data peer" "h = tunnel_header 0x02 port" by auto
    then show ?thesis
    proof cases
      case 1
      then have "rd_data (hung_up h) = tunnel_header 0x01 port @ []" by simp
      from read_header [OF this, of env configs fresh_writer] e find_target_Some [OF f] 1 show ?thesis
        by (cases "tcp_connect env (local_addr_text target)") (simp_all add: handle_tcp_def service_reached_def)
    next
      case 2
      with no find_target_Some [OF f] show ?thesis by (simp add: tunnel_header_port)
    qed
  qed
  with v show ?thesis by (simp add: stream_ok_Some)
qed

lemma stream_ok_failed:
  assumes ok: "stream_ok configs env x sv (Some (ReadingDatagram target got))" and w: "frame_wanted got = 0"
    and e: "fst (handle_udp env configs (server_port target) (hung_up got) fresh_writer) = Err e"
  shows "stream_ok configs env x sv (Some (Ended e))"
proof -
  from stream_okE [OF ok stream_ok_client [OF ok]] obtain v where
    v: "sv = Some v" "request_ok configs (sv_request v)" "server_ok x v"
    "client_ok configs env (sv_request v) x (Some (ReadingDatagram target got))" .
  then obtain port data peer where u: "sv_request v = udp_request port data peer"
    "find (\<lambda>c. server_port c = port) configs = Some target" "st_down_read x = tunnel_header 0x02 port @ got"
    by auto
  with v(2) have fits: "udp_fits data" by (auto simp: request_ok_def)
  from u server_ok_down(1) [OF v(3)] have "prefix got (udp_frame data)" by (auto simp: prefix_def)
  then have "got = udp_frame data" using frame_complete [OF _ fits w] by blast
  moreover have "server_port target = port" using u(2) by (auto simp: find_Some_iff)
  ultimately have "\<not> service_reached env (sv_request v) target"
    using e handle_udp_delivers [OF u(2) fits, of env "hung_up got" "[]" fresh_writer] u(1)
    by (cases "udp_bind env"; cases "udp_send env (local_addr_text target)") (auto simp: service_reached_def)
  with v u show ?thesis by (simp add: stream_ok_Some)
qed

text \<open>A step changes one stream and its tasks; the others keep their invariant.\<close>

lemma tunnel_inv_server:
  assumes "tunnel_inv configs envs seen s" "seen m = (seen (muxer s))(i := x)"
    "stream_ok configs (envs i) x sv (client_tasks s i)"
  shows "tunnel_inv configs envs seen (s\<lparr>muxer := m, server_tasks := (server_tasks s)(i := sv)\<rparr>)"
  using assms by (simp add: tunnel_inv_def)

lemma tunnel_inv_client:
  assumes "tunnel_inv configs envs seen s" "seen m = (seen (muxer s))(i := x)"
    "stream_ok configs (envs i) x (server_tasks s i) cl"
  shows "tunnel_inv configs envs seen (s\<lparr>muxer := m, client_tasks := (client_tasks s)(i := cl)\<rparr>)"
  using assms by (simp add: tunnel_inv_def)

lemma tunnel_inv_client_only:
  assumes "tunnel_inv configs envs seen s" "stream_ok configs (envs i) (seen (muxer s) i) (server_tasks s i) cl"
  shows "tunnel_inv configs envs seen (s\<lparr>client_tasks := (client_tasks s)(i := cl)\<rparr>)"
  using assms by (simp add: tunnel_inv_def)

lemma tunnel_invD:
  "tunnel_inv configs envs seen s \<Longrightarrow> stream_ok configs (envs i) (seen (muxer s) i) (server_tasks s i) (client_tasks s i)"
  by (simp add: tunnel_inv_def)

lemma tunnel_inv_open:
  assumes "tunnel_inv configs envs seen s"
  shows "server_tasks s i = Some v \<Longrightarrow> st_open (seen (muxer s) i)"
    and "client_tasks s i = Some c \<Longrightarrow> st_open (seen (muxer s) i)"
  using tunnel_invD [OF assms, of i] by (auto simp: stream_ok_Some server_ok_def dest: stream_ok_client)

lemma tunnel_inv_serving:
  assumes mux: "mux_ok mx new seen" and step: "serving_step mx configs s t" and inv: "tunnel_inv configs envs seen s"
  shows "tunnel_inv configs envs seen t"
  using step
proof cases
  case (peer_connects port stream)
  with inv show ?thesis by (auto simp: tunnel_inv_def request_ok_def)
next
  case (datagram_arrives port data peer)
  with inv show ?thesis by (auto simp: tunnel_inv_def request_ok_def udp_fits_def)
next
  case (request_opened req reqs i m)
  then show ?thesis
    using mux_okD(2) [OF mux request_opened(4)] tunnel_invD [OF inv, of i] inv
      stream_ok_opened [of configs "envs i" "server_tasks s i" "client_tasks s i" req]
    by (simp add: tunnel_inv_def)
next
  case (request_dropped req reqs m)
  then show ?thesis using mux_okD(3) [OF mux request_dropped(4)] inv by (simp add: tunnel_inv_def)
next
  case connection_lost
  with inv show ?thesis by (simp add: tunnel_inv_def)
next
  case (peer_to_stream i v bs rest)
  show ?thesis
    unfolding peer_to_stream(1)
    by (rule tunnel_inv_server [OF inv mux_okD(6) [OF mux tunnel_inv_open(1) [OF inv peer_to_stream(2)]]])
      (use tunnel_invD [OF inv, of i] peer_to_stream in
        \<open>auto simp: stream_ok_Some simp del: add_written.simps intro: server_ok_sent client_ok_written\<close>)
next
  case (stream_to_peer i v n bs m)
  note read = mux_okD(7) [OF mux tunnel_inv_open(1) [OF inv stream_to_peer(2)] stream_to_peer(4)]
  have "in_order (seen (muxer s) i)" using tunnel_invD [OF inv, of i] stream_to_peer(2) by (simp add: stream_ok_Some server_ok_def)
  with read have order: "in_order (add_read ServerSide bs (seen (muxer s) i))" by simp
  show ?thesis
    unfolding stream_to_peer(1)
    by (rule tunnel_inv_server [OF inv read [THEN conjunct2, THEN conjunct1]])
      (use tunnel_invD [OF inv, of i] stream_to_peer(2) order in
        \<open>auto simp: stream_ok_Some simp del: add_read.simps intro: server_ok_received client_ok_read\<close>)
qed

text \<open>The two ways a client task takes a step: on the stream too, or on its own.\<close>

lemma tunnel_inv_client_read:
  assumes mux: "mux_ok mx new seen" and inv: "tunnel_inv configs envs seen s"
    and read: "mux_read mx ClientSide i n (muxer s) = (bs, m)" and c: "client_tasks s i = Some c"
    and keep: "\<And>x. stream_ok configs (envs i) x (server_tasks s i) (Some c) \<Longrightarrow> length bs \<le> n \<Longrightarrow>
      in_order x \<longrightarrow> in_order (add_read ClientSide bs x) \<Longrightarrow>
      stream_ok configs (envs i) (add_read ClientSide bs x) (server_tasks s i) (Some c')"
  shows "tunnel_inv configs envs seen (s\<lparr>muxer := m, client_tasks := (client_tasks s)(i \<mapsto> c')\<rparr>)"
  using mux_okD(7) [OF mux tunnel_inv_open(2) [OF inv c] read] tunnel_invD [OF inv, of i] c
  by (auto intro!: tunnel_inv_client [OF inv] keep simp del: add_read.simps add_written.simps)

lemma tunnel_inv_client_write:
  assumes mux: "mux_ok mx new seen" and inv: "tunnel_inv configs envs seen s" and c: "client_tasks s i = Some c"
    and keep: "\<And>x. stream_ok configs (envs i) x (server_tasks s i) (Some c) \<Longrightarrow>
      stream_ok configs (envs i) (add_written ClientSide bs x) (server_tasks s i) (Some c')"
  shows "tunnel_inv configs envs seen
    (s\<lparr>muxer := mux_write mx ClientSide i bs (muxer s), client_tasks := (client_tasks s)(i \<mapsto> c')\<rparr>)"
  using mux_okD(6) [OF mux tunnel_inv_open(2) [OF inv c], of ClientSide bs] tunnel_invD [OF inv, of i] c
  by (auto intro!: tunnel_inv_client [OF inv] keep simp del: add_read.simps add_written.simps)

lemma tunnel_inv_forwarding:
  assumes mux: "mux_ok mx new seen" and step: "forwarding_step mx configs envs s t" and inv: "tunnel_inv configs envs seen s"
  shows "tunnel_inv configs envs seen t"
  using step
proof cases
  case (stream_accepted i m)
  note acc = mux_okD(4) [OF mux stream_accepted(2)]
  show ?thesis
    unfolding stream_accepted(1)
    by (rule tunnel_inv_client [OF inv acc [THEN conjunct2, THEN conjunct2]])
      (use acc stream_ok_accepted [OF tunnel_invD [OF inv, of i]] in simp)
next
  case (nothing_accepted m)
  then show ?thesis using mux_okD(5) [OF mux nothing_accepted(2)] inv by (simp add: tunnel_inv_def)
next
  case (local_connected i h target reply)
  with tunnel_invD [OF inv, of i] show ?thesis by (auto intro: tunnel_inv_client_only [OF inv] stream_ok_header(1))
next
  case (datagram_expected i h target)
  with tunnel_invD [OF inv, of i] show ?thesis by (auto intro: tunnel_inv_client_only [OF inv] stream_ok_header(2))
next
  case (datagram_sent i target got)
  with tunnel_invD [OF inv, of i] show ?thesis by (auto intro: tunnel_inv_client_only [OF inv] stream_ok_datagram_sent)
next
  case (header_refused i h e)
  with tunnel_invD [OF inv, of i] show ?thesis by (auto intro: tunnel_inv_client_only [OF inv] stream_ok_refused)
next
  case (datagram_failed i target got e)
  with tunnel_invD [OF inv, of i] show ?thesis by (auto intro: tunnel_inv_client_only [OF inv] stream_ok_failed)
qed (auto intro: tunnel_inv_client_read [OF mux inv] tunnel_inv_client_write [OF mux inv] stream_ok_header_read
    stream_ok_to_local stream_ok_to_stream stream_ok_datagram_read stream_ok_response_written simp del: add_read.simps add_written.simps)

lemma tunnel_reach_inv:
  assumes mux: "mux_ok mx new seen" and "reach (tunnel_start new) (tunnel_step mx configs envs) s"
  shows "tunnel_inv configs envs seen s"
proof -
  have "invariant (tunnel_start new) (tunnel_step mx configs envs) (tunnel_inv configs envs seen)"
  proof
    show "tunnel_inv configs envs seen s" if "tunnel_start new s" for s
      using that mux_okD(1) [OF mux] by (simp add: tunnel_start_def tunnel_inv_def stream_ok_def CHANNEL_CAPACITY_def)
    show "tunnel_inv configs envs seen t" if "tunnel_inv configs envs seen s" "tunnel_step mx configs envs s t" for s t
      using that tunnel_inv_serving [OF mux] tunnel_inv_forwarding [OF mux] unfolding tunnel_step_def by blast
  qed
  from invariant.reach_inv [OF this assms(2)] show ?thesis .
qed

section \<open>Tunnels are kept apart\<close>

lemma delivered_tcp: "sv_request v = tcp_request port stream \<Longrightarrow> delivered v = [ToTcpPeer (sv_read v)]"
  by (simp add: delivered_def serve_tcp)

lemma delivered_udp:
  "sv_request v = udp_request port data peer \<Longrightarrow> delivered v = map (ToUdpPeer peer) (udp_response_loop (hung_up (sv_read v)))"
  by (simp add: delivered_def serve_udp)

lemma tcp_stream_ok:
  assumes "stream_ok configs env x sv (Some (Forwarding target to_local reply rest))"
  shows "\<exists>v port stream. sv = Some v \<and> sv_request v = tcp_request port stream
    \<and> find (\<lambda>c. server_port c = port) configs = Some target \<and> tcp_connect env (local_addr_text target) = Ok reply
    \<and> prefix to_local stream \<and> (sv_pending v = [] \<and> st_down_read x = st_down x \<longrightarrow> to_local = stream)
    \<and> (\<exists>got. delivered v = [ToTcpPeer got] \<and> prefix got reply \<and> (rest = [] \<and> st_up_read x = st_up x \<longrightarrow> got = reply))"
proof -
  from stream_okE [OF assms stream_ok_client [OF assms]] obtain v where
    v: "sv = Some v" "server_ok x v" "client_ok configs env (sv_request v) x (Some (Forwarding target to_local reply rest))" .
  then obtain port stream where p: "sv_request v = tcp_request port stream"
    "find (\<lambda>c. server_port c = port) configs = Some target" "st_down_read x = tunnel_header 0x01 port @ to_local"
    "tcp_connect env (local_addr_text target) = Ok reply" "reply = st_up x @ rest" by auto
  moreover have "prefix (sv_read v) (st_up x)" "st_up_read x = sv_read v" using v(2) by (auto simp: server_ok_def in_order_def)
  moreover have "prefix to_local stream" "sv_pending v = [] \<and> st_down_read x = st_down x \<longrightarrow> to_local = stream"
    using server_ok_down [OF v(2)] p by auto
  ultimately show ?thesis using v(1) delivered_tcp [OF p(1)] by (auto simp: prefix_def)
qed

lemma udp_stream_ok:
  assumes "stream_ok configs env x sv (Some (DatagramSent target payload response rest))"
  shows "\<exists>v port peer. sv = Some v \<and> sv_request v = udp_request port payload peer
    \<and> find (\<lambda>c. server_port c = port) configs = Some target \<and> ToUdpPeer peer response \<notin> set (delivered v)"
proof -
  from stream_okE [OF assms stream_ok_client [OF assms]] obtain v where
    v: "sv = Some v" "server_ok x v" "client_ok configs env (sv_request v) x (Some (DatagramSent target payload response rest))" .
  then obtain port peer where p: "sv_request v = udp_request port payload peer"
    "find (\<lambda>c. server_port c = port) configs = Some target" "response = st_up x @ rest" by auto
  have "prefix (sv_read v) response" using v(2) p(3) by (auto simp: server_ok_def in_order_def)
  then have "length (sv_read v) \<le> length response" by (rule prefix_length_le)
  then have "response \<notin> set (udp_response_loop (hung_up (sv_read v)))"
    using udp_response_loop_mem [of response "hung_up (sv_read v)"] by auto
  with v(1) p delivered_udp [OF p(1)] show ?thesis by auto
qed

text \<open>
  C10. In every interleaving of any number of tunnels of a client, and wherever its connection breaks: what the client has sent to a local service
  is a beginning of what the peer of that stream has sent, or the very datagram; the service is the one configured for the port the peer
  used; what a connected peer has received is a beginning of what the service has sent, all of it once nothing is left in the way. The
  sender of a datagram never receives the response. No peer receives anything before a service is reached, and at most 256
  requests wait.
\<close>

theorem tunnels_kept_apart:
  assumes mux: "mux_ok mx new seen" and run: "reach (tunnel_start new) (tunnel_step mx configs envs) s"
  shows "length (requests s) \<le> 256
    \<and> (\<forall>i target to_local reply rest. client_tasks s i = Some (Forwarding target to_local reply rest) \<longrightarrow>
        (\<exists>v port stream. server_tasks s i = Some v \<and> sv_request v = tcp_request port stream
           \<and> find (\<lambda>c. server_port c = port) configs = Some target
           \<and> tcp_connect (envs i) (local_addr_text target) = Ok reply
           \<and> prefix to_local stream
           \<and> (sv_pending v = [] \<and> st_down_read (seen (muxer s) i) = st_down (seen (muxer s) i) \<longrightarrow> to_local = stream)
           \<and> (\<exists>got. delivered v = [ToTcpPeer got] \<and> prefix got reply
                \<and> (rest = [] \<and> st_up_read (seen (muxer s) i) = st_up (seen (muxer s) i) \<longrightarrow> got = reply))))
    \<and> (\<forall>i target payload response rest. client_tasks s i = Some (DatagramSent target payload response rest) \<longrightarrow>
        (\<exists>v port peer. server_tasks s i = Some v \<and> sv_request v = udp_request port payload peer
           \<and> find (\<lambda>c. server_port c = port) configs = Some target
           \<and> ToUdpPeer peer response \<notin> set (delivered v)))
    \<and> (\<forall>i v. server_tasks s i = Some v \<and> sv_read v \<noteq> [] \<longrightarrow>
        (\<exists>target to_service reply rest. client_tasks s i \<in>
           {Some (Forwarding target to_service reply rest), Some (DatagramSent target to_service reply rest)}))"
proof -
  note inv = tunnel_reach_inv [OF mux run]
  have quiet: "\<exists>target to_service reply rest. client_tasks s i \<in>
      {Some (Forwarding target to_service reply rest), Some (DatagramSent target to_service reply rest)}"
    if "server_tasks s i = Some v" "sv_read v \<noteq> []" for i v
    using tunnel_invD [OF inv, of i] that
    by (cases "(configs, envs i, sv_request v, seen (muxer s) i, client_tasks s i)" rule: client_ok.cases)
      (auto simp: stream_ok_Some server_ok_def in_order_def)
  from inv have "length (requests s) \<le> 256" by (simp add: tunnel_inv_def CHANNEL_CAPACITY_def)
  with quiet show ?thesis
    using tcp_stream_ok udp_stream_ok tunnel_invD [OF inv] by (intro conjI allI impI) metis+
qed

section \<open>A run\<close>

text \<open>A multiplexer of eight streams that delivers at once, and one tunnel through it.\<close>

definition eager_mux :: "(nat \<Rightarrow> Stream) Mux" where
  "eager_mux =
     \<lparr>mux_open = (\<lambda>m. case find (\<lambda>i. m i = no_stream) [0..<8] of
          Some i \<Rightarrow> (Some i, m(i := no_stream\<lparr>st_open := True\<rparr>)) | None \<Rightarrow> (None, m)),
      mux_accept = (\<lambda>m. case find (\<lambda>i. st_open (m i) \<and> \<not> st_accepted (m i)) [0..<8] of
          Some i \<Rightarrow> (Some i, m(i := (m i)\<lparr>st_accepted := True\<rparr>)) | None \<Rightarrow> (None, m)),
      mux_write = (\<lambda>d i bs m. m(i := add_written d bs (m i))),
      mux_read = (\<lambda>d i n m. let bs = take n (unread d (m i)) in (bs, m(i := add_read d bs (m i))))\<rparr>"

lemma prefix_append_take: "prefix xs ys \<Longrightarrow> prefix (xs @ take n (drop (length xs) ys)) ys"
  by (auto simp: prefix_def) (metis append_take_drop_id)

lemma eager_in_order: "in_order x \<Longrightarrow> in_order (add_read d (take n (unread d x)) x)"
  by (cases d) (auto simp: in_order_def unread_def intro: prefix_append_take)

definition eager_seen :: "(nat \<Rightarrow> Stream) \<Rightarrow> nat \<Rightarrow> Stream" where
  "eager_seen m i = (if i < 8 then m i else no_stream)"

lemma eager_seen_simps [simp]:
  "i < 8 \<Longrightarrow> eager_seen (m(i := x)) = (eager_seen m)(i := x)" "i < 8 \<Longrightarrow> eager_seen m i = m i"
  "st_open (eager_seen m i) \<longleftrightarrow> i < 8 \<and> st_open (m i)" "eager_seen (\<lambda>_. no_stream) i = no_stream"
  by (auto simp: eager_seen_def no_stream_def fun_eq_iff)

lemma eager_mux_ok: "mux_ok eager_mux (\<lambda>_. no_stream) eager_seen"
  by (auto simp: mux_ok_def eager_mux_def Let_def find_Some_iff intro: eager_in_order split: option.splits)

definition one_tunnel ::
  "TunnelRequest list \<Rightarrow> Stream \<Rightarrow> ServerTask option \<Rightarrow> ClientTask option \<Rightarrow> (nat \<Rightarrow> Stream) TunnelRun" where
  "one_tunnel reqs x sv cl =
     \<lparr>requests = reqs, connected_mux = True, muxer = (\<lambda>_. no_stream)(0 := x), server_tasks = (\<lambda>_. None)(0 := sv), client_tasks = (\<lambda>_. None)(0 := cl)\<rparr>"

definition sample_task :: "bytes \<Rightarrow> bytes \<Rightarrow> ServerTask" where
  "sample_task rest got = \<lparr>sv_request = tcp_request 7000 [1, 2], sv_pending = rest, sv_read = got\<rparr>"

definition sample_stream :: "bool \<Rightarrow> bytes \<Rightarrow> bytes \<Rightarrow> bytes \<Rightarrow> bytes \<Rightarrow> Stream" where
  "sample_stream acc down down_read up up_read =
     \<lparr>st_open = True, st_accepted = acc, st_down = down, st_down_read = down_read, st_up = up, st_up_read = up_read\<rparr>"

lemma opened_stream: "no_stream\<lparr>st_open := True\<rparr> = sample_stream False [] [] [] []"
  by (simp add: no_stream_def sample_stream_def)

lemma eager_mux_simps:
  "mux_open eager_mux (\<lambda>_. no_stream) = (Some 0, (\<lambda>_. no_stream)(0 := no_stream\<lparr>st_open := True\<rparr>))"
  "st_open x \<Longrightarrow> \<not> st_accepted x \<Longrightarrow>
     mux_accept eager_mux ((\<lambda>_. no_stream)(0 := x)) = (Some 0, (\<lambda>_. no_stream)(0 := x\<lparr>st_accepted := True\<rparr>))"
  "mux_write eager_mux d 0 bs ((\<lambda>_. no_stream)(0 := x)) = (\<lambda>_. no_stream)(0 := add_written d bs x)"
  "mux_read eager_mux d 0 n ((\<lambda>_. no_stream)(0 := x)) =
     (take n (unread d x), (\<lambda>_. no_stream)(0 := add_read d (take n (unread d x)) x))"
  by (simp_all add: eager_mux_def upt_rec [of 0] Let_def)

lemma no_tunnel [simp]: "(\<lambda>_. z)(0 := z) = (\<lambda>_. z)"
  by auto

abbreviation sample_reach :: "(nat \<Rightarrow> Stream) TunnelRun \<Rightarrow> bool" where
  "sample_reach \<equiv> reach (tunnel_start (\<lambda>_. no_stream)) (tunnel_step eager_mux [sample_rp_config] (\<lambda>_. sample_env))"

lemma sample_serving:
  "sample_reach s \<Longrightarrow> serving_step eager_mux [sample_rp_config] s t \<Longrightarrow> t = t' \<Longrightarrow> sample_reach t'"
  by (auto simp: tunnel_step_def intro: reach_step)

lemma sample_forwarding:
  "sample_reach s \<Longrightarrow> forwarding_step eager_mux [sample_rp_config] (\<lambda>_. sample_env) s t \<Longrightarrow> t = t' \<Longrightarrow> sample_reach t'"
  by (auto simp: tunnel_step_def intro: reach_step)

lemmas one_tunnel_defs = one_tunnel_def sample_task_def sample_stream_def eager_mux_simps unread_def

lemma sample_sent:
  "sample_reach (one_tunnel [] (sample_stream False (tunnel_header 1 7000 @ [1, 2]) [] [] []) (Some (sample_task [] [])) None)"
proof -
  have "sample_reach (one_tunnel [] no_stream None None)"
    by (rule reach_init) (auto simp: tunnel_start_def one_tunnel_def)
  then have "sample_reach (one_tunnel [tcp_request 7000 [1, 2]] no_stream None None)"
    by (rule sample_serving [OF _ peer_connects [of _ 7000 _ _ "[1, 2]"]])
      (simp_all add: one_tunnel_def sample_rp_config_def CHANNEL_CAPACITY_def)
  then have "sample_reach (one_tunnel [] (sample_stream False [] [] [] []) (Some (sample_task (tunnel_header 1 7000 @ [1, 2]) [])) None)"
    by (rule sample_serving [OF _ request_opened [of _ "tcp_request 7000 [1, 2]" "[]" _ 0]])
      (simp_all add: one_tunnel_def eager_mux_simps(1) ServerTask_new_def sample_task_def opened_stream)
  then show ?thesis
    by (rule sample_serving [OF _ peer_to_stream [of _ 0 "sample_task (tunnel_header 1 7000 @ [1, 2]) []"
          "tunnel_header 1 7000 @ [1, 2]" "[]"]]) (simp_all add: one_tunnel_defs)
qed

lemma sample_connected:
  "sample_reach (one_tunnel [] (sample_stream True (tunnel_header 1 7000 @ [1, 2]) (tunnel_header 1 7000) [] [])
     (Some (sample_task [] [])) (Some (Forwarding sample_rp_config [] [7, 8] [7, 8])))"
proof -
  let ?H = "tunnel_header 1 7000"
  from sample_sent have "sample_reach (one_tunnel [] (sample_stream True (?H @ [1, 2]) [] [] []) (Some (sample_task [] []))
      (Some (ReadingHeader [])))"
    by (rule sample_forwarding [OF _ stream_accepted [of _ _ 0]]) (simp_all add: one_tunnel_defs)
  then have "sample_reach (one_tunnel [] (sample_stream True (?H @ [1, 2]) ?H [] []) (Some (sample_task [] []))
      (Some (ReadingHeader ?H)))"
    by (rule sample_forwarding [OF _ header_read [of _ 0 "[]"]]) (simp_all add: one_tunnel_defs)
  then show ?thesis
    by (rule sample_forwarding [OF _ local_connected [of _ 0 ?H _ sample_rp_config _ "[7, 8]"]])
      (simp_all add: one_tunnel_defs tunnel_header_port find_target_def sample_env_def sample_rp_config_def)
qed

lemma sample_finished:
  "sample_reach (one_tunnel [] (sample_stream True (tunnel_header 1 7000 @ [1, 2]) (tunnel_header 1 7000 @ [1, 2]) [7, 8] [7, 8])
     (Some (sample_task [] [7, 8])) (Some (Forwarding sample_rp_config [1, 2] [7, 8] [])))"
proof -
  let ?H = "tunnel_header 1 7000"
  from sample_connected have "sample_reach (one_tunnel [] (sample_stream True (?H @ [1, 2]) (?H @ [1, 2]) [] []) (Some (sample_task [] []))
      (Some (Forwarding sample_rp_config [1, 2] [7, 8] [7, 8])))"
    by (rule sample_forwarding [OF _ stream_to_local [of _ 0 sample_rp_config "[]" "[7, 8]" "[7, 8]" _ 9]]) (simp_all add: one_tunnel_defs)
  then have "sample_reach (one_tunnel [] (sample_stream True (?H @ [1, 2]) (?H @ [1, 2]) [7, 8] []) (Some (sample_task [] []))
      (Some (Forwarding sample_rp_config [1, 2] [7, 8] [])))"
    by (rule sample_forwarding [OF _ local_to_stream [of _ 0 sample_rp_config "[1, 2]" "[7, 8]" "[7, 8]" "[]"]]) (simp_all add: one_tunnel_defs)
  then show ?thesis
    by (rule sample_serving [OF _ stream_to_peer [of _ 0 "sample_task [] []" _ 9]]) (simp_all add: one_tunnel_defs may_read_def)
qed

theorem tunnels_kept_apart_witness:
  "\<exists>s v stream to_local. sample_reach s \<and> server_tasks s 0 = Some v \<and> sv_request v = tcp_request 7000 stream
     \<and> client_tasks s 0 = Some (Forwarding sample_rp_config to_local [7, 8] []) \<and> to_local = stream
     \<and> delivered v = [ToTcpPeer [7, 8]]"
proof -
  let ?s = "one_tunnel [] (sample_stream True (tunnel_header 1 7000 @ [1, 2]) (tunnel_header 1 7000 @ [1, 2]) [7, 8] [7, 8])
     (Some (sample_task [] [7, 8])) (Some (Forwarding sample_rp_config [1, 2] [7, 8] []))"
  have c: "client_tasks ?s 0 = Some (Forwarding sample_rp_config [1, 2] [7, 8] [])"
    and arrived: "st_down_read (eager_seen (muxer ?s) 0) = st_down (eager_seen (muxer ?s) 0)"
      "st_up_read (eager_seen (muxer ?s) 0) = st_up (eager_seen (muxer ?s) 0)"
    by (simp_all add: one_tunnel_def sample_stream_def eager_seen_def)
  with tunnels_kept_apart [OF eager_mux_ok sample_finished]
  obtain v port stream where v: "server_tasks ?s 0 = Some v" "sv_request v = tcp_request port stream"
    "sv_pending v = [] \<longrightarrow> [1, 2] = stream" "delivered v = [ToTcpPeer [7, 8]]" by blast
  moreover from v(1) have "v = sample_task [] [7, 8]" by (simp add: one_tunnel_def)
  ultimately show ?thesis using sample_finished c
    by (intro exI [of _ ?s] exI [of _ v] exI [of _ stream] exI [of _ "[1, 2]"]) (simp add: sample_task_def)
qed

end
