(* ===== verification/Tunnel_Live.thy ===== *)
theory Tunnel_Live
  imports Tunnel_Run
begin

text \<open>
  A tunnel never gets stuck: whatever the other tunnels have done, the tasks of a stream can still bring it to its end as long as the
  multiplexer carries bytes. What is used of the multiplexer beyond \<open>mux_ok\<close> is \<open>mux_live\<close>, for a connection that
  stays up: a stream that was opened is accepted in the end, and bytes that were written are read in the end by a task that keeps
  reading.
\<close>

section \<open>A multiplexer that carries on\<close>

definition accept_next :: "'m Mux \<Rightarrow> 'm \<Rightarrow> 'm" where
  "accept_next mx m = snd (mux_accept mx m)"

definition read_next :: "'m Mux \<Rightarrow> Side \<Rightarrow> nat \<Rightarrow> nat \<Rightarrow> 'm \<Rightarrow> 'm" where
  "read_next mx d i n m = snd (mux_read mx d i n m)"

definition mux_live :: "'m Mux \<Rightarrow> ('m \<Rightarrow> nat \<Rightarrow> Stream) \<Rightarrow> bool" where
  "mux_live mx seen \<longleftrightarrow>
     (\<forall>m i. st_open (seen m i) \<longrightarrow> (\<exists>k. st_accepted (seen ((accept_next mx ^^ k) m) i)))
     \<and> (\<forall>m d i n. st_open (seen m i) \<longrightarrow> unread d (seen m i) \<noteq> [] \<longrightarrow> 0 < n \<longrightarrow>
          (\<exists>k. fst (mux_read mx d i n ((read_next mx d i n ^^ k) m)) \<noteq> []))"

lemma mux_liveD:
  assumes "mux_live mx seen" "st_open (seen m i)"
  obtains k where "st_accepted (seen ((accept_next mx ^^ k) m) i)"
  using assms unfolding mux_live_def by blast

lemma mux_live_read:
  assumes "mux_live mx seen" "st_open (seen m i)" "unread d (seen m i) \<noteq> []" "0 < n"
  obtains k where "fst (mux_read mx d i n ((read_next mx d i n ^^ k) m)) \<noteq> []"
  using assms unfolding mux_live_def by blast

lemma unread_add_read: "unread d (add_read d bs x) = drop (length bs) (unread d x)"
  by (cases d) (simp_all add: unread_def add.commute)

lemma add_read_keeps [simp]: "st_open (add_read d bs x) = st_open x" "add_read d [] x = x"
  by (cases d; simp)+

section \<open>Steps of one tunnel\<close>

abbreviation steps ::
  "'m Mux \<Rightarrow> ReverseProxyConfig list \<Rightarrow> (nat \<Rightarrow> LocalEnv) \<Rightarrow> 'm TunnelRun \<Rightarrow> 'm TunnelRun \<Rightarrow> bool" where
  "steps mx configs envs \<equiv> rtranclp (tunnel_step mx configs envs)"

lemma steps_serving: "serving_step mx configs s t \<Longrightarrow> steps mx configs envs s t"
  by (simp add: tunnel_step_def r_into_rtranclp)

lemma steps_forwarding: "forwarding_step mx configs envs s t \<Longrightarrow> steps mx configs envs s t"
  by (simp add: tunnel_step_def r_into_rtranclp)

lemma steps_then: "steps mx configs envs s t \<Longrightarrow> forwarding_step mx configs envs t u \<Longrightarrow> steps mx configs envs s u"
  by (simp add: tunnel_step_def rtranclp.rtrancl_into_rtrancl)

lemma tunnel_steps_inv:
  assumes "mux_ok mx new seen" "steps mx configs envs s t" "tunnel_inv configs envs seen s"
  shows "tunnel_inv configs envs seen t"
  using assms(2,3)
  by induction (auto simp: tunnel_step_def intro: tunnel_inv_serving [OF assms(1)] tunnel_inv_forwarding [OF assms(1)])

text \<open>
  A task that keeps reading: \<open>reading\<close> says where the task is, with the bytes it has read, and \<open>want\<close> how many it asks for next. It ends
  with nothing left to read, unless it wants no more.
\<close>

lemma read_some:
  assumes mux: "mux_ok mx new seen"
    and act: "\<And>s got bs m. reading got s \<Longrightarrow> mux_read mx d i (want got) (muxer s) = (bs, m) \<Longrightarrow>
      \<exists>t. tunnel_step mx configs envs s t \<and> reading (got @ bs) t \<and> muxer t = m"
    and "reading got s" "st_open (seen (muxer s) i)"
    and "fst (mux_read mx d i (want got) ((read_next mx d i (want got) ^^ k) (muxer s))) \<noteq> []"
  shows "\<exists>t bs. steps mx configs envs s t \<and> reading (got @ bs) t \<and> bs \<noteq> []
    \<and> seen (muxer t) i = add_read d bs (seen (muxer s) i)"
  using assms(3-)
proof (induction k arbitrary: s)
  case 0
  obtain bs m where r: "mux_read mx d i (want got) (muxer s) = (bs, m)" by fastforce
  with 0(3) have "bs \<noteq> []" by simp
  moreover from act [OF 0(1) r] obtain t where "tunnel_step mx configs envs s t" "reading (got @ bs) t" "muxer t = m" by blast
  ultimately show ?case using mux_okD(7) [OF mux 0(2) r] by (metis fun_upd_same r_into_rtranclp)
next
  case (Suc k)
  obtain bs m where r: "mux_read mx d i (want got) (muxer s) = (bs, m)" by fastforce
  from act [OF Suc(2) r] obtain t where t: "tunnel_step mx configs envs s t" "reading (got @ bs) t" "muxer t = m" by blast
  have seen: "seen (muxer t) i = add_read d bs (seen (muxer s) i)" using mux_okD(7) [OF mux Suc(3) r] t(3) by simp
  show ?case
  proof (cases "bs = []")
    case True
    have "read_next mx d i (want got) (muxer s) = muxer t" using r t(3) by (simp add: read_next_def)
    then have "fst (mux_read mx d i (want got) ((read_next mx d i (want got) ^^ k) (muxer t))) \<noteq> []"
      using Suc(4) by (simp add: funpow_Suc_right del: funpow.simps)
    with Suc(1) [of t] t(2) seen True Suc(3) obtain u cs where
      "steps mx configs envs t u" "reading (got @ cs) u" "cs \<noteq> []" "seen (muxer u) i = add_read d cs (seen (muxer s) i)"
      by auto
    with t(1) show ?thesis by (meson converse_rtranclp_into_rtranclp)
  qed (use t seen in blast)
qed

lemma read_all:
  assumes mux: "mux_ok mx new seen" and live: "mux_live mx seen"
    and act: "\<And>s got bs m. reading got s \<Longrightarrow> mux_read mx d i (want got) (muxer s) = (bs, m) \<Longrightarrow>
      \<exists>t. tunnel_step mx configs envs s t \<and> reading (got @ bs) t \<and> muxer t = m"
    and "reading got s" "st_open (seen (muxer s) i)"
  shows "\<exists>t got. steps mx configs envs s t \<and> reading got t \<and> (want got = 0 \<or> unread d (seen (muxer t) i) = [])"
  using assms(4-)
proof (induction "length (unread d (seen (muxer s) i))" arbitrary: s got rule: less_induct)
  case less
  show ?case
  proof (cases "want got = 0 \<or> unread d (seen (muxer s) i) = []")
    case False
    then obtain k where k: "fst (mux_read mx d i (want got) ((read_next mx d i (want got) ^^ k) (muxer s))) \<noteq> []"
      using mux_live_read [OF live less(3), of d "want got"] by auto
    from read_some [where reading = reading and want = want and d = d and i = i and configs = configs and envs = envs, OF mux act less(2,3) k] obtain t bs where
      t: "steps mx configs envs s t" "reading (got @ bs) t" "bs \<noteq> []" "seen (muxer t) i = add_read d bs (seen (muxer s) i)" by blast
    have "length (unread d (seen (muxer t) i)) < length (unread d (seen (muxer s) i))"
      using False t(3,4) by (simp add: unread_add_read)
    from less(1) [OF this t(2)] less(3) t(1,4) show ?thesis by (auto intro: rtranclp_trans)
  qed (use less(2) in blast)
qed

text \<open>Everything that was written has been read when nothing is unread.\<close>

lemma server_ok_read:
  assumes "server_ok x v"
  shows "unread ServerSide x = [] \<Longrightarrow> st_up_read x = st_up x" "unread ClientSide x = [] \<Longrightarrow> st_down_read x = st_down x"
  using assms by (auto simp: server_ok_def in_order_def unread_def prefix_def)

text \<open>The task of the server writes what it has to write.\<close>

lemma stage_sent:
  assumes "server_tasks s i = Some v"
  shows "\<exists>t. steps mx configs envs s t \<and> server_tasks t i = Some (v\<lparr>sv_pending := []\<rparr>)"
  using steps_serving [OF peer_to_stream [of s i v "sv_pending v" "[]" mx configs]] assms by fastforce

text \<open>The client accepts streams until it has accepted this one.\<close>

lemma stage_accepted:
  assumes mux: "mux_ok mx new seen" and live: "mux_live mx seen"
    and inv: "tunnel_inv configs envs seen s" and v: "server_tasks s i = Some v"
  shows "\<exists>t c. steps mx configs envs s t \<and> server_tasks t = server_tasks s \<and> client_tasks t i = Some c"
proof -
  have accepts: "\<exists>t. steps mx configs envs s t \<and> server_tasks t = server_tasks s \<and> muxer t = (accept_next mx ^^ k) (muxer s)" for k
  proof (induction k)
    case (Suc k)
    then obtain t where t: "steps mx configs envs s t" "server_tasks t = server_tasks s"
      "muxer t = (accept_next mx ^^ k) (muxer s)" by blast
    obtain r m where r: "mux_accept mx (muxer t) = (r, m)" by fastforce
    then have "muxer u = m \<Longrightarrow> muxer u = (accept_next mx ^^ Suc k) (muxer s)" for u using t(3) by (simp add: accept_next_def)
    moreover have "\<exists>u. forwarding_step mx configs envs t u \<and> server_tasks u = server_tasks t \<and> muxer u = m"
      using stream_accepted [of mx t _ m configs envs] nothing_accepted [of mx t m configs envs] r by (cases r) fastforce+
    ultimately show ?case using t(1,2) by (metis steps_forwarding rtranclp_trans)
  qed auto
  obtain k where k: "st_accepted (seen ((accept_next mx ^^ k) (muxer s)) i)"
    using mux_liveD [OF live tunnel_inv_open(1) [OF inv v]] .
  from accepts [of k] obtain t where t: "steps mx configs envs s t" "server_tasks t = server_tasks s" "st_accepted (seen (muxer t) i)"
    using k by auto
  have "client_tasks t i \<noteq> None" using tunnel_invD [OF tunnel_steps_inv [OF mux t(1) inv], of i] t(2,3) v
    by (cases "client_tasks t i") (simp_all add: stream_ok_Some)
  with t show ?thesis by blast
qed

text \<open>A task of the client that reads, while the task of the server has nothing more to write.\<close>

lemma client_reads:
  assumes mux: "mux_ok mx new seen" and live: "mux_live mx seen" and inv: "tunnel_inv configs envs seen s"
    and v: "server_tasks s i = Some v" "sv_pending v = []" and c: "client_tasks s i = Some (task got)"
    and act: "\<And>s got bs m. client_tasks s i = Some (task got) \<Longrightarrow> mux_read mx ClientSide i (want got) (muxer s) = (bs, m) \<Longrightarrow>
      forwarding_step mx configs envs s (s\<lparr>muxer := m, client_tasks := (client_tasks s)(i \<mapsto> task (got @ bs))\<rparr>)"
  shows "\<exists>t got x. steps mx configs envs s t \<and> server_tasks t i = Some v \<and> client_tasks t i = Some (task got)
    \<and> stream_ok configs (envs i) x (Some v) (Some (task got))
    \<and> (want got = 0 \<or> sv_pending v = [] \<and> st_down_read x = st_down x)"
proof -
  define reading where "reading got s \<longleftrightarrow> server_tasks s i = Some v \<and> client_tasks s i = Some (task got)"
    for got and s :: "'a TunnelRun"
  have "\<exists>t. tunnel_step mx configs envs s t \<and> reading (got @ bs) t \<and> muxer t = m"
    if "reading got s" "mux_read mx ClientSide i (want got) (muxer s) = (bs, m)" for s got bs m
    using act [of s got bs m] that unfolding reading_def tunnel_step_def by fastforce
  from read_all [where reading = reading and want = want, OF mux live this _ tunnel_inv_open(1) [OF inv v(1)]]
  obtain t got where t: "steps mx configs envs s t" "reading got t" "want got = 0 \<or> unread ClientSide (seen (muxer t) i) = []"
    using v(1) c unfolding reading_def by blast
  have ok: "stream_ok configs (envs i) (seen (muxer t) i) (Some v) (Some (task got))"
    using tunnel_invD [OF tunnel_steps_inv [OF mux t(1) inv], of i] t(2) by (simp add: reading_def)
  then have "server_ok (seen (muxer t) i) v" by (simp add: stream_ok_Some)
  with t ok server_ok_read(2) v(2) show ?thesis unfolding reading_def by blast
qed

lemma server_reads:
  assumes mux: "mux_ok mx new seen" and live: "mux_live mx seen" and inv: "tunnel_inv configs envs seen s"
    and v: "server_tasks s i = Some v" "sv_pending v = []" and c: "client_tasks s i = cl"
  shows "\<exists>t got x. steps mx configs envs s t \<and> server_tasks t i = Some (v\<lparr>sv_read := got\<rparr>) \<and> client_tasks t i = cl
    \<and> stream_ok configs (envs i) x (Some (v\<lparr>sv_read := got\<rparr>)) cl \<and> st_up_read x = st_up x"
proof -
  define reading where "reading got s \<longleftrightarrow> server_tasks s i = Some (v\<lparr>sv_read := got\<rparr>) \<and> client_tasks s i = cl"
    for got and s :: "'a TunnelRun"
  have may: "may_read (v\<lparr>sv_read := got\<rparr>)" for got using v(2) by (simp add: may_read_def split: option.splits)
  have "\<exists>t. tunnel_step mx configs envs s t \<and> reading (got @ bs) t \<and> muxer t = m"
    if "reading got s" "mux_read mx ServerSide i 1 (muxer s) = (bs, m)" for s got bs m
  proof -
    have "serving_step mx configs s (s\<lparr>muxer := m, server_tasks := (server_tasks s)(i \<mapsto> v\<lparr>sv_read := got @ bs\<rparr>)\<rparr>)"
      using stream_to_peer [where configs = configs, OF _ may that(2), of got] that(1) unfolding reading_def by simp
    then show ?thesis using that(1) unfolding reading_def tunnel_step_def by fastforce
  qed
  moreover have "reading (sv_read v) s" using v(1) c unfolding reading_def by simp
  ultimately obtain t got where t: "steps mx configs envs s t" "reading got t" "unread ServerSide (seen (muxer t) i) = []"
    using read_all [where reading = reading and want = "\<lambda>_. 1", OF mux live _ _ tunnel_inv_open(1) [OF inv v(1)]]
    by (metis zero_neq_one)
  have ok: "stream_ok configs (envs i) (seen (muxer t) i) (Some (v\<lparr>sv_read := got\<rparr>)) cl"
    using tunnel_invD [OF tunnel_steps_inv [OF mux t(1) inv], of i] t(2) by (simp add: reading_def)
  then have "server_ok (seen (muxer t) i) (v\<lparr>sv_read := got\<rparr>)" by (simp add: stream_ok_Some)
  with t ok server_ok_read(1) show ?thesis unfolding reading_def by blast
qed

text \<open>The header arrives, and a datagram that is expected is sent on.\<close>

lemma header_arrives:
  assumes mux: "mux_ok mx new seen" and live: "mux_live mx seen" and inv: "tunnel_inv configs envs seen s"
    and v: "server_tasks s i = Some v" "sv_pending v = []" and c: "client_tasks s i = Some (ReadingHeader h)"
  shows "\<exists>t h. steps mx configs envs s t \<and> server_tasks t i = Some v \<and> client_tasks t i = Some (ReadingHeader h) \<and> length h = 4"
proof -
  from client_reads [where task = ReadingHeader and want = "\<lambda>h. 4 - length h", OF mux live inv v c header_read]
  obtain t h x where t: "steps mx configs envs s t" "server_tasks t i = Some v" "client_tasks t i = Some (ReadingHeader h)"
    "stream_ok configs (envs i) x (Some v) (Some (ReadingHeader h))"
    "4 - length h = 0 \<or> sv_pending v = [] \<and> st_down_read x = st_down x" by blast
  then have ok: "request_ok configs (sv_request v)" "server_ok x v" "st_down_read x = h" "length h \<le> 4" by (simp_all add: stream_ok_Some)
  from ok(1) have "4 \<le> length (request_bytes (sv_request v))" by (auto simp: request_ok_def)
  with server_ok_down(2) [OF ok(2)] ok(3,4) t(5) have "length h = 4" by auto
  with t show ?thesis by blast
qed

lemma datagram_sent_on:
  assumes mux: "mux_ok mx new seen" and live: "mux_live mx seen" and inv: "tunnel_inv configs envs seen s"
    and v: "server_tasks s i = Some v" "sv_pending v = []" and c: "client_tasks s i = Some (ReadingDatagram target got)"
    and env: "udp_bind (envs i) = None" "udp_send (envs i) (local_addr_text target) = None"
  shows "\<exists>t data reply. steps mx configs envs s t \<and> server_tasks t i = Some v
    \<and> client_tasks t i = Some (DatagramSent target data reply reply)"
proof -
  from client_reads [where task = "ReadingDatagram target" and want = frame_wanted, OF mux live inv v c datagram_read]
  obtain t got x where t: "steps mx configs envs s t" "server_tasks t i = Some v" "client_tasks t i = Some (ReadingDatagram target got)"
    "stream_ok configs (envs i) x (Some v) (Some (ReadingDatagram target got))"
    "frame_wanted got = 0 \<or> sv_pending v = [] \<and> st_down_read x = st_down x" by blast
  from t(4) obtain port data peer where ok: "server_ok x v" "sv_request v = udp_request port data peer" "udp_fits data"
    "st_down_read x = tunnel_header 0x02 port @ got" by (auto simp: stream_ok_Some request_ok_def)
  have "frame_wanted (udp_frame data) = 0" using ok(3) by (simp add: frame_wanted_def udp_frame_def udp_fits_def unat_of_nat)
  with server_ok_down(2) [OF ok(1)] ok t(5) have "frame_wanted got = 0" by auto
  from steps_then [OF t(1) datagram_sent [where envs = envs, OF t(3) this env]] t(2) show ?thesis by (intro exI conjI) (assumption, simp_all)
qed

text \<open>A service that can be reached is reached.\<close>

lemma service_reached_simps [simp]:
  "service_reached env (tcp_request port stream) target \<longleftrightarrow> is_ok (tcp_connect env (local_addr_text target))"
  "service_reached env (udp_request port data peer) target
     \<longleftrightarrow> udp_bind env = None \<and> udp_send env (local_addr_text target) = None"
  by (simp_all add: service_reached_def)

definition at_service :: "ReverseProxyConfig \<Rightarrow> ClientTask option \<Rightarrow> bool" where
  "at_service target cl \<longleftrightarrow>
     (case cl of Some (Forwarding c _ _ _) \<Rightarrow> c = target | Some (DatagramSent c _ _ _) \<Rightarrow> c = target | _ \<Rightarrow> False)"

lemma header_leads_on:
  assumes mux: "mux_ok mx new seen" and live: "mux_live mx seen" and inv: "tunnel_inv configs envs seen s"
    and v: "server_tasks s i = Some v" "sv_pending v = []" and c: "client_tasks s i = Some (ReadingHeader h)" "length h = 4"
    and target: "find (\<lambda>c. server_port c = tr_target_port (sv_request v)) configs = Some target"
    and env: "service_reached (envs i) (sv_request v) target"
  shows "\<exists>t. steps mx configs envs s t \<and> server_tasks t i = Some v \<and> at_service target (client_tasks t i)"
proof -
  have ok: "request_ok configs (sv_request v)" "server_ok (seen (muxer s) i) v" "st_down_read (seen (muxer s) i) = h"
    using tunnel_invD [OF inv, of i] v(1) c(1) by (simp_all add: stream_ok_Some)
  from header_complete [OF this c(2)] consider
    port stream where "sv_request v = tcp_request port stream" "h = tunnel_header 0x01 port"
  | port data peer where "sv_request v = udp_request port data peer" "h = tunnel_header 0x02 port" by auto
  then show ?thesis
  proof cases
    case 1
    with target have f: "find_target (header_port h) configs = Ok target" by (simp add: tunnel_header_port find_target_Some)
    from 1 env obtain reply where "tcp_connect (envs i) (local_addr_text target) = Ok reply" by (auto simp: is_ok_iff)
    from local_connected [where envs = envs and mx = mx, OF c _ f this] 1 v(1) show ?thesis
      by (fastforce simp: at_service_def dest: steps_forwarding)
  next
    case 2
    with target have f: "find_target (header_port h) configs = Ok target" by (simp add: tunnel_header_port find_target_Some)
    let ?t = "s\<lparr>client_tasks := (client_tasks s)(i \<mapsto> ReadingDatagram target [])\<rparr>"
    have t: "steps mx configs envs s ?t" using datagram_expected [where envs = envs and mx = mx, OF c _ f] 2 by (simp add: steps_forwarding)
    from datagram_sent_on [where s = ?t and i = i, OF mux live tunnel_steps_inv [OF mux t inv], of v target "[]"] v 2 env
    obtain u data reply where "steps mx configs envs ?t u" "server_tasks u i = Some v"
      "client_tasks u i = Some (DatagramSent target data reply reply)" by auto
    with t show ?thesis by (auto simp: at_service_def intro: rtranclp_trans)
  qed
qed

lemma service_is_reached:
  assumes mux: "mux_ok mx new seen" and live: "mux_live mx seen" and inv: "tunnel_inv configs envs seen s"
    and v: "server_tasks s i = Some v" "sv_pending v = []" and c: "client_tasks s i = Some c"
    and target: "find (\<lambda>c. server_port c = tr_target_port (sv_request v)) configs = Some target"
    and env: "service_reached (envs i) (sv_request v) target"
  shows "\<exists>t. steps mx configs envs s t \<and> server_tasks t i = Some v \<and> at_service target (client_tasks t i)"
proof -
  have ok: "client_ok configs (envs i) (sv_request v) (seen (muxer s) i) (Some c)"
    using tunnel_invD [OF inv, of i] v(1) c by (simp add: stream_ok_Some)
  show ?thesis
  proof (cases c)
    case (ReadingHeader h)
    from header_arrives [OF mux live inv v] c ReadingHeader obtain t h where
      t: "steps mx configs envs s t" "server_tasks t i = Some v" "client_tasks t i = Some (ReadingHeader h)" "length h = 4" by blast
    from header_leads_on [OF mux live tunnel_steps_inv [OF mux t(1) inv] t(2) v(2) t(3,4) target env] t(1) show ?thesis
      by (blast intro: rtranclp_trans)
  next
    case (ReadingDatagram target' got)
    with ok target have "target' = target" "udp_bind (envs i) = None" "udp_send (envs i) (local_addr_text target) = None"
      using env by auto
    with datagram_sent_on [OF mux live inv v, of target got] c ReadingDatagram show ?thesis by (fastforce simp: at_service_def)
  qed (use ok target env c v in \<open>auto simp: at_service_def\<close>)
qed

text \<open>What is forwarded arrives: down to the service, and up to the peer.\<close>

lemma all_forwarded:
  assumes mux: "mux_ok mx new seen" and live: "mux_live mx seen" and inv: "tunnel_inv configs envs seen s"
    and v: "server_tasks s i = Some v" "sv_pending v = []" "sv_request v = tcp_request port stream"
    and c: "client_tasks s i = Some (Forwarding target got reply rest)"
  shows "\<exists>t. steps mx configs envs s t \<and> server_tasks t i = Some v \<and> client_tasks t i = Some (Forwarding target stream reply [])"
proof -
  from client_reads [where task = "\<lambda>got. Forwarding target got reply rest" and want = "\<lambda>_. 1", OF mux live inv v(1,2) c stream_to_local]
  obtain t got x where t: "steps mx configs envs s t" "server_tasks t i = Some v"
    "client_tasks t i = Some (Forwarding target got reply rest)"
    "stream_ok configs (envs i) x (Some v) (Some (Forwarding target got reply rest))" "sv_pending v = []" "st_down_read x = st_down x"
    by fastforce
  from tcp_stream_ok [OF t(4)] t(5,6) v(3) have "got = stream" by auto
  with t have c: "client_tasks t i = Some (Forwarding target stream reply (rest @ []))" by simp
  from steps_then [OF t(1) local_to_stream [OF c]] t(2) show ?thesis by (intro exI conjI) (assumption, simp_all)
qed

lemma response_goes_up:
  assumes "client_tasks s i = Some (DatagramSent target payload reply rest)" "server_tasks s i = Some v"
  shows "\<exists>t. steps mx configs envs s t \<and> server_tasks t i = Some v \<and> client_tasks t i = Some (DatagramSent target payload reply [])"
proof -
  from assms(1) have c: "client_tasks s i = Some (DatagramSent target payload reply (rest @ []))" by simp
  from steps_forwarding [OF response_written [OF c]] assms(2) show ?thesis by (intro exI conjI) (assumption, simp_all)
qed

lemma tcp_to_the_end:
  assumes mux: "mux_ok mx new seen" and live: "mux_live mx seen" and inv: "tunnel_inv configs envs seen s"
    and v: "server_tasks s i = Some v" "sv_pending v = []" "sv_request v = tcp_request port stream"
    and c: "client_tasks s i = Some (Forwarding target got reply rest)"
  shows "\<exists>t v'. steps mx configs envs s t \<and> server_tasks t i = Some v' \<and> sv_request v' = sv_request v
    \<and> tcp_connect (envs i) (local_addr_text target) = Ok reply
    \<and> client_tasks t i = Some (Forwarding target stream reply []) \<and> delivered v' = [ToTcpPeer reply]"
proof -
  from all_forwarded [OF mux live inv v c] obtain t where
    t: "steps mx configs envs s t" "server_tasks t i = Some v" "client_tasks t i = Some (Forwarding target stream reply [])" by blast
  from server_reads [OF mux live tunnel_steps_inv [OF mux t(1) inv] t(2) v(2) t(3)] obtain u got x where
    u: "steps mx configs envs t u" "server_tasks u i = Some (v\<lparr>sv_read := got\<rparr>)" "client_tasks u i = Some (Forwarding target stream reply [])"
    "stream_ok configs (envs i) x (Some (v\<lparr>sv_read := got\<rparr>)) (Some (Forwarding target stream reply []))" "st_up_read x = st_up x" by blast
  from tcp_stream_ok [OF u(4)] u(5) have "tcp_connect (envs i) (local_addr_text target) = Ok reply"
    "delivered (v\<lparr>sv_read := got\<rparr>) = [ToTcpPeer reply]" by auto
  with u(2,3) rtranclp_trans [OF t(1) u(1)] show ?thesis by (metis ServerTask.select_convs(1) ServerTask.surjective ServerTask.update_convs(3))
qed

lemma udp_to_the_end:
  assumes mux: "mux_ok mx new seen" and live: "mux_live mx seen" and inv: "tunnel_inv configs envs seen s"
    and v: "server_tasks s i = Some v" "sv_pending v = []" and c: "client_tasks s i = Some (DatagramSent target payload reply rest)"
  shows "\<exists>t v'. steps mx configs envs s t \<and> server_tasks t i = Some v' \<and> sv_request v' = sv_request v
    \<and> client_tasks t i = Some (DatagramSent target payload (udp_reply (envs i)) []) \<and> sv_read v' = udp_reply (envs i)"
proof -
  from response_goes_up [OF c v(1)] obtain t where
    t: "steps mx configs envs s t" "server_tasks t i = Some v" "client_tasks t i = Some (DatagramSent target payload reply [])" by blast
  from server_reads [OF mux live tunnel_steps_inv [OF mux t(1) inv] t(2) v(2) t(3)] obtain u got x where
    u: "steps mx configs envs t u" "server_tasks u i = Some (v\<lparr>sv_read := got\<rparr>)" "client_tasks u i = Some (DatagramSent target payload reply [])"
    "stream_ok configs (envs i) x (Some (v\<lparr>sv_read := got\<rparr>)) (Some (DatagramSent target payload reply []))" "st_up_read x = st_up x" by blast
  from u(4,5) have "reply = udp_reply (envs i)" "got = udp_reply (envs i)" by (auto simp: stream_ok_Some server_ok_def)
  with u(2,3) rtranclp_trans [OF t(1) u(1)] show ?thesis by auto
qed


section \<open>A run\<close>

definition eager_waiting :: "(nat \<Rightarrow> Stream) \<Rightarrow> nat list" where
  "eager_waiting m = filter (\<lambda>j. st_open (m j) \<and> \<not> st_accepted (m j)) [0..<8]"

lemma eager_accepts:
  assumes "i < 8" "st_open (m i)" "\<not> st_accepted (m i)"
  shows "length (eager_waiting (accept_next eager_mux m)) < length (eager_waiting m) \<and> st_open (accept_next eager_mux m i)"
proof -
  let ?P = "\<lambda>j. st_open (m j) \<and> \<not> st_accepted (m j)"
  obtain j where j: "find ?P [0..<8] = Some j" using assms by (cases "find ?P [0..<8]") (auto simp: find_None_iff)
  then have "j \<in> set [0..<8]" "?P j" by (auto simp: find_Some_iff)
  moreover have m: "accept_next eager_mux m = m(j := (m j)\<lparr>st_accepted := True\<rparr>)" using j by (simp add: accept_next_def eager_mux_def)
  ultimately have "eager_waiting (accept_next eager_mux m) = filter (\<lambda>k. k \<noteq> j) (eager_waiting m)"
    by (auto simp: eager_waiting_def intro: filter_cong)
  moreover have "j \<in> set (eager_waiting m)" using \<open>j \<in> set [0..<8]\<close> \<open>?P j\<close> by (simp add: eager_waiting_def)
  then have "length (filter (\<lambda>k. k \<noteq> j) (eager_waiting m)) < length (eager_waiting m)" by (intro length_filter_less) auto
  ultimately show ?thesis using m assms(2) by auto
qed

lemma eager_accepts_all:
  assumes "i < 8" "st_open (m i)"
  shows "\<exists>k. st_accepted ((accept_next eager_mux ^^ k) m i)"
  using assms(2)
proof (induction "length (eager_waiting m)" arbitrary: m rule: less_induct)
  case less
  show ?case
  proof (cases "st_accepted (m i)")
    case True
    then show ?thesis by (metis funpow_0)
  next
    case False
    from less(1) eager_accepts [of i m, OF assms(1) less(2) False] obtain k where
      "st_accepted ((accept_next eager_mux ^^ k) (accept_next eager_mux m) i)" by blast
    then have "st_accepted ((accept_next eager_mux ^^ Suc k) m i)" by (simp add: funpow_swap1)
    then show ?thesis ..
  qed
qed

lemma eager_mux_live: "mux_live eager_mux eager_seen"
  unfolding mux_live_def
proof (intro conjI allI impI)
  show "\<exists>k. st_accepted (eager_seen ((accept_next eager_mux ^^ k) m) i)" if "st_open (eager_seen m i)" for m i
    using eager_accepts_all [of i m] that by auto
  show "\<exists>k. fst (mux_read eager_mux d i n ((read_next eager_mux d i n ^^ k) m)) \<noteq> []"
    if "st_open (eager_seen m i)" "unread d (eager_seen m i) \<noteq> []" "0 < n" for m d i n
    using that by (intro exI [of _ 0]) (simp add: eager_mux_def Let_def)
qed


end
