(* ===== verification/Resilient.thy ===== *)
theory Resilient
  imports Copy_Loops Config_Loader Transition
begin

text \<open>
  Reconnecting and quality monitoring, \<^verbatim>\<open>src/src/proxy/resilient.rs\<close>: the connection quality, sessions with
  cached data, the retry loop, and the adaptive forwarder.

  Durations and instants are natural numbers of nanoseconds; the current instant is an
  argument. The product of a number of milliseconds with the \<open>f64\<close> back-off factor, truncated to
  an integer, is the parameter \<open>mul_trunc\<close>. A session identifier is a number.
\<close>

abbreviation millis :: "nat \<Rightarrow> nat" where "millis n \<equiv> n * 10 ^ 6"
abbreviation secs :: "nat \<Rightarrow> nat" where "secs n \<equiv> n * 10 ^ 9"

section \<open>Connection quality\<close>

record ConnectionQuality =
  rtt_history :: "nat list"
  packet_loss :: f64
  bandwidth :: "u64 option"
  last_active :: nat
  error_count :: u32

definition ConnectionQuality_new :: "nat \<Rightarrow> ConnectionQuality" where
  "ConnectionQuality_new now =
     \<lparr>rtt_history = [], packet_loss = Finite 0, bandwidth = None, last_active = now, error_count = 0\<rparr>"

definition push_capped :: "nat \<Rightarrow> 'a \<Rightarrow> 'a list \<Rightarrow> 'a list" where
  "push_capped cap x xs = (let xs' = xs @ [x] in if cap < length xs' then tl xs' else xs')"

definition record_rtt :: "nat \<Rightarrow> nat \<Rightarrow> ConnectionQuality \<Rightarrow> ConnectionQuality" where
  "record_rtt now rtt q = q\<lparr>rtt_history := push_capped 20 rtt (rtt_history q), last_active := now\<rparr>"

text \<open>The sum of durations divided by their number.\<close>

definition average :: "nat list \<Rightarrow> nat option" where
  "average xs = (if xs = [] then None else Some (sum_list xs div length xs))"

definition get_average_rtt :: "ConnectionQuality \<Rightarrow> nat option" where
  "get_average_rtt q = average (rtt_history q)"

definition record_error :: "ConnectionQuality \<Rightarrow> ConnectionQuality" where
  "record_error q = q\<lparr>error_count := error_count q + 1\<rparr>"

definition reset_errors :: "ConnectionQuality \<Rightarrow> ConnectionQuality" where
  "reset_errors q = q\<lparr>error_count := 0\<rparr>"

definition is_healthy :: "nat \<Rightarrow> ConnectionQuality \<Rightarrow> bool" where
  "is_healthy now q = (error_count q < 5 \<and> now - last_active q < secs 30)"

section \<open>Sessions\<close>

record SessionInfo =
  se_client_addr :: string
  se_target_addr :: string
  se_created_at :: nat
  last_updated :: nat
  pending_data :: "bytes list"

definition SessionInfo_new :: "nat \<Rightarrow> string \<Rightarrow> string \<Rightarrow> SessionInfo" where
  "SessionInfo_new now client target =
     \<lparr>se_client_addr = client, se_target_addr = target, se_created_at = now, last_updated = now,
      pending_data = []\<rparr>"

definition add_pending_data :: "nat \<Rightarrow> bytes \<Rightarrow> SessionInfo \<Rightarrow> SessionInfo" where
  "add_pending_data now data s = s\<lparr>pending_data := pending_data s @ [data], last_updated := now\<rparr>"

definition take_pending_data :: "nat \<Rightarrow> SessionInfo \<Rightarrow> bytes list \<times> SessionInfo" where
  "take_pending_data now s = (pending_data s, s\<lparr>pending_data := [], last_updated := now\<rparr>)"

definition is_expired :: "nat \<Rightarrow> nat \<Rightarrow> SessionInfo \<Rightarrow> bool" where
  "is_expired now timeout s = (timeout < now - last_updated s)"

section \<open>The manager\<close>

record ReconnectConfig =
  max_retries :: nat
  initial_delay :: nat
  max_delay :: nat
  backoff_factor :: f64
  connect_timeout :: nat

definition ReconnectConfig_default :: ReconnectConfig where
  "ReconnectConfig_default =
     \<lparr>max_retries = 5, initial_delay = millis 100, max_delay = secs 10, backoff_factor = Finite 2,
      connect_timeout = secs 10\<rparr>"

record ResilientConnectionManager =
  sessions :: "nat \<rightharpoonup> SessionInfo"
  quality_monitor :: ConnectionQuality
  reconnect_config :: ReconnectConfig
  health_check_interval :: nat

definition with_config :: "nat \<Rightarrow> ReconnectConfig \<Rightarrow> ResilientConnectionManager" where
  "with_config now config =
     \<lparr>sessions = Map.empty, quality_monitor = ConnectionQuality_new now, reconnect_config = config,
      health_check_interval = secs 5\<rparr>"

definition ResilientConnectionManager_new :: "nat \<Rightarrow> ResilientConnectionManager" where
  "ResilientConnectionManager_new now = with_config now ReconnectConfig_default"

text \<open>
  How an attempt to connect ends; the attempts are numbered from 1. The loop returns the delays it
  slept for, the result (the number of the attempt that succeeded), and the quality.
\<close>

datatype Attempt = Connected | ConnectError | ConnectTimedOut

definition next_delay :: "(f64 \<Rightarrow> nat \<Rightarrow> nat) \<Rightarrow> ReconnectConfig \<Rightarrow> nat \<Rightarrow> nat" where
  "next_delay mul_trunc cfg delay =
     min (millis (mul_trunc (backoff_factor cfg) (delay div 10 ^ 6))) (max_delay cfg)"

definition retries_exhausted :: "ReconnectConfig \<Rightarrow> AppError" where
  "retries_exhausted cfg =
     Network (ConnectionFailed (''Failed to connect after '' @ nat_to_string (max_retries cfg) @ '' attempts''))"

function retry_loop ::
  "(f64 \<Rightarrow> nat \<Rightarrow> nat) \<Rightarrow> ReconnectConfig \<Rightarrow> (nat \<Rightarrow> Attempt) \<Rightarrow> nat \<Rightarrow> nat \<Rightarrow> ConnectionQuality
   \<Rightarrow> nat list \<times> (AppError + nat) \<times> ConnectionQuality" where
  "retry_loop mul_trunc cfg outcome attempt delay q =
     (if max_retries cfg < attempt then
        ([], Err (retries_exhausted cfg), q)
      else
        (case outcome attempt of
           Connected \<Rightarrow> ([], Ok attempt, reset_errors q)
         | _ \<Rightarrow>
             (let q' = record_error q in
              if attempt < max_retries cfg then
                apfst ((#) delay)
                  (retry_loop mul_trunc cfg outcome (attempt + 1) (next_delay mul_trunc cfg delay) q')
              else retry_loop mul_trunc cfg outcome (attempt + 1) delay q')))"
  by pat_completeness auto
termination
  by (relation "measure (\<lambda>(mul_trunc, cfg, outcome, attempt, delay, q). Suc (max_retries cfg) - attempt)") auto

declare retry_loop.simps [simp del]

definition connect_with_retry ::
  "(f64 \<Rightarrow> nat \<Rightarrow> nat) \<Rightarrow> (nat \<Rightarrow> Attempt) \<Rightarrow> ResilientConnectionManager
   \<Rightarrow> nat list \<times> (AppError + nat) \<times> ResilientConnectionManager" where
  "connect_with_retry mul_trunc outcome m =
     (let (sleeps, r, q) = retry_loop mul_trunc (reconnect_config m) outcome 1
                             (initial_delay (reconnect_config m)) (quality_monitor m)
      in (sleeps, r, m\<lparr>quality_monitor := q\<rparr>))"

text \<open>\<open>new_id\<close> is the fresh identifier. The result of a success is the attempt that succeeded.\<close>

definition create_resilient_connection ::
  "(f64 \<Rightarrow> nat \<Rightarrow> nat) \<Rightarrow> (nat \<Rightarrow> Attempt) \<Rightarrow> nat \<Rightarrow> nat \<Rightarrow> string \<Rightarrow> string
   \<Rightarrow> ResilientConnectionManager \<Rightarrow> (AppError + nat \<times> nat) \<times> ResilientConnectionManager" where
  "create_resilient_connection mul_trunc outcome new_id now client target m =
     (let m1 = m\<lparr>sessions := (sessions m)(new_id \<mapsto> SessionInfo_new now client target)\<rparr>;
          (_, r, m2) = connect_with_retry mul_trunc outcome m1
      in (case r of Inl e \<Rightarrow> (Err e, m2) | Inr k \<Rightarrow> (Ok (new_id, k), m2)))"

definition session_not_found :: AppError where
  "session_not_found = Network (ConnectionFailed ''Session not found'')"

definition recover_connection ::
  "(f64 \<Rightarrow> nat \<Rightarrow> nat) \<Rightarrow> (nat \<Rightarrow> Attempt) \<Rightarrow> nat \<Rightarrow> nat
   \<Rightarrow> ResilientConnectionManager \<Rightarrow> (AppError + nat \<times> bytes list) \<times> ResilientConnectionManager" where
  "recover_connection mul_trunc outcome now sid m =
     (case sessions m sid of
        None \<Rightarrow> (Err session_not_found, m)
      | Some session \<Rightarrow>
          (let (pending, session') = take_pending_data now session;
               m1 = m\<lparr>sessions := (sessions m)(sid \<mapsto> session')\<rparr>;
               (_, r, m2) = connect_with_retry mul_trunc outcome m1
           in (case r of Inl e \<Rightarrow> (Err e, m2) | Inr k \<Rightarrow> (Ok (k, pending), m2))))"

definition cache_data ::
  "nat \<Rightarrow> nat \<Rightarrow> bytes \<Rightarrow> ResilientConnectionManager \<Rightarrow> (AppError + unit) \<times> ResilientConnectionManager" where
  "cache_data now sid data m =
     (case sessions m sid of
        None \<Rightarrow> (Err session_not_found, m)
      | Some session \<Rightarrow> (Ok (), m\<lparr>sessions := (sessions m)(sid \<mapsto> add_pending_data now data session)\<rparr>))"

definition cleanup_expired_sessions :: "nat \<Rightarrow> ResilientConnectionManager \<Rightarrow> ResilientConnectionManager" where
  "cleanup_expired_sessions now m =
     m\<lparr>sessions := (\<lambda>sid. case sessions m sid of
          None \<Rightarrow> None | Some s \<Rightarrow> if now - se_created_at s \<le> secs 300 then Some s else None)\<rparr>"

record QualityStats =
  qs_average_rtt :: "nat option"
  qs_packet_loss :: f64
  qs_bandwidth :: "u64 option"
  qs_error_count :: u32
  qs_active_sessions :: nat
  qs_is_healthy :: bool

definition get_quality_stats :: "nat \<Rightarrow> ResilientConnectionManager \<Rightarrow> QualityStats" where
  "get_quality_stats now m =
     \<lparr>qs_average_rtt = get_average_rtt (quality_monitor m), qs_packet_loss = packet_loss (quality_monitor m),
      qs_bandwidth = bandwidth (quality_monitor m), qs_error_count = error_count (quality_monitor m),
      qs_active_sessions = card (dom (sessions m)), qs_is_healthy = is_healthy now (quality_monitor m)\<rparr>"

definition health_check_tick :: "nat \<Rightarrow> ResilientConnectionManager \<Rightarrow> ResilientConnectionManager \<times> QualityStats" where
  "health_check_tick now m =
     (let m1 = cleanup_expired_sessions now m in (m1, get_quality_stats now m1))"

section \<open>The adaptive forwarder\<close>

record AdaptiveForwarder =
  af_quality :: ConnectionQuality
  buffer_size :: nat
  min_buffer_size :: nat
  max_buffer_size :: nat

definition AdaptiveForwarder_new :: "nat \<Rightarrow> AdaptiveForwarder" where
  "AdaptiveForwarder_new now =
     \<lparr>af_quality = ConnectionQuality_new now, buffer_size = KiB 64, min_buffer_size = KiB 8,
      max_buffer_size = KiB 512\<rparr>"

text \<open>
  The new size for an average round-trip time and the current size; it is written back only when
  it differs from the current size.
\<close>

definition adjust_buffer_size :: "nat \<Rightarrow> nat \<Rightarrow> nat \<Rightarrow> nat \<Rightarrow> nat" where
  "adjust_buffer_size lo hi rtt current_size =
     (if rtt < millis 50 then min (current_size * 2) hi
      else if millis 200 < rtt then max (current_size div 2) lo
      else current_size)"

text \<open>
  One direction: it reads from one half of a stream and writes to the other half of the \<^emph>\<open>same\<close>
  stream. The size of the buffer is fixed when the direction starts. What the loop does to the
  shared quality and buffer size is a list of events.
\<close>

datatype ForwardEvent = Forwarded | ReadError

function forward_loop :: "nat \<Rightarrow> nat \<Rightarrow> Arrival list \<Rightarrow> Sink \<Rightarrow> nat \<times> ForwardEvent list \<times> Sink" where
  "forward_loop b tot src s =
     (case read_some b src of
        (Inl e, src1) \<Rightarrow> (tot, [ReadError], s)
      | (Inr d, src1) \<Rightarrow>
          if d = [] then (tot, [], s)
          else
            (case sink_write d s of
               (Inl e, s1) \<Rightarrow> (tot, [], s1)
             | (Inr _, s1) \<Rightarrow>
                 (let (n, evs, s2) = forward_loop b (tot + length d) src1 s1 in (n, Forwarded # evs, s2))))"
  by pat_completeness auto
termination
  by (relation "measure (\<lambda>(b, tot, src, s). source_size src)")
     (auto dest!: sym [of "(_, _)" "read_some _ _"] read_some_Ok read_some_Err)

declare forward_loop.simps [simp del]

definition optimize_tcp_socket :: "IoError option \<Rightarrow> AppError + unit" where
  "optimize_tcp_socket nodelay =
     (case nodelay of
        None \<Rightarrow> Ok ()
      | Some e \<Rightarrow> Err (Proxy (ForwardingFailed (''Failed to set nodelay: '' @ io_text e))))"

text \<open>The sinks are those of the client and of the remote; \<open>b1\<close> and \<open>b2\<close> are the sizes of the buffers.\<close>

definition forward_adaptive ::
  "IoError option \<Rightarrow> IoError option \<Rightarrow> nat \<Rightarrow> nat \<Rightarrow> Arrival list \<Rightarrow> Sink \<Rightarrow> Arrival list \<Rightarrow> Sink
   \<Rightarrow> (AppError + nat \<times> nat) \<times> Sink \<times> Sink" where
  "forward_adaptive nc nr b1 b2 client_in client_out remote_in remote_out =
     (case and_then (optimize_tcp_socket nc) (\<lambda>_. optimize_tcp_socket nr) of
        Inl e \<Rightarrow> (Err e, client_out, remote_out)
      | Inr _ \<Rightarrow>
          (let (n1, _, client_out') = forward_loop b1 0 client_in client_out;
               (n2, _, remote_out') = forward_loop b2 0 remote_in remote_out
           in (Ok (n1, n2), client_out', remote_out')))"

text \<open>
  The two directions share the quality and the buffer size, each under a lock of its own. To
  adjust the size a task reads the average, if there is one, then the size, and later writes the
  new size when it differs from the one it has read. \<open>rtt_reads\<close> and \<open>size_reads\<close> hold what the tasks have
  read on the way.
\<close>

record ForwarderState =
  forwarder :: AdaptiveForwarder
  rtt_reads :: "nat list"
  size_reads :: "(nat \<times> nat) list"

definition write_back :: "nat \<Rightarrow> nat \<Rightarrow> AdaptiveForwarder \<Rightarrow> AdaptiveForwarder" where
  "write_back rtt current_size f =
     (let new_size = adjust_buffer_size (KiB 8) (KiB 512) rtt current_size
      in if new_size \<noteq> current_size then f\<lparr>buffer_size := new_size\<rparr> else f)"

inductive forwarder_step :: "ForwarderState \<Rightarrow> ForwarderState \<Rightarrow> bool" where
  forwarded: "forwarder_step s
    (s\<lparr>forwarder := (forwarder s)\<lparr>af_quality := record_rtt now rtt (af_quality (forwarder s))\<rparr>\<rparr>)"
| read_failed: "forwarder_step s
    (s\<lparr>forwarder := (forwarder s)\<lparr>af_quality := record_error (af_quality (forwarder s))\<rparr>\<rparr>)"
| read_average: "get_average_rtt (af_quality (forwarder s)) = Some rtt \<Longrightarrow>
    forwarder_step s (s\<lparr>rtt_reads := rtt # rtt_reads s\<rparr>)"
| read_size: "rtt \<in> set (rtt_reads s) \<Longrightarrow>
    forwarder_step s (s\<lparr>rtt_reads := remove1 rtt (rtt_reads s),
                        size_reads := (rtt, buffer_size (forwarder s)) # size_reads s\<rparr>)"
| write_size: "(rtt, current_size) \<in> set (size_reads s) \<Longrightarrow>
    forwarder_step s (s\<lparr>forwarder := write_back rtt current_size (forwarder s),
                        size_reads := remove1 (rtt, current_size) (size_reads s)\<rparr>)"

section \<open>Capped histories\<close>

lemma push_capped_drop: "push_capped cap x (drop (length zs - cap) zs) = drop (length (zs @ [x]) - cap) (zs @ [x])"
proof (cases "cap \<le> length zs")
  case True
  then have len: "length (zs @ [x]) - cap = Suc (length zs - cap)" by simp
  have "push_capped cap x (drop (length zs - cap) zs) = tl (drop (length zs - cap) zs @ [x])"
    using True by (simp add: push_capped_def Let_def)
  also have "drop (length zs - cap) zs @ [x] = drop (length zs - cap) (zs @ [x])" by simp
  also have "tl \<dots> = drop (Suc (length zs - cap)) (zs @ [x])" by (simp only: drop_Suc tl_drop)
  finally show ?thesis unfolding len .
qed (simp add: push_capped_def Let_def)

lemma push_capped_fold:
  "length ys \<le> cap \<Longrightarrow>
   fold (push_capped cap) xs ys = drop (length (ys @ xs) - cap) (ys @ xs)"
proof (induction xs rule: rev_induct)
  case (snoc x xs)
  then have ih: "fold (push_capped cap) xs ys = drop (length (ys @ xs) - cap) (ys @ xs)" .
  have "fold (push_capped cap) (xs @ [x]) ys = push_capped cap x (drop (length (ys @ xs) - cap) (ys @ xs))"
    unfolding fold_append comp_apply ih by simp
  also have "\<dots> = drop (length (ys @ xs @ [x]) - cap) (ys @ xs @ [x])"
    by (simp only: push_capped_drop append_assoc)
  finally show ?case .
qed simp

lemma length_push_capped: "length xs \<le> cap \<Longrightarrow> length (push_capped cap x xs) \<le> cap"
  by (auto simp: push_capped_def Let_def)

lemma average_bounds:
  assumes "average xs = Some a" "\<forall>x \<in> set xs. lo \<le> x \<and> x \<le> hi"
  shows "lo \<le> a \<and> a \<le> hi"
proof -
  from assms(1) have ne: "xs \<noteq> []" and a: "a = sum_list xs div length xs" by (auto simp: average_def split: if_splits)
  have "length xs * lo \<le> sum_list xs \<and> sum_list xs \<le> length xs * hi"
    using assms(2) by (induction xs) auto
  moreover from ne have "0 < length xs" by simp
  ultimately show ?thesis unfolding a
    by (metis div_le_mono nonzero_mult_div_cancel_left less_numeral_extra(3))
qed

lemma record_rtt_history:
  "rtt_history (fold (\<lambda>(now, rtt). record_rtt now rtt) rs q) = fold (push_capped 20) (map snd rs) (rtt_history q)"
  by (induction rs arbitrary: q) (auto simp: record_rtt_def)

text \<open>
  The monitor remembers exactly the last twenty round-trip times, in order, whatever was
  measured before; the average it reports is theirs, and lies between the smallest and the
  largest of them.
\<close>

theorem rtt_history_is_last_twenty:
  "let q = fold (\<lambda>(now, rtt). record_rtt now rtt) rs (ConnectionQuality_new start) in
     rtt_history q = drop (length rs - 20) (map snd rs)
     \<and> (case get_average_rtt q of None \<Rightarrow> rs = []
        | Some a \<Rightarrow> rs \<noteq> [] \<and> Min (set (rtt_history q)) \<le> a \<and> a \<le> Max (set (rtt_history q)))"
proof -
  let ?q = "fold (\<lambda>(now, rtt). record_rtt now rtt) rs (ConnectionQuality_new start)"
  have h: "rtt_history ?q = drop (length rs - 20) (map snd rs)"
    unfolding record_rtt_history by (simp add: push_capped_fold ConnectionQuality_new_def)
  have "rtt_history ?q = [] \<longleftrightarrow> rs = []" unfolding h by (cases rs) auto
  moreover have "Min (set (rtt_history ?q)) \<le> a \<and> a \<le> Max (set (rtt_history ?q))" if "get_average_rtt ?q = Some a" for a
    using that by (intro average_bounds [of "rtt_history ?q"]) (auto simp: get_average_rtt_def)
  ultimately show ?thesis unfolding Let_def using h
    by (auto simp: get_average_rtt_def average_def split: option.splits)
qed

section \<open>Retrying\<close>

abbreviation delays :: "(f64 \<Rightarrow> nat \<Rightarrow> nat) \<Rightarrow> ReconnectConfig \<Rightarrow> nat \<Rightarrow> nat \<Rightarrow> nat list" where
  "delays mul_trunc cfg d n \<equiv> map (\<lambda>i. (next_delay mul_trunc cfg ^^ i) d) [0..<n]"

lemma delays_Suc: "delays mt cfg d (Suc n) = d # delays mt cfg (next_delay mt cfg d) n"
  by (simp add: map_upt_Suc funpow_Suc_right del: upt_Suc funpow.simps)

lemma retry_loop_failed:
  "a \<le> max_retries cfg \<Longrightarrow> outcome a \<noteq> Connected \<Longrightarrow>
   retry_loop mt cfg outcome a d q =
     (if a < max_retries cfg
      then apfst ((#) d) (retry_loop mt cfg outcome (Suc a) (next_delay mt cfg d) (record_error q))
      else retry_loop mt cfg outcome (Suc a) d (record_error q))"
  by (subst retry_loop.simps) (cases "outcome a"; simp add: Let_def)

lemma retry_loop_stop:
  "max_retries cfg < a \<Longrightarrow> retry_loop mt cfg outcome a d q = ([], Err (retries_exhausted cfg), q)"
  "a \<le> max_retries cfg \<Longrightarrow> outcome a = Connected \<Longrightarrow> retry_loop mt cfg outcome a d q = ([], Ok a, reset_errors q)"
  by (simp_all add: retry_loop.simps)

definition count_errors :: "nat \<Rightarrow> ConnectionQuality \<Rightarrow> ConnectionQuality" where
  "count_errors n = record_error ^^ n"

lemma count_errors_Suc: "count_errors n (record_error q) = count_errors (Suc n) q"
  by (simp add: count_errors_def funpow_Suc_right del: funpow.simps)

lemma error_count_count_errors: "error_count (count_errors n q) = error_count q + of_nat n"
  by (induction n) (simp_all add: count_errors_def record_error_def algebra_simps)

lemma reset_record_error [simp]: "reset_errors (record_error q) = reset_errors q"
  by (simp add: reset_errors_def record_error_def)

definition retry_result ::
  "(f64 \<Rightarrow> nat \<Rightarrow> nat) \<Rightarrow> ReconnectConfig \<Rightarrow> nat \<Rightarrow> nat \<Rightarrow> ConnectionQuality \<Rightarrow> nat option
   \<Rightarrow> nat list \<times> (AppError + nat) \<times> ConnectionQuality" where
  "retry_result mt cfg a d q f =
     (case f of
        Some k \<Rightarrow> (delays mt cfg d (k - a), Ok k, reset_errors q)
      | None \<Rightarrow> (delays mt cfg d (max_retries cfg - a), Err (retries_exhausted cfg),
                 count_errors (Suc (max_retries cfg) - a) q))"

lemma retry_result_cons:
  assumes "a < max_retries cfg" "\<And>k. f = Some k \<Longrightarrow> a < k"
  shows "apfst ((#) d) (retry_result mt cfg (Suc a) (next_delay mt cfg d) (record_error q) f) = retry_result mt cfg a d q f"
proof (cases f)
  case None
  from assms(1) have "max_retries cfg - a = Suc (max_retries cfg - Suc a)"
    "Suc (max_retries cfg) - a = Suc (Suc (max_retries cfg) - Suc a)" by simp_all
  with None show ?thesis by (simp only: retry_result_def option.case apfst_conv delays_Suc count_errors_Suc)
next
  case (Some k)
  with assms(2) have "k - a = Suc (k - Suc a)" by fastforce
  with Some show ?thesis by (simp only: retry_result_def option.case apfst_conv delays_Suc reset_record_error)
qed

lemma retry_loop_spec:
  assumes "a \<le> Suc (max_retries cfg)"
  shows "retry_loop mt cfg outcome a d q =
    retry_result mt cfg a d q (find (\<lambda>k. outcome k = Connected) [a..<Suc (max_retries cfg)])"
  using assms
proof (induction "Suc (max_retries cfg) - a" arbitrary: a d q)
  case 0
  then have "a = Suc (max_retries cfg)" by simp
  then show ?case by (simp add: retry_loop_stop retry_result_def count_errors_def)
next
  case (Suc n)
  then have a: "a \<le> max_retries cfg" by simp
  let ?f = "\<lambda>a. find (\<lambda>k. outcome k = Connected) [a..<Suc (max_retries cfg)]"
  have f: "?f a = (if outcome a = Connected then Some a else ?f (Suc a))"
    using a by (simp add: upt_conv_Cons del: upt_Suc)
  have ih: "retry_loop mt cfg outcome (Suc a) d' q' = retry_result mt cfg (Suc a) d' q' (?f (Suc a))" for d' q'
    using Suc.hyps(2) a by (intro Suc.hyps(1)) simp_all
  show ?case
  proof (cases "outcome a = Connected")
    case True
    with a show ?thesis by (simp add: retry_loop_stop f retry_result_def del: upt_Suc)
  next
    case failed: False
    show ?thesis
    proof (cases "a < max_retries cfg")
      case True
      have "a < k" if "?f (Suc a) = Some k" for k using that by (auto simp: find_Some_iff simp del: upt_Suc)
      with True failed a show ?thesis by (simp add: retry_loop_failed ih f retry_result_cons del: upt_Suc)
    next
      case False
      with a have "a = max_retries cfg" by simp
      with failed show ?thesis
        by (simp add: retry_loop_failed retry_loop_stop retry_result_def count_errors_def)
    qed
  qed
qed

lemma connect_with_retry_result:
  assumes "connect_with_retry mt outcome m = (sleeps, r, m')"
  shows "m' = m\<lparr>quality_monitor := quality_monitor m'\<rparr>"
    and "(sleeps, r, quality_monitor m') =
      retry_result mt (reconnect_config m) 1 (initial_delay (reconnect_config m)) (quality_monitor m)
        (find (\<lambda>k. outcome k = Connected) [1..<Suc (max_retries (reconnect_config m))])"
  using assms by (auto simp: connect_with_retry_def retry_loop_spec split: prod.splits simp del: upt_Suc)

text \<open>
  C31. Connecting with retries returns the first attempt that succeeds, after as many pauses as
  attempts failed, and clears the error count; when no attempt succeeds it reports that, having
  paused between the attempts only and counted every failure. No pause is longer than the initial
  and the maximal delay.
\<close>

theorem connect_with_retry_spec:
  assumes "connect_with_retry mt outcome m = (sleeps, r, m')"
  defines "cfg \<equiv> reconnect_config m"
  shows "(case find (\<lambda>k. outcome k = Connected) [1..<Suc (max_retries cfg)] of
        Some k \<Rightarrow> r = Ok k \<and> length sleeps = k - 1 \<and> error_count (quality_monitor m') = 0
      | None \<Rightarrow> r = Err (retries_exhausted cfg) \<and> length sleeps = max_retries cfg - 1
          \<and> error_count (quality_monitor m') = error_count (quality_monitor m) + of_nat (max_retries cfg))
    \<and> (\<forall>d \<in> set sleeps. d \<le> max (initial_delay cfg) (max_delay cfg))
    \<and> sessions m' = sessions m"
proof -
  have le: "(next_delay mt cfg ^^ i) d \<le> max d (max_delay cfg)" for i d
    by (cases i) (simp_all add: next_delay_def)
  show ?thesis using connect_with_retry_result [OF assms(1), folded cfg_def] le
    by (auto simp: retry_result_def reset_errors_def error_count_count_errors split: option.splits simp del: upt_Suc)
qed

theorem connect_with_retry_spec_witness:
  "connect_with_retry (\<lambda>_ n. 2 * n) (\<lambda>k. if k = 3 then Connected else ConnectTimedOut) (ResilientConnectionManager_new 0)
     = ([millis 100, millis 200], Ok 3, ResilientConnectionManager_new 0)
   \<and> list_all (\<lambda>d. d \<le> secs 10) [millis 100, millis 200]"
proof
  show run: "connect_with_retry (\<lambda>_ n. 2 * n) (\<lambda>k. if k = 3 then Connected else ConnectTimedOut) (ResilientConnectionManager_new 0)
     = ([millis 100, millis 200], Ok 3, ResilientConnectionManager_new 0)"
    by (simp add: connect_with_retry_def retry_loop.simps next_delay_def ResilientConnectionManager_new_def
        with_config_def ReconnectConfig_default_def ConnectionQuality_new_def reset_errors_def record_error_def Let_def)
  from connect_with_retry_spec [OF run] show "list_all (\<lambda>d. d \<le> secs 10) [millis 100, millis 200]"
    by (simp add: ResilientConnectionManager_new_def with_config_def ReconnectConfig_default_def)
qed

section \<open>Sessions\<close>

lemma cache_data_fold:
  assumes "sessions m sid = Some s"
  obtains s' where "sessions (fold (\<lambda>(t, d) m. snd (cache_data t sid d m)) ds m) = (sessions m)(sid \<mapsto> s')"
    and "pending_data s' = pending_data s @ map snd ds"
    and "reconnect_config (fold (\<lambda>(t, d) m. snd (cache_data t sid d m)) ds m) = reconnect_config m"
proof -
  have "\<exists>s'. sessions (fold (\<lambda>(t, d) m. snd (cache_data t sid d m)) ds m) = (sessions m)(sid \<mapsto> s')
      \<and> pending_data s' = pending_data s @ map snd ds
      \<and> reconnect_config (fold (\<lambda>(t, d) m. snd (cache_data t sid d m)) ds m) = reconnect_config m"
    using assms
  proof (induction ds arbitrary: m s)
    case Nil
    then show ?case by (auto intro!: exI [of _ s])
  next
    case (Cons td ds)
    obtain t d where td: "td = (t, d)" by fastforce
    let ?m = "m\<lparr>sessions := (sessions m)(sid \<mapsto> add_pending_data t d s)\<rparr>"
    have "snd (cache_data t sid d m) = ?m" using Cons.prems by (simp add: cache_data_def)
    moreover have "sessions ?m sid = Some (add_pending_data t d s)" by simp
    from Cons.IH [OF this] obtain s' where
      "sessions (fold (\<lambda>(t, d) m. snd (cache_data t sid d m)) ds ?m) = (sessions ?m)(sid \<mapsto> s')"
      "pending_data s' = pending_data (add_pending_data t d s) @ map snd ds"
      "reconnect_config (fold (\<lambda>(t, d) m. snd (cache_data t sid d m)) ds ?m) = reconnect_config ?m" by blast
    ultimately show ?case unfolding td by (intro exI [of _ s']) (simp add: add_pending_data_def)
  qed
  with that show thesis by blast
qed

text \<open>
  C34. Data cached for a session while its connection is down comes back in the order it was
  cached when the session is recovered; when reconnecting fails, the cached data is gone as well,
  and a later recovery cannot return it. Other sessions keep theirs.
\<close>

theorem recovery_returns_or_loses_cached_data:
  assumes "sessions m sid = Some s"
    and "recover_connection mt outcome now sid (fold (\<lambda>(t, d) m. snd (cache_data t sid d m)) ds m) = (r, m')"
  shows "(case find (\<lambda>k. outcome k = Connected) [1..<Suc (max_retries (reconnect_config m))] of
            Some k \<Rightarrow> r = Ok (k, pending_data s @ map snd ds)
          | None \<Rightarrow> r = Err (retries_exhausted (reconnect_config m)))
     \<and> map_option pending_data (sessions m' sid) = Some []
     \<and> (\<forall>other. other = sid \<or> sessions m' other = sessions m other)"
proof -
  obtain s1 where s1: "sessions (fold (\<lambda>(t, d) m. snd (cache_data t sid d m)) ds m) = (sessions m)(sid \<mapsto> s1)"
    "pending_data s1 = pending_data s @ map snd ds"
    "reconnect_config (fold (\<lambda>(t, d) m. snd (cache_data t sid d m)) ds m) = reconnect_config m"
    using cache_data_fold [OF assms(1)] .
  let ?m = "(fold (\<lambda>(t, d) m. snd (cache_data t sid d m)) ds m)\<lparr>sessions := (sessions m)(sid \<mapsto> s1\<lparr>pending_data := [], last_updated := now\<rparr>)\<rparr>"
  obtain sleeps r1 m1 where c: "connect_with_retry mt outcome ?m = (sleeps, r1, m1)" by (metis prod_cases3)
  from connect_with_retry_result [OF c] have c1: "sessions m1 = sessions ?m"
    "r1 = (case find (\<lambda>k. outcome k = Connected) [1..<Suc (max_retries (reconnect_config m))] of
             Some k \<Rightarrow> Ok k | None \<Rightarrow> Err (retries_exhausted (reconnect_config m)))"
    using s1(3) by (auto simp: retry_result_def split: option.splits simp del: upt_Suc)
  from assms(2) have "(r, m') = (case r1 of Inl e \<Rightarrow> (Err e, m1) | Inr k \<Rightarrow> (Ok (k, pending_data s1), m1))"
    using c s1(1) by (simp add: recover_connection_def take_pending_data_def)
  with c1 s1(2) show ?thesis by (auto split: option.splits sum.splits simp del: upt_Suc)
qed

theorem recovery_returns_or_loses_cached_data_witness:
  "\<exists>m'. recover_connection (\<lambda>_ n. 2 * n) (\<lambda>_. ConnectTimedOut) 7 2
      (snd (cache_data 5 2 [1] ((ResilientConnectionManager_new 0)\<lparr>sessions := [2 \<mapsto> SessionInfo_new 0 ''c'' ''t'']\<rparr>)))
      = (Err (retries_exhausted ReconnectConfig_default), m')
    \<and> map_option pending_data (sessions m' 2) = Some []"
proof -
  let ?m = "(ResilientConnectionManager_new 0)\<lparr>sessions := [2 \<mapsto> SessionInfo_new 0 ''c'' ''t'']\<rparr>"
  obtain r m' where run: "recover_connection (\<lambda>_ n. 2 * n) (\<lambda>_. ConnectTimedOut) 7 2
      (fold (\<lambda>(t, d) m. snd (cache_data t 2 d m)) [(5, [1])] ?m) = (r, m')" by fastforce
  have cfg: "reconnect_config ?m = ReconnectConfig_default" by (simp add: ResilientConnectionManager_new_def with_config_def)
  have none: "find (\<lambda>k. ConnectTimedOut = Connected) xs = None" for xs :: "nat list" by (induction xs) simp_all
  have "sessions ?m 2 = Some (SessionInfo_new 0 ''c'' ''t'')" by simp
  from recovery_returns_or_loses_cached_data [OF this run] run show ?thesis
    unfolding cfg none by (intro exI [of _ m']) simp
qed

text \<open>
  A session dropped by the clean-up five minutes after its creation, although it has been used just
  now and holds cached data; \<open>is_expired\<close> would have kept it.
\<close>

lemma cleanup_ignores_activity:
  assumes "sessions m sid = Some s" "secs 300 < now - se_created_at s"
  shows "sessions (fst (health_check_tick now (snd (cache_data now sid d m)))) sid = None
    \<and> \<not> is_expired now (secs 300) (add_pending_data now d s)"
  using assms
  by (simp add: health_check_tick_def cleanup_expired_sessions_def cache_data_def add_pending_data_def is_expired_def Let_def)

section \<open>Forwarding\<close>

lemma forward_loop_buffered:
  "\<exists>src'. buffered_loop b tot src s = (case forward_loop b tot src s of (n, evs, s') \<Rightarrow> (n, src', s'))"
  by (induction b tot src s rule: forward_loop.induct)
    (subst buffered_loop.simps, subst forward_loop.simps, auto simp: Let_def split: prod.splits sum.splits)

lemma forward_loop_spec:
  assumes "0 < b" "forward_loop b tot src s = (n, evs, s')"
  shows "(\<exists>moved. sk_data s' = sk_data s @ moved \<and> prefix moved (payload src) \<and> n \<le> tot + length moved)
     \<and> (clean src \<and> sk_healthy s \<longrightarrow> sk_data s' = sk_data s @ payload src \<and> n = tot + length (payload src))"
proof -
  obtain src' where "buffered_loop b tot src s = (n, src', s')"
    using forward_loop_buffered [of b tot src s] assms(2) by auto
  from buffered_loop_spec [OF assms(1) this] show ?thesis .
qed

text \<open>
  The adaptive forwarder never carries anything from one side to the other: whatever it writes
  to a peer is a beginning of what that same peer has sent, and on sound connections it
  returns everything to its sender and counts it as forwarded.
\<close>

theorem forward_adaptive_echoes:
  assumes "0 < b1" "0 < b2"
    and "forward_adaptive None None b1 b2 client_in client_out remote_in remote_out = (r, client_out', remote_out')"
  shows "(\<exists>echo. sk_data client_out' = sk_data client_out @ echo \<and> prefix echo (payload client_in))
    \<and> (\<exists>echo. sk_data remote_out' = sk_data remote_out @ echo \<and> prefix echo (payload remote_in))
    \<and> (clean client_in \<and> clean remote_in \<and> sk_healthy client_out \<and> sk_healthy remote_out \<longrightarrow>
         sk_data client_out' = sk_data client_out @ payload client_in
         \<and> sk_data remote_out' = sk_data remote_out @ payload remote_in
         \<and> r = Ok (length (payload client_in), length (payload remote_in)))"
proof -
  obtain n1 ev1 c n2 ev2 d where l: "forward_loop b1 0 client_in client_out = (n1, ev1, c)"
    "forward_loop b2 0 remote_in remote_out = (n2, ev2, d)" by (metis prod_cases3)
  with assms(3) have "r = Ok (n1, n2)" "client_out' = c" "remote_out' = d"
    by (auto simp: forward_adaptive_def optimize_tcp_socket_def)
  with forward_loop_spec [OF assms(1) l(1)] forward_loop_spec [OF assms(2) l(2)] show ?thesis by auto
qed

theorem forward_adaptive_echoes_witness:
  "\<exists>c r. forward_adaptive None None (KiB 64) (KiB 64) [Data [1, 2]] fresh_sink [Data [3]] fresh_sink = (Ok (2, 1), c, r)
     \<and> sk_data c = [1, 2] \<and> sk_data r = [3]"
proof -
  obtain r c d where run: "forward_adaptive None None (KiB 64) (KiB 64) [Data [1, 2]] fresh_sink [Data [3]] fresh_sink = (r, c, d)"
    by (metis prod_cases3)
  from forward_adaptive_echoes [OF _ _ run] run show ?thesis by simp
qed

section \<open>The size of the buffer\<close>

abbreviation in_range :: "nat \<Rightarrow> bool" where
  "in_range n \<equiv> KiB 8 \<le> n \<and> n \<le> KiB 512"

definition forwarder_start :: "ForwarderState \<Rightarrow> bool" where
  "forwarder_start s = (\<exists>now. s = \<lparr>forwarder = AdaptiveForwarder_new now, rtt_reads = [], size_reads = []\<rparr>)"

definition forwarder_inv :: "ForwarderState \<Rightarrow> bool" where
  "forwarder_inv s =
     (in_range (buffer_size (forwarder s)) \<and> (\<forall>(rtt, n) \<in> set (size_reads s). in_range n)
      \<and> length (rtt_history (af_quality (forwarder s))) \<le> 20)"

lemma adjust_in_range: "in_range n \<Longrightarrow> in_range (adjust_buffer_size (KiB 8) (KiB 512) rtt n)"
  by (auto simp: adjust_buffer_size_def)

interpretation forwarding: invariant forwarder_start forwarder_step forwarder_inv
proof
  show "forwarder_inv s" if "forwarder_start s" for s
    using that by (auto simp: forwarder_start_def forwarder_inv_def AdaptiveForwarder_new_def ConnectionQuality_new_def)
  show "forwarder_inv t" if "forwarder_inv s" "forwarder_step s t" for s t
    using that(2,1)
  proof (cases rule: forwarder_step.cases)
    case (write_size rtt n)
    with that(1) have "in_range n" by (auto simp: forwarder_inv_def)
    with write_size that(1) show ?thesis
      using adjust_in_range [of n rtt] set_remove1_subset [of "(rtt, n)" "size_reads s"]
      by (auto simp: forwarder_inv_def write_back_def Let_def)
  qed (auto simp: forwarder_inv_def record_rtt_def record_error_def length_push_capped)
qed

text \<open>
  C32. However the two directions interleave, the shared buffer size stays between 8 and 512
  KiB, also when a direction writes back a size computed from one that was replaced meanwhile,
  and at most twenty measurements are kept.
\<close>

theorem buffer_size_bounded:
  assumes "reach forwarder_start forwarder_step s"
  shows "KiB 8 \<le> buffer_size (forwarder s) \<and> buffer_size (forwarder s) \<le> KiB 512
    \<and> length (rtt_history (af_quality (forwarder s))) \<le> 20"
  using forwarding.reach_inv [OF assms] by (auto simp: forwarder_inv_def)

theorem buffer_size_bounded_witness:
  "\<exists>s. reach forwarder_start forwarder_step s \<and> buffer_size (forwarder s) = KiB 128 \<and> buffer_size (forwarder s) \<le> KiB 512"
proof -
  let ?s0 = "\<lparr>forwarder = AdaptiveForwarder_new 0, rtt_reads = [], size_reads = []\<rparr>"
  let ?s1 = "?s0\<lparr>forwarder := (forwarder ?s0)\<lparr>af_quality := record_rtt 1 (millis 10) (af_quality (forwarder ?s0))\<rparr>\<rparr>"
  let ?s2 = "?s1\<lparr>rtt_reads := [millis 10]\<rparr>"
  let ?s3 = "?s2\<lparr>rtt_reads := [], size_reads := [(millis 10, KiB 64)]\<rparr>"
  let ?s4 = "?s3\<lparr>forwarder := write_back (millis 10) (KiB 64) (forwarder ?s3), size_reads := []\<rparr>"
  note defs = AdaptiveForwarder_new_def ConnectionQuality_new_def record_rtt_def push_capped_def get_average_rtt_def average_def
  have "reach forwarder_start forwarder_step ?s0" by (rule reach_init) (auto simp: forwarder_start_def)
  then have "reach forwarder_start forwarder_step ?s1" by (rule reach_step) (rule forwarded)
  then have "reach forwarder_start forwarder_step ?s2"
    by (rule reach_step) (use read_average [of ?s1 "millis 10"] in \<open>simp add: defs\<close>)
  then have "reach forwarder_start forwarder_step ?s3"
    by (rule reach_step) (use read_size [of "millis 10" ?s2] in \<open>simp add: defs\<close>)
  then have r: "reach forwarder_start forwarder_step ?s4"
    by (rule reach_step) (use write_size [of "millis 10" "KiB 64" ?s3] in simp)
  moreover have "buffer_size (forwarder ?s4) = KiB 128"
    by (simp add: write_back_def adjust_buffer_size_def AdaptiveForwarder_new_def)
  ultimately show ?thesis using buffer_size_bounded [OF r] by blast
qed

end
