(* ===== verification/F64.thy ===== *)
theory F64
  imports Config_Loader
begin

text \<open>
  Arithmetic on \<open>f64\<close>. An operation on finite numbers is exact on rational numbers and then rounded by
  the parameter \<open>rnd\<close>; the two zeros are one. What proofs use of rounding is \<open>rounds\<close>.
\<close>

section \<open>Operations\<close>

fun f64_neg :: "f64 \<Rightarrow> f64" where
  "f64_neg NaN = NaN"
| "f64_neg (Infinite p) = Infinite (\<not> p)"
| "f64_neg (Finite x) = Finite (- x)"

fun f64_add :: "(rat \<Rightarrow> f64) \<Rightarrow> f64 \<Rightarrow> f64 \<Rightarrow> f64" where
  "f64_add rnd (Finite x) (Finite y) = rnd (x + y)"
| "f64_add rnd (Infinite p) (Infinite q) = (if p = q then Infinite p else NaN)"
| "f64_add rnd (Infinite p) (Finite y) = Infinite p"
| "f64_add rnd (Finite x) (Infinite q) = Infinite q"
| "f64_add rnd _ _ = NaN"

definition f64_sub :: "(rat \<Rightarrow> f64) \<Rightarrow> f64 \<Rightarrow> f64 \<Rightarrow> f64" where
  "f64_sub rnd x y = f64_add rnd x (f64_neg y)"

fun f64_mul :: "(rat \<Rightarrow> f64) \<Rightarrow> f64 \<Rightarrow> f64 \<Rightarrow> f64" where
  "f64_mul rnd (Finite x) (Finite y) = rnd (x * y)"
| "f64_mul rnd (Infinite p) (Infinite q) = Infinite (p = q)"
| "f64_mul rnd (Infinite p) (Finite y) = (if y = 0 then NaN else Infinite (p = (0 < y)))"
| "f64_mul rnd (Finite x) (Infinite q) = (if x = 0 then NaN else Infinite ((0 < x) = q))"
| "f64_mul rnd _ _ = NaN"

text \<open>Division by a finite number other than zero; the sources divide by nothing else.\<close>

fun f64_div :: "(rat \<Rightarrow> f64) \<Rightarrow> f64 \<Rightarrow> rat \<Rightarrow> f64" where
  "f64_div rnd (Finite x) y = rnd (x / y)"
| "f64_div rnd (Infinite p) y = Infinite (p = (0 < y))"
| "f64_div rnd NaN y = NaN"

fun f64_less :: "f64 \<Rightarrow> f64 \<Rightarrow> bool" where
  "f64_less (Finite x) (Finite y) = (x < y)"
| "f64_less (Finite x) (Infinite q) = q"
| "f64_less (Infinite p) (Finite y) = (\<not> p)"
| "f64_less (Infinite p) (Infinite q) = (\<not> p \<and> q)"
| "f64_less _ _ = False"

text \<open>\<open>min\<close> and \<open>max\<close> ignore an operand that is not a number.\<close>

definition f64_min :: "f64 \<Rightarrow> f64 \<Rightarrow> f64" where
  "f64_min x y = (if x = NaN then y else if y = NaN then x else if f64_less y x then y else x)"

definition f64_max :: "f64 \<Rightarrow> f64 \<Rightarrow> f64" where
  "f64_max x y = (if x = NaN then y else if y = NaN then x else if f64_less x y then y else x)"

fun f64_as_u8 :: "f64 \<Rightarrow> u8" where
  "f64_as_u8 NaN = 0"
| "f64_as_u8 (Infinite positive) = (if positive then 255 else 0)"
| "f64_as_u8 (Finite r) = word_of_nat (min (nat \<lfloor>r\<rfloor>) 255)"

text \<open>The conversion of a 64-bit number to \<open>f64\<close> rounds too, to a finite number.\<close>

fun finite_part :: "f64 \<Rightarrow> rat" where
  "finite_part (Finite x) = x"
| "finite_part _ = 0"

definition u64_as_f64 :: "(rat \<Rightarrow> f64) \<Rightarrow> u64 \<Rightarrow> f64" where
  "u64_as_f64 rnd n = rnd (of_nat (unat n))"

lemma f64_less_trans_not: "f64_less x b \<Longrightarrow> \<not> f64_less b' b \<Longrightarrow> b' \<noteq> NaN \<Longrightarrow> f64_less x b'"
  by (cases x; cases b; cases b') auto

section \<open>Rounding\<close>

text \<open>
  Rounding is monotone, never yields something that is not a number, and keeps the integers that
  fit in the 53 bits of a significand.
\<close>

definition rounds :: "(rat \<Rightarrow> f64) \<Rightarrow> bool" where
  "rounds rnd \<longleftrightarrow>
     (\<forall>x y. x \<le> y \<longrightarrow> rnd x \<noteq> NaN \<and> \<not> f64_less (rnd y) (rnd x))
     \<and> (\<forall>n :: int. \<bar>n\<bar> \<le> 2 ^ 53 \<longrightarrow> rnd (of_int n) = Finite (of_int n))"

lemma rnd_int: "rounds rnd \<Longrightarrow> 0 \<le> n \<Longrightarrow> n \<le> 2 ^ 53 \<Longrightarrow> rnd (of_int n) = Finite (of_int n)"
  by (simp add: rounds_def)

lemma rnd_pair:
  assumes "rounds rnd" "0 \<le> x" "x \<le> x'" "x' \<le> of_int n" "n \<le> 2 ^ 53"
  obtains y y' where "rnd x = Finite y" "rnd x' = Finite y'" "0 \<le> y" "y \<le> y'" "y' \<le> of_int n"
proof -
  from assms(2-4) have n: "0 \<le> n" by (metis of_int_0_le_iff order_trans)
  have mono: "\<not> f64_less (rnd v) (rnd u) \<and> rnd u \<noteq> NaN \<and> rnd v \<noteq> NaN" if "u \<le> v" for u v
    using assms(1) that unfolding rounds_def by blast
  have ends: "rnd 0 = Finite 0" "rnd (of_int n) = Finite (of_int n)"
    using rnd_int [OF assms(1) _, of 0] rnd_int [OF assms(1) n assms(5)] by simp_all
  have inside: "\<exists>y. rnd u = Finite y \<and> 0 \<le> y \<and> y \<le> of_int n" if "0 \<le> u" "u \<le> of_int n" for u
    using mono [OF that(1)] mono [OF that(2)] unfolding ends by (cases "rnd u") auto
  obtain y where y: "rnd x = Finite y" "0 \<le> y" using inside [of x] assms(2-4) by auto
  obtain y' where y': "rnd x' = Finite y'" "y' \<le> of_int n" using inside [of x'] assms(2-4) by auto
  with y mono [OF assms(3)] have "y \<le> y'" by auto
  with y y' show thesis by (intro that)
qed

lemma rnd_step:
  assumes "rounds rnd" "0 \<le> x \<and> x \<le> x' \<and> x' \<le> numeral k" "(numeral k :: int) \<le> 2 ^ 53"
  obtains y y' where "rnd x = Finite y" "rnd x' = Finite y'" "0 \<le> y \<and> y \<le> y' \<and> y' \<le> numeral k"
  using rnd_pair [OF assms(1), of x x' "numeral k"] assms(2,3) by (metis of_int_numeral)

end
