(* ===== verification/Conn_Pool.thy ===== *)
theory Conn_Pool
  imports Resilient F64 "HOL-Library.Multiset"
begin

text \<open>
  The quality of pooled connections and the choice among them:
  \<^verbatim>\<open>src/src/proxy/connection_metrics.rs\<close>, \<^verbatim>\<open>src/src/proxy/quality_aware_connection.rs\<close> and
  \<^verbatim>\<open>src/src/proxy/connection_selector.rs\<close>.

  The random number generator is a parameter that picks a number below a bound.
\<close>

section \<open>Connection metrics\<close>

record ConnectionMetrics =
  rtt :: "nat option"
  rtt_samples :: "nat list"
  packet_loss_rate :: f64
  packets_sent :: u64
  packets_lost :: u64
  success_count :: u64
  failure_count :: u64
  bandwidth_mbps :: f64
  bytes_sent :: u64
  bytes_received :: u64
  cm_created_at :: nat
  last_health_check :: nat
  last_activity :: nat

definition ConnectionMetrics_new :: "nat \<Rightarrow> ConnectionMetrics" where
  "ConnectionMetrics_new now =
     \<lparr>rtt = None, rtt_samples = [], packet_loss_rate = Finite 0, packets_sent = 0, packets_lost = 0,
      success_count = 0, failure_count = 0, bandwidth_mbps = Finite 0, bytes_sent = 0, bytes_received = 0,
      cm_created_at = now, last_health_check = now, last_activity = now\<rparr>"

definition avg_rtt :: "ConnectionMetrics \<Rightarrow> nat option" where
  "avg_rtt m = average (rtt_samples m)"

definition calculate_rtt_score :: "ConnectionMetrics \<Rightarrow> f64" where
  "calculate_rtt_score m =
     (case avg_rtt m of
        None \<Rightarrow> Finite 50
      | Some t \<Rightarrow>
          if t < millis 50 then Finite 100
          else if t < millis 100 then Finite 90
          else if t < millis 200 then Finite 70
          else if t < millis 500 then Finite 40
          else Finite 10)"

definition calculate_loss_score :: "(rat \<Rightarrow> f64) \<Rightarrow> ConnectionMetrics \<Rightarrow> f64" where
  "calculate_loss_score rnd m = f64_mul rnd (f64_sub rnd (Finite 1) (packet_loss_rate m)) (Finite 100)"

definition calculate_success_score :: "(rat \<Rightarrow> f64) \<Rightarrow> ConnectionMetrics \<Rightarrow> f64" where
  "calculate_success_score rnd m =
     (let tot = success_count m + failure_count m in
      if tot = 0 then Finite 50
      else f64_mul rnd (f64_div rnd (u64_as_f64 rnd (success_count m)) (finite_part (u64_as_f64 rnd tot))) (Finite 100))"

definition calculate_bandwidth_score :: "ConnectionMetrics \<Rightarrow> f64" where
  "calculate_bandwidth_score m =
     (if f64_less (Finite 10) (bandwidth_mbps m) then Finite 100
      else if f64_less (Finite 5) (bandwidth_mbps m) then Finite 80
      else if f64_less (Finite 1) (bandwidth_mbps m) then Finite 60
      else if f64_less (Finite (1 / 2)) (bandwidth_mbps m) then Finite 40
      else Finite 20)"

definition weighted_total :: "(rat \<Rightarrow> f64) \<Rightarrow> f64 \<Rightarrow> f64 \<Rightarrow> f64 \<Rightarrow> f64 \<Rightarrow> f64" where
  "weighted_total rnd rtt_score loss_score success_score bandwidth_score =
     f64_div rnd
       (f64_add rnd
          (f64_add rnd
             (f64_add rnd (f64_mul rnd rtt_score (Finite 40)) (f64_mul rnd loss_score (Finite 30)))
             (f64_mul rnd success_score (Finite 20)))
          (f64_mul rnd bandwidth_score (Finite 10)))
       100"

definition calculate_quality_score :: "(rat \<Rightarrow> f64) \<Rightarrow> ConnectionMetrics \<Rightarrow> u8" where
  "calculate_quality_score rnd m =
     f64_as_u8 (f64_max (f64_min
       (weighted_total rnd (calculate_rtt_score m) (calculate_loss_score rnd m)
          (calculate_success_score rnd m) (calculate_bandwidth_score m))
       (Finite 100)) (Finite 0))"

definition add_rtt_sample :: "nat \<Rightarrow> nat \<Rightarrow> ConnectionMetrics \<Rightarrow> ConnectionMetrics" where
  "add_rtt_sample now t m =
     m\<lparr>rtt_samples := push_capped 100 t (rtt_samples m), rtt := Some t, last_health_check := now\<rparr>"

text \<open>The duration is a number of nanoseconds.\<close>

definition update_bandwidth :: "(rat \<Rightarrow> f64) \<Rightarrow> nat \<Rightarrow> ConnectionMetrics \<Rightarrow> ConnectionMetrics" where
  "update_bandwidth rnd duration m =
     (let seconds = rnd (of_nat duration / 10 ^ 9) in
      if f64_less (Finite 0) seconds
      then m\<lparr>bandwidth_mbps :=
             f64_div rnd (f64_div rnd (u64_as_f64 rnd (bytes_sent m + bytes_received m)) (finite_part seconds)) 1000000\<rparr>
      else m)"

definition record_success :: "nat \<Rightarrow> ConnectionMetrics \<Rightarrow> ConnectionMetrics" where
  "record_success now m = m\<lparr>success_count := success_count m + 1, last_activity := now\<rparr>"

definition record_failure :: "nat \<Rightarrow> ConnectionMetrics \<Rightarrow> ConnectionMetrics" where
  "record_failure now m = m\<lparr>failure_count := failure_count m + 1, last_activity := now\<rparr>"

definition update_transfer :: "nat \<Rightarrow> u64 \<Rightarrow> u64 \<Rightarrow> ConnectionMetrics \<Rightarrow> ConnectionMetrics" where
  "update_transfer now sent received m =
     m\<lparr>bytes_sent := bytes_sent m + sent, bytes_received := bytes_received m + received, last_activity := now\<rparr>"

section \<open>Connections\<close>

text \<open>
  A socket that is read without waiting: the bytes that have arrived, and what a read meets after
  them: nothing yet, the end of the stream, or an error.
\<close>

datatype SocketTail = Quiet | PeerClosed | Broken IoError

record PooledStream =
  ps_arrived :: bytes
  ps_tail :: SocketTail

definition would_block :: IoError where
  "would_block = IoError WouldBlock ''Resource temporarily unavailable''"

definition try_read :: "nat \<Rightarrow> PooledStream \<Rightarrow> (IoError + bytes) \<times> PooledStream" where
  "try_read n st =
     (if ps_arrived st \<noteq> [] then (Ok (take n (ps_arrived st)), st\<lparr>ps_arrived := drop n (ps_arrived st)\<rparr>)
      else (case ps_tail st of
              Quiet \<Rightarrow> (Err would_block, st)
            | PeerClosed \<Rightarrow> (Ok [], st)
            | Broken e \<Rightarrow> (Err e, st)))"

record QualityAwareConnection =
  qc_stream :: PooledStream
  metrics :: ConnectionMetrics
  connection_id :: string

definition QualityAwareConnection_new :: "nat \<Rightarrow> string \<Rightarrow> PooledStream \<Rightarrow> QualityAwareConnection" where
  "QualityAwareConnection_new now uuid st =
     \<lparr>qc_stream = st, metrics = ConnectionMetrics_new now, connection_id = uuid\<rparr>"

definition new_with_metrics :: "PooledStream \<Rightarrow> ConnectionMetrics \<Rightarrow> string \<Rightarrow> QualityAwareConnection" where
  "new_with_metrics st m cid = \<lparr>qc_stream = st, metrics = m, connection_id = cid\<rparr>"

definition quality_score :: "(rat \<Rightarrow> f64) \<Rightarrow> QualityAwareConnection \<Rightarrow> u8" where
  "quality_score rnd c = calculate_quality_score rnd (metrics c)"

text \<open>The time the read took is an argument.\<close>

definition measure_rtt :: "nat \<Rightarrow> QualityAwareConnection \<Rightarrow> (IoError + nat) \<times> QualityAwareConnection" where
  "measure_rtt elapsed c =
     (case try_read 1 (qc_stream c) of
        (Inr _, st) \<Rightarrow> (Ok elapsed, c\<lparr>qc_stream := st\<rparr>)
      | (Inl e, st) \<Rightarrow>
          (if io_kind e = WouldBlock then Ok elapsed else Err e, c\<lparr>qc_stream := st\<rparr>))"

definition is_alive :: "QualityAwareConnection \<Rightarrow> bool \<times> QualityAwareConnection" where
  "is_alive c =
     (case try_read 1 (qc_stream c) of
        (Inr _, st) \<Rightarrow> (True, c\<lparr>qc_stream := st\<rparr>)
      | (Inl e, st) \<Rightarrow> (io_kind e = WouldBlock, c\<lparr>qc_stream := st\<rparr>))"

section \<open>Selection\<close>

datatype SelectionStrategy = BestQuality | WeightedRandom | RoundRobin | LeastConnections

definition SelectionStrategy_default :: SelectionStrategy where
  "SelectionStrategy_default = BestQuality"

text \<open>\<open>to_lowercase\<close> is the parameter for the Unicode table.\<close>

definition from_str :: "(string \<Rightarrow> string) \<Rightarrow> string \<Rightarrow> SelectionStrategy option" where
  "from_str to_lowercase s =
     (let l = to_lowercase s in
      if l \<in> {''best_quality'', ''best''} then Some BestQuality
      else if l \<in> {''weighted_random'', ''weighted''} then Some WeightedRandom
      else if l \<in> {''round_robin'', ''roundrobin''} then Some RoundRobin
      else if l \<in> {''least_connections'', ''least''} then Some LeastConnections
      else None)"

definition swap_remove :: "nat \<Rightarrow> 'a list \<Rightarrow> 'a \<times> 'a list" where
  "swap_remove i xs =
     (xs ! i, if Suc i = length xs then butlast xs else (butlast xs)[i := List.last xs])"

definition take_at :: "nat \<Rightarrow> 'a list \<Rightarrow> 'a option \<times> 'a list" where
  "take_at i pool = apfst Some (swap_remove i pool)"

fun best_loop :: "('c \<Rightarrow> u8) \<Rightarrow> nat \<Rightarrow> nat \<Rightarrow> u8 \<Rightarrow> 'c list \<Rightarrow> nat" where
  "best_loop sc idx best_index best_score [] = best_index"
| "best_loop sc idx best_index best_score (conn # pool) =
     (if best_score < sc conn then best_loop sc (idx + 1) idx (sc conn) pool
      else best_loop sc (idx + 1) best_index best_score pool)"

definition select_best_quality :: "('c \<Rightarrow> u8) \<Rightarrow> 'c list \<Rightarrow> 'c option \<times> 'c list" where
  "select_best_quality sc pool =
     (if pool = [] then (None, pool)
      else take_at (best_loop sc 1 0 (sc (hd pool)) (tl pool)) pool)"

text \<open>The index at which the loop returns, if it does.\<close>

fun weighted_loop :: "nat \<Rightarrow> u32 \<Rightarrow> u8 list \<Rightarrow> nat option" where
  "weighted_loop idx random_weight [] = None"
| "weighted_loop idx random_weight (score # scores) =
     (if random_weight < ucast score then Some idx
      else weighted_loop (idx + 1) (random_weight - ucast score) scores)"

definition select_weighted_random ::
  "('c \<Rightarrow> u8) \<Rightarrow> (nat \<Rightarrow> nat) \<Rightarrow> 'c list \<Rightarrow> 'c option \<times> 'c list" where
  "select_weighted_random sc random_below pool =
     (if pool = [] then (None, pool)
      else
        (let scores = map sc pool;
             total_weight = sum_list (map ucast scores) :: u32
         in if total_weight = 0 then take_at (random_below (length pool)) pool
            else (case weighted_loop 0 (word_of_nat (random_below (unat total_weight))) scores of
                    Some idx \<Rightarrow> take_at idx pool
                  | None \<Rightarrow> take_at (length pool - 1) pool)))"

definition select_round_robin :: "usize \<Rightarrow> 'c list \<Rightarrow> ('c option \<times> 'c list) \<times> usize" where
  "select_round_robin rr pool =
     (if pool = [] then ((None, pool), rr)
      else
        (let len = word_of_nat (length pool) in
         (take_at (unat (rr mod len)) pool, (rr + 1) mod len)))"

definition select ::
  "('c \<Rightarrow> u8) \<Rightarrow> (nat \<Rightarrow> nat) \<Rightarrow> SelectionStrategy \<Rightarrow> usize \<Rightarrow> 'c list \<Rightarrow> ('c option \<times> 'c list) \<times> usize" where
  "select sc random_below strategy rr pool =
     (if pool = [] then ((None, pool), rr)
      else
        (case strategy of
           BestQuality \<Rightarrow> (select_best_quality sc pool, rr)
         | WeightedRandom \<Rightarrow> (select_weighted_random sc random_below pool, rr)
         | RoundRobin \<Rightarrow> select_round_robin rr pool
         | LeastConnections \<Rightarrow> (select_best_quality sc pool, rr)))"

section \<open>Choosing removes one connection\<close>

lemma swap_remove_mset:
  assumes "i < length xs"
  shows "mset xs = add_mset (xs ! i) (mset (snd (swap_remove i xs)))"
proof -
  from assms have ne: "xs \<noteq> []" by auto
  have xs: "mset xs = add_mset (List.last xs) (mset (butlast xs))"
    using append_butlast_last_id [OF ne] by (metis mset.simps(2) mset_append add_mset_add_single mset_single_iff mset.simps(1) add_mset_commute union_mset_add_mset_right add.right_neutral)
  show ?thesis
  proof (cases "Suc i = length xs")
    case True
    then have "xs ! i = List.last xs" using ne by (simp add: last_conv_nth flip: True)
    with True xs show ?thesis by (simp add: swap_remove_def)
  next
    case False
    with assms have i: "i < length (butlast xs)" by simp
    then have "xs ! i = butlast xs ! i" by (simp add: nth_butlast)
    moreover have "butlast xs ! i \<in># mset (butlast xs)" using i by simp
    ultimately show ?thesis using False i xs
      by (simp add: swap_remove_def mset_update add_mset_commute)
  qed
qed

lemma swap_remove_length: "i < length xs \<Longrightarrow> Suc (length (snd (swap_remove i xs))) = length xs"
  by (auto simp: swap_remove_def)

lemma take_at_some:
  "i < length pool \<Longrightarrow> \<exists>c pool'. take_at i pool = (Some c, pool') \<and> mset pool = add_mset c (mset pool')"
  using swap_remove_mset [of i pool] by (auto simp: take_at_def swap_remove_def)

lemma fst_take_at: "fst (take_at i pool) = Some (pool ! i)"
  by (simp add: take_at_def swap_remove_def)

text \<open>
  The contract of a choice: from an empty pool nothing, from any other pool one of its
  connections, and exactly that one is missing afterwards. The choice depends on an input of
  its own (random numbers, an index), which may be required to suit the pool.
\<close>

fun drain :: "('i \<Rightarrow> 'c list \<Rightarrow> 'c option \<times> 'c list) \<Rightarrow> 'i list \<Rightarrow> 'c list \<Rightarrow> 'c list" where
  "drain sel [] pool = []"
| "drain sel (i # is) pool =
     (case sel i pool of (None, pool') \<Rightarrow> drain sel is pool' | (Some c, pool') \<Rightarrow> c # drain sel is pool')"

locale selector =
  fixes sel :: "'i \<Rightarrow> 'c list \<Rightarrow> 'c option \<times> 'c list"
    and suits :: "'i \<Rightarrow> nat \<Rightarrow> bool"
  assumes sel_empty: "sel i [] = (None, [])"
    and sel_some: "suits i (length pool) \<Longrightarrow> pool \<noteq> [] \<Longrightarrow>
      \<exists>c pool'. sel i pool = (Some c, pool') \<and> mset pool = add_mset c (mset pool')"
begin

lemma drain_permutes:
  "length is = length pool \<Longrightarrow> \<forall>i \<in> set is. \<forall>n \<le> length pool. suits i n \<Longrightarrow> mset (drain sel is pool) = mset pool"
proof (induction "is" arbitrary: pool)
  case (Cons i "is")
  then have "pool \<noteq> []" "suits i (length pool)" by auto
  from sel_some [OF this(2,1)] obtain c pool' where
    s: "sel i pool = (Some c, pool')" "mset pool = add_mset c (mset pool')" by blast
  then have "length pool = Suc (length pool')" by (metis size_mset size_add_mset)
  with Cons s show ?case by simp
qed simp

end

lemma best_loop_spec:
  fixes sc :: "'c \<Rightarrow> u8" and pool :: "'c list"
  assumes "pre \<noteq> []" "b < length pre" "\<forall>j < length pre. sc (pre ! j) \<le> sc (pre ! b)"
    "\<forall>j < b. sc (pre ! j) < sc (pre ! b)"
  defines "k \<equiv> best_loop sc (length pre) b (sc (pre ! b)) pool"
  shows "k < length (pre @ pool) \<and> (\<forall>j < length (pre @ pool). sc ((pre @ pool) ! j) \<le> sc ((pre @ pool) ! k))
    \<and> (\<forall>j < k. sc ((pre @ pool) ! j) < sc ((pre @ pool) ! k))"
  using assms(1-4) unfolding k_def
proof (induction pool arbitrary: pre b)
  case (Cons c pool)
  show ?case
  proof (cases "sc (pre ! b) < sc c")
    case True
    have "\<forall>j < length (pre @ [c]). sc ((pre @ [c]) ! j) \<le> sc ((pre @ [c]) ! length pre)"
      using Cons.prems(3) True by (auto simp: nth_append less_Suc_eq intro: order_trans less_imp_le)
    moreover have "\<forall>j < length pre. sc ((pre @ [c]) ! j) < sc ((pre @ [c]) ! length pre)"
      using Cons.prems(3) True by (auto simp: nth_append intro: le_less_trans)
    ultimately show ?thesis using Cons.IH [of "pre @ [c]" "length pre"] True by simp
  next
    case False
    have "\<forall>j < length (pre @ [c]). sc ((pre @ [c]) ! j) \<le> sc ((pre @ [c]) ! b)"
      using Cons.prems False by (auto simp: nth_append less_Suc_eq)
    moreover have "\<forall>j < b. sc ((pre @ [c]) ! j) < sc ((pre @ [c]) ! b)"
      using Cons.prems by (auto simp: nth_append)
    ultimately show ?thesis using Cons.IH [of "pre @ [c]" b] Cons.prems False by (simp add: nth_append)
  qed
qed simp

lemma best_loop_pool:
  fixes sc :: "'c \<Rightarrow> u8" and pool :: "'c list"
  assumes "pool \<noteq> []"
  defines "k \<equiv> best_loop sc 1 0 (sc (hd pool)) (tl pool)"
  shows "k < length pool" "j < length pool \<Longrightarrow> sc (pool ! j) \<le> sc (pool ! k)" "j < k \<Longrightarrow> sc (pool ! j) < sc (pool ! k)"
  using best_loop_spec [of "[hd pool]" 0 sc "tl pool"] assms(1) unfolding k_def by simp_all

lemma weighted_loop_bound: "weighted_loop idx w scores = Some k \<Longrightarrow> idx \<le> k \<and> k < idx + length scores"
  by (induction idx w scores rule: weighted_loop.induct) (fastforce split: if_splits)+

interpretation best: selector "\<lambda>_ :: unit. select_best_quality sc" "\<lambda>_ _. True" for sc :: "'c \<Rightarrow> u8"
proof
  show "\<exists>c pool'. select_best_quality sc pool = (Some c, pool') \<and> mset pool = add_mset c (mset pool')"
    if "pool \<noteq> []" for pool
    unfolding select_best_quality_def if_not_P [OF that] by (rule take_at_some [OF best_loop_pool(1) [OF that]])
qed (simp add: select_best_quality_def)

interpretation weighted: selector "select_weighted_random sc" "\<lambda>random_below n. random_below n < n \<or> n = 0"
  for sc :: "'c \<Rightarrow> u8"
proof
  show "\<exists>c pool'. select_weighted_random sc random_below pool = (Some c, pool') \<and> mset pool = add_mset c (mset pool')"
    if suits: "random_below (length pool) < length pool \<or> length pool = 0" and ne: "pool \<noteq> []" for random_below pool
  proof -
    let ?t = "sum_list (map ucast (map sc pool)) :: u32"
    let ?l = "weighted_loop 0 (word_of_nat (random_below (unat ?t))) (map sc pool)"
    let ?k = "if ?t = 0 then random_below (length pool) else case ?l of Some k \<Rightarrow> k | None \<Rightarrow> length pool - 1"
    have "select_weighted_random sc random_below pool = take_at ?k pool"
      using ne by (cases ?l) (simp_all add: select_weighted_random_def Let_def)
    moreover have "?k < length pool"
      using suits ne weighted_loop_bound [of 0 "word_of_nat (random_below (unat ?t))" "map sc pool"] by (cases ?l) simp_all
    ultimately show ?thesis using take_at_some [of ?k pool] by simp
  qed
qed (simp add: select_weighted_random_def)

lemma round_robin_index: "pool \<noteq> [] \<Longrightarrow> length pool < 2 ^ 64 \<Longrightarrow> unat (rr mod word_of_nat (length pool) :: usize) < length pool"
  by (simp add: unat_mod unat_of_nat)

interpretation round_robin: selector "\<lambda>rr pool. fst (select_round_robin rr pool)" "\<lambda>_ n. n < 2 ^ 64"
proof
  show "\<exists>c pool'. fst (select_round_robin rr pool) = (Some c, pool') \<and> mset pool = add_mset c (mset pool')"
    if "length pool < 2 ^ 64" "pool \<noteq> []" for rr and pool :: "'b list"
    using take_at_some [OF round_robin_index [OF that(2,1), of rr]] that(2) by (simp add: select_round_robin_def Let_def)
qed (simp add: select_round_robin_def)

text \<open>The inputs of \<open>select\<close> are the random numbers, the strategy and the index.\<close>

abbreviation chosen ::
  "('c \<Rightarrow> u8) \<Rightarrow> (nat \<Rightarrow> nat) \<times> SelectionStrategy \<times> usize \<Rightarrow> 'c list \<Rightarrow> 'c option \<times> 'c list" where
  "chosen sc i pool \<equiv> fst (select sc (fst i) (fst (snd i)) (snd (snd i)) pool)"

interpretation choice: selector "chosen sc" "\<lambda>i n. (fst i n < n \<or> n = 0) \<and> n < 2 ^ 64" for sc :: "'c \<Rightarrow> u8"
proof
  show "\<exists>c pool'. chosen sc i pool = (Some c, pool') \<and> mset pool = add_mset c (mset pool')"
    if "(fst i (length pool) < length pool \<or> length pool = 0) \<and> length pool < 2 ^ 64" "pool \<noteq> []"
    for i :: "(nat \<Rightarrow> nat) \<times> SelectionStrategy \<times> usize" and pool
    using that best.sel_some [OF _ that(2), of sc] weighted.sel_some [OF _ that(2), of "fst i" sc]
      round_robin.sel_some [OF _ that(2), of "snd (snd i)"]
    by (cases "fst (snd i)") (simp_all add: select_def)
qed (simp add: select_def)

text \<open>
  Whatever strategies are mixed, taking as many connections from a pool as it has hands out
  each of them exactly once; with the best quality every time they come in order of falling score.
\<close>

theorem select_drains_pool:
  assumes "length is = length pool" "length pool < 2 ^ 64"
    and "\<forall>(random_below, strategy, rr) \<in> set is. \<forall>n > 0. random_below n < n"
  shows "mset (drain (chosen sc) is pool) = mset pool
    \<and> ((\<forall>(random_below, strategy, rr) \<in> set is. strategy = BestQuality \<or> strategy = LeastConnections)
        \<longrightarrow> sorted_wrt (\<lambda>c c'. sc c' \<le> sc c) (drain (chosen sc) is pool))"
proof -
  have perm: "mset (drain (chosen sc) is pool) = mset pool"
    if "length is = length pool" "length pool < 2 ^ 64" "\<forall>(random_below, strategy, rr) \<in> set is. \<forall>n > 0. random_below n < n" for "is" pool
    using that by (intro choice.drain_permutes) fastforce+
  have "sorted_wrt (\<lambda>c c'. sc c' \<le> sc c) (drain (chosen sc) is pool)"
    if "\<forall>(random_below, strategy, rr) \<in> set is. strategy = BestQuality \<or> strategy = LeastConnections"
    using assms that
  proof (induction "is" arbitrary: pool)
    case (Cons i "is")
    from Cons.prems have ne: "pool \<noteq> []" and c: "chosen sc i pool = select_best_quality sc pool"
      by (auto simp: select_def)
    let ?k = "best_loop sc 1 0 (sc (hd pool)) (tl pool)"
    from best.sel_some [OF _ ne, of sc] obtain x pool' where
      x: "select_best_quality sc pool = (Some x, pool')" "mset pool = add_mset x (mset pool')" by auto
    have "x = pool ! ?k" using x(1) fst_take_at [of ?k pool] ne by (simp add: select_best_quality_def)
    then have "sc y \<le> sc x" if "y \<in> set pool" for y
      using best_loop_pool(2) [OF ne, of _ sc] that by (auto simp: in_set_conv_nth)
    moreover have "length pool = Suc (length pool')" "set pool' \<subseteq> set pool"
      using x(2) by (metis size_mset size_add_mset) (metis set_mset_add_mset_insert set_mset_mset subset_insertI x(2))
    moreover have "set (drain (chosen sc) is pool') = set pool'"
      using perm [of "is" pool'] Cons.prems calculation(2) by (intro mset_eq_setD) simp
    ultimately show ?case using Cons.IH [of pool'] Cons.prems x(1) c by auto
  qed simp
  with perm [OF assms] show ?thesis by blast
qed

theorem select_drains_pool_witness:
  "mset (drain (chosen (\<lambda>c. c)) [(\<lambda>n. 0, BestQuality, 0), (\<lambda>n. n - 1, RoundRobin, 5), (\<lambda>n. n div 2, WeightedRandom, 1)] [3, 9, 4])
     = {#3, 4, 9 :: u8#}"
proof -
  let ?is = "[(\<lambda>n. 0, BestQuality, 0), (\<lambda>n. n - 1, RoundRobin, 5), (\<lambda>n. n div 2, WeightedRandom, 1)]
    :: ((nat \<Rightarrow> nat) \<times> SelectionStrategy \<times> usize) list"
  have "mset (drain (chosen (\<lambda>c. c)) ?is [3, 9, 4]) = mset [3, 9, 4 :: u8]"
    using select_drains_pool [of ?is "[3, 9, 4 :: u8]" "\<lambda>c. c"] by simp
  then show ?thesis by (simp add: add_mset_commute)
qed

section \<open>Choosing at random\<close>

lemma unat_ucast_u8: "unat (ucast (s :: u8) :: u32) = unat s"
proof -
  have "unat s < 2 ^ 8" by simp
  then have "unat s < 2 ^ 32" by (rule less_trans) simp
  then show ?thesis by (simp add: unsigned_ucast_eq take_bit_nat_eq_self)
qed

lemma weighted_loop_iff:
  assumes "sum_list (map unat scores) < 2 ^ 32"
  shows "weighted_loop idx w scores = Some (idx + k) \<longleftrightarrow>
    k < length scores \<and> sum_list (map unat (take k scores)) \<le> unat w \<and> unat w < sum_list (map unat (take (Suc k) scores))"
  using assms
proof (induction idx w scores arbitrary: k rule: weighted_loop.induct)
  case (2 idx w score scores)
  have less: "w < ucast score \<longleftrightarrow> unat w < unat score" by (simp add: word_less_nat_alt unat_ucast_u8)
  show ?case
  proof (cases "unat w < unat score")
    case True
    then show ?thesis by (cases k) (simp_all add: less)
  next
    case False
    then have d: "unat (w - ucast score) = unat w - unat score"
      by (simp add: unat_sub word_le_nat_alt unat_ucast_u8)
    show ?thesis
    proof (cases k)
      case 0
      have "weighted_loop (idx + 1) (w - ucast score) scores \<noteq> Some idx"
        using weighted_loop_bound by fastforce
      with 0 False show ?thesis by (simp add: less)
    next
      case (Suc j)
      have "weighted_loop (idx + 1) (w - ucast score) scores = Some (idx + 1 + j) \<longleftrightarrow>
        j < length scores \<and> sum_list (map unat (take j scores)) \<le> unat (w - ucast score)
        \<and> unat (w - ucast score) < sum_list (map unat (take (Suc j) scores))"
        using "2.prems" less False by (intro "2.IH") simp_all
      with Suc False d show ?thesis by (auto simp: less)
    qed
  qed
qed simp

lemma weighted_loop_returns:
  "unat w < sum_list (map unat scores) \<Longrightarrow> sum_list (map unat scores) < 2 ^ 32 \<Longrightarrow> weighted_loop idx w scores \<noteq> None"
proof (induction idx w scores rule: weighted_loop.induct)
  case (2 idx w score scores)
  have less: "w < ucast score \<longleftrightarrow> unat w < unat score" by (simp add: word_less_nat_alt unat_ucast_u8)
  show ?case
  proof (cases "unat w < unat score")
    case False
    then have "unat (w - ucast score) = unat w - unat score"
      by (simp add: unat_sub word_le_nat_alt unat_ucast_u8)
    with 2 False show ?thesis by (simp add: less)
  qed (simp add: less)
qed simp

lemma u8_le: "unat (s :: u8) \<le> 255"
proof -
  have "unat s < 2 ^ 8" by simp
  also have "(2 :: nat) ^ 8 = 256" by simp
  finally show ?thesis by linarith
qed

lemma score_sum_bound: "sum_list (map unat (scores :: u8 list)) \<le> 255 * length scores"
  using sum_list_mono [of scores unat "\<lambda>_. 255"] u8_le by (simp add: sum_list_triv mult.commute)

lemma score_sum_u32:
  "sum_list (map unat (scores :: u8 list)) < 2 ^ 32 \<Longrightarrow> unat (sum_list (map ucast scores) :: u32) = sum_list (map unat scores)"
  by (induction scores) (simp_all add: unat_ucast_u8 unat_plus_if_size word_size)

lemma take_sum: "sum_list (map unat (take (Suc i) scores)) = sum_list (map unat (take i scores)) + unat (scores ! i)"
  if "i < length scores" for scores :: "u8 list"
  using that by (simp add: take_Suc_conv_app_nth)

text \<open>
  C30. The weighted choice is proportional to the score: of the numbers the generator may return,
  exactly as many as its score lead to a connection, so one with score zero is never
  taken while another has a score.
\<close>

theorem weighted_choice_proportional:
  fixes sc :: "'c \<Rightarrow> u8"
  assumes "distinct pool" "length pool \<le> 2 ^ 24" "i < length pool"
  defines "total_weight \<equiv> \<Sum>c \<leftarrow> pool. unat (sc c)"
  assumes "0 < total_weight"
  shows "card {w. w < total_weight \<and> fst (select_weighted_random sc (\<lambda>n. w) pool) = Some (pool ! i)} = unat (sc (pool ! i))"
proof -
  let ?scores = "map sc pool"
  let ?s = "\<lambda>k. sum_list (map unat (take k ?scores))"
  have tw: "total_weight = sum_list (map unat ?scores)" unfolding total_weight_def by (simp add: comp_def)
  also have "\<dots> \<le> 255 * 2 ^ 24" using score_sum_bound [of ?scores] assms(2) by simp
  finally have "sum_list (map unat ?scores) < 2 ^ 32" "total_weight < 2 ^ 32" unfolding tw by simp_all
  note small = this
  have nz: "sum_list (map ucast ?scores) \<noteq> (0 :: u32)"
  proof
    assume "sum_list (map ucast ?scores) = (0 :: u32)"
    with score_sum_u32 [OF small(1)] have "sum_list (map unat ?scores) = 0" by (simp only: unsigned_0)
    with assms(5) tw show False by linarith
  qed
  have pick: "fst (select_weighted_random sc (\<lambda>n. w) pool) = Some (pool ! i) \<longleftrightarrow> ?s i \<le> w \<and> w < ?s (Suc i)"
    if w: "w < total_weight" for w
  proof -
    have u: "unat (word_of_nat w :: u32) = w" using w small(2) by (simp add: unat_of_nat)
    let ?l = "weighted_loop 0 (word_of_nat w) ?scores"
    have l: "?l = Some k \<longleftrightarrow> k < length pool \<and> ?s k \<le> w \<and> w < ?s (Suc k)" for k
      using weighted_loop_iff [OF small(1), of 0 "word_of_nat w" k] u by simp
    obtain k where k: "?l = Some k"
      using weighted_loop_returns [of "word_of_nat w" ?scores 0] u w small(1) unfolding tw by auto
    then have "k < length pool" unfolding l by simp
    have "fst (select_weighted_random sc (\<lambda>n. w) pool) = Some (pool ! k)"
      using k nz assms(3) by (auto simp: select_weighted_random_def Let_def fst_take_at)
    also have "\<dots> = Some (pool ! i) \<longleftrightarrow> k = i"
      using assms(1,3) \<open>k < length pool\<close> by (simp add: nth_eq_iff_index_eq)
    also have "\<dots> \<longleftrightarrow> ?s i \<le> w \<and> w < ?s (Suc i)" using l [of i] k assms(3) by auto
    finally show ?thesis .
  qed
  have "?s (Suc i) \<le> sum_list (map unat ?scores)"
    using append_take_drop_id [of "Suc i" ?scores] by (metis le_add1 map_append sum_list_append)
  then have "{w. w < total_weight \<and> fst (select_weighted_random sc (\<lambda>n. w) pool) = Some (pool ! i)} = {?s i..<?s (Suc i)}"
    using pick unfolding tw by auto
  then show ?thesis using take_sum [of i ?scores] assms(3) by simp
qed

theorem weighted_choice_proportional_witness:
  "card {w. w < 7 \<and> fst (select_weighted_random (\<lambda>c. c) (\<lambda>n. w) [0, 5, 2]) = Some (5 :: u8)} = 5"
  using weighted_choice_proportional [of "[0, 5, 2 :: u8]" 1 "\<lambda>c. c"] by simp

section \<open>The score\<close>

lemma weighted_total_mono:
  assumes r: "rounds rnd"
    and a: "0 \<le> a \<and> a \<le> a' \<and> a' \<le> 100" and b: "0 \<le> b \<and> b \<le> b' \<and> b' \<le> 100"
    and c: "0 \<le> c \<and> c \<le> c' \<and> c' \<le> 100" and d: "0 \<le> d \<and> d \<le> d' \<and> d' \<le> 100"
  obtains x x' where "weighted_total rnd (Finite a) (Finite b) (Finite c) (Finite d) = Finite x"
    "weighted_total rnd (Finite a') (Finite b') (Finite c') (Finite d') = Finite x'" "0 \<le> x \<and> x \<le> x' \<and> x' \<le> 100"
proof -
  from a have "0 \<le> a * 40 \<and> a * 40 \<le> a' * 40 \<and> a' * 40 \<le> 4000" by simp
  then obtain p p' where p: "rnd (a * 40) = Finite p" "rnd (a' * 40) = Finite p'" "0 \<le> p \<and> p \<le> p' \<and> p' \<le> 4000"
    by (rule rnd_step [OF r]) simp
  from b have "0 \<le> b * 30 \<and> b * 30 \<le> b' * 30 \<and> b' * 30 \<le> 3000" by simp
  then obtain q q' where q: "rnd (b * 30) = Finite q" "rnd (b' * 30) = Finite q'" "0 \<le> q \<and> q \<le> q' \<and> q' \<le> 3000"
    by (rule rnd_step [OF r]) simp
  from c have "0 \<le> c * 20 \<and> c * 20 \<le> c' * 20 \<and> c' * 20 \<le> 2000" by simp
  then obtain u u' where u: "rnd (c * 20) = Finite u" "rnd (c' * 20) = Finite u'" "0 \<le> u \<and> u \<le> u' \<and> u' \<le> 2000"
    by (rule rnd_step [OF r]) simp
  from d have "0 \<le> d * 10 \<and> d * 10 \<le> d' * 10 \<and> d' * 10 \<le> 1000" by simp
  then obtain v v' where v: "rnd (d * 10) = Finite v" "rnd (d' * 10) = Finite v'" "0 \<le> v \<and> v \<le> v' \<and> v' \<le> 1000"
    by (rule rnd_step [OF r]) simp
  from p(3) q(3) have "0 \<le> p + q \<and> p + q \<le> p' + q' \<and> p' + q' \<le> 7000" by linarith
  then obtain s s' where s: "rnd (p + q) = Finite s" "rnd (p' + q') = Finite s'" "0 \<le> s \<and> s \<le> s' \<and> s' \<le> 7000"
    by (rule rnd_step [OF r]) simp
  from s(3) u(3) have "0 \<le> s + u \<and> s + u \<le> s' + u' \<and> s' + u' \<le> 9000" by linarith
  then obtain t t' where t: "rnd (s + u) = Finite t" "rnd (s' + u') = Finite t'" "0 \<le> t \<and> t \<le> t' \<and> t' \<le> 9000"
    by (rule rnd_step [OF r]) simp
  from t(3) v(3) have "0 \<le> t + v \<and> t + v \<le> t' + v' \<and> t' + v' \<le> 10000" by linarith
  then obtain w w' where w: "rnd (t + v) = Finite w" "rnd (t' + v') = Finite w'" "0 \<le> w \<and> w \<le> w' \<and> w' \<le> 10000"
    by (rule rnd_step [OF r]) simp
  from w(3) have "0 \<le> w / 100 \<and> w / 100 \<le> w' / 100 \<and> w' / 100 \<le> 100" by simp
  then obtain x x' where x: "rnd (w / 100) = Finite x" "rnd (w' / 100) = Finite x'" "0 \<le> x \<and> x \<le> x' \<and> x' \<le> 100"
    by (rule rnd_step [OF r]) simp
  show thesis
    by (rule that [of x x']) (simp_all only: weighted_total_def f64_mul.simps f64_add.simps f64_div.simps p q u v s t w x)
qed

text \<open>
  \<open>m'\<close> is measured to be at least as good as \<open>m\<close>: its average time is not longer, its loss and its share
  of failures not larger, its bandwidth not smaller. Both have measurements that are in range.
\<close>

definition as_good_as :: "ConnectionMetrics \<Rightarrow> ConnectionMetrics \<Rightarrow> bool" where
  "as_good_as m' m \<longleftrightarrow>
     (\<exists>t t'. avg_rtt m = Some t \<and> avg_rtt m' = Some t' \<and> t' \<le> t)
     \<and> (\<exists>l l'. packet_loss_rate m = Finite l \<and> packet_loss_rate m' = Finite l' \<and> 0 \<le> l' \<and> l' \<le> l \<and> l \<le> 1)
     \<and> (\<exists>s f s' f'. success_count m = word_of_nat s \<and> failure_count m = word_of_nat f
          \<and> success_count m' = word_of_nat s' \<and> failure_count m' = word_of_nat f'
          \<and> 0 < s + f \<and> s + f \<le> 2 ^ 53 \<and> 0 < s' + f' \<and> s' + f' \<le> 2 ^ 53 \<and> s * f' \<le> s' * f)
     \<and> bandwidth_mbps m \<noteq> NaN \<and> bandwidth_mbps m' \<noteq> NaN \<and> \<not> f64_less (bandwidth_mbps m') (bandwidth_mbps m)"

lemma rtt_score_mono:
  assumes "avg_rtt m = Some t" "avg_rtt m' = Some t'" "t' \<le> t"
  obtains a a' where "calculate_rtt_score m = Finite a" "calculate_rtt_score m' = Finite a'" "0 \<le> a \<and> a \<le> a' \<and> a' \<le> 100"
proof (rule that [of "finite_part (calculate_rtt_score m)" "finite_part (calculate_rtt_score m')"])
qed (use assms in \<open>auto simp: calculate_rtt_score_def\<close>)

lemma bandwidth_score_mono:
  assumes "bandwidth_mbps m' \<noteq> NaN" "\<not> f64_less (bandwidth_mbps m') (bandwidth_mbps m)"
  obtains d d' where "calculate_bandwidth_score m = Finite d" "calculate_bandwidth_score m' = Finite d'"
    "0 \<le> d \<and> d \<le> d' \<and> d' \<le> 100"
proof -
  have "f64_less x (bandwidth_mbps m) \<Longrightarrow> f64_less x (bandwidth_mbps m')" for x
    using assms f64_less_trans_not by blast
  then show thesis
    by (intro that [of "finite_part (calculate_bandwidth_score m)" "finite_part (calculate_bandwidth_score m')"])
      (auto simp: calculate_bandwidth_score_def)
qed

lemma loss_score_mono:
  assumes r: "rounds rnd" and "packet_loss_rate m = Finite l" "packet_loss_rate m' = Finite l'"
    and "0 \<le> l' \<and> l' \<le> l \<and> l \<le> 1"
  obtains b b' where "calculate_loss_score rnd m = Finite b" "calculate_loss_score rnd m' = Finite b'"
    "0 \<le> b \<and> b \<le> b' \<and> b' \<le> 100"
proof -
  from assms(4) have "0 \<le> 1 + - l \<and> 1 + - l \<le> 1 + - l' \<and> 1 + - l' \<le> numeral Num.One" by simp
  then obtain y y' where y: "rnd (1 + - l) = Finite y" "rnd (1 + - l') = Finite y'" "0 \<le> y \<and> y \<le> y' \<and> y' \<le> numeral Num.One"
    by (rule rnd_step [OF r]) simp
  from y(3) have "0 \<le> y * 100 \<and> y * 100 \<le> y' * 100 \<and> y' * 100 \<le> 100" by simp
  then obtain b b' where b: "rnd (y * 100) = Finite b" "rnd (y' * 100) = Finite b'" "0 \<le> b \<and> b \<le> b' \<and> b' \<le> 100"
    by (rule rnd_step [OF r]) simp
  show thesis
    by (rule that [of b b'])
      (simp_all only: calculate_loss_score_def f64_sub_def f64_neg.simps f64_add.simps f64_mul.simps assms(2,3) y b)
qed

lemma success_total:
  assumes r: "rounds rnd" and "success_count m = word_of_nat s" "failure_count m = word_of_nat f"
    and "0 < s + f" "s + f \<le> 2 ^ 53"
  shows "calculate_success_score rnd m =
    f64_mul rnd (rnd (of_nat s / of_nat (s + f))) (Finite 100)"
proof -
  have small: "s + f < 2 ^ 64" "s < 2 ^ 64" using assms(5) by simp_all
  have tot: "success_count m + failure_count m = word_of_nat (s + f)" using assms(2,3) by simp
  have u: "unat (success_count m) = s" "unat (success_count m + failure_count m) = s + f"
    unfolding tot using small assms(2) by (simp_all only: unat_of_nat) simp_all
  have rn: "rnd (of_nat n) = Finite (of_nat n)" if "n \<le> 2 ^ 53" for n
    using rnd_int [OF r, of "int n"] that by (simp add: of_nat_le_numeral_power_cancel_iff flip: of_nat_le_iff)
  have "success_count m + failure_count m \<noteq> 0" using u(2) assms(4) by auto
  then show ?thesis using assms(5) rn [of s] rn [of "s + f"]
    by (simp add: calculate_success_score_def u64_as_f64_def u Let_def del: of_nat_add)
qed

lemma share_mono:
  assumes "0 < s + f" "0 < s' + f'" "s * f' \<le> s' * f"
  shows "0 \<le> (of_nat s / of_nat (s + f) :: rat) \<and> (of_nat s / of_nat (s + f) :: rat) \<le> of_nat s' / of_nat (s' + f')
    \<and> (of_nat s' / of_nat (s' + f') :: rat) \<le> 1"
proof -
  have "s * (s' + f') \<le> s' * (s + f)" using assms(3) by (simp add: algebra_simps)
  then have "(of_nat s * of_nat (s' + f') :: rat) \<le> of_nat s' * of_nat (s + f)" by (metis of_nat_le_iff of_nat_mult)
  moreover have "(0 :: rat) < of_nat (s + f)" "(0 :: rat) < of_nat (s' + f')" using assms(1,2) by (simp_all only: of_nat_0_less_iff)
  ultimately show ?thesis by (simp add: divide_simps mult.commute del: of_nat_add)
qed

lemma success_score_mono:
  assumes r: "rounds rnd" and "success_count m = word_of_nat s" "failure_count m = word_of_nat f"
    "success_count m' = word_of_nat s'" "failure_count m' = word_of_nat f'"
    "0 < s + f" "s + f \<le> 2 ^ 53" "0 < s' + f'" "s' + f' \<le> 2 ^ 53" "s * f' \<le> s' * f"
  obtains c c' where "calculate_success_score rnd m = Finite c" "calculate_success_score rnd m' = Finite c'"
    "0 \<le> c \<and> c \<le> c' \<and> c' \<le> 100"
proof -
  from share_mono [OF assms(6,8,10)] have "0 \<le> (of_nat s / of_nat (s + f) :: rat)
    \<and> (of_nat s / of_nat (s + f) :: rat) \<le> of_nat s' / of_nat (s' + f') \<and> of_nat s' / of_nat (s' + f') \<le> (numeral Num.One :: rat)"
    by simp
  then obtain y y' where y: "rnd (of_nat s / of_nat (s + f)) = Finite y" "rnd (of_nat s' / of_nat (s' + f')) = Finite y'"
    "0 \<le> y \<and> y \<le> y' \<and> y' \<le> numeral Num.One" by (rule rnd_step [OF r]) simp
  from y(3) have "0 \<le> y * 100 \<and> y * 100 \<le> y' * 100 \<and> y' * 100 \<le> 100" by simp
  then obtain b b' where b: "rnd (y * 100) = Finite b" "rnd (y' * 100) = Finite b'" "0 \<le> b \<and> b \<le> b' \<and> b' \<le> 100"
    by (rule rnd_step [OF r]) simp
  show thesis
    by (rule that [of b b'])
      (simp_all only: success_total [OF r assms(2,3,6,7)] success_total [OF r assms(4,5,8,9)] y b f64_mul.simps)
qed

lemma clamped_score:
  "0 \<le> x \<Longrightarrow> x \<le> 100 \<Longrightarrow> f64_as_u8 (f64_max (f64_min (Finite x) (Finite 100)) (Finite 0)) = word_of_nat (nat \<lfloor>x\<rfloor>)"
  by (simp add: f64_min_def f64_max_def min_def) linarith

text \<open>
  C28. The score is fair: a connection measured to be at least as good as another in every respect never
  scores lower, however the intermediate results are rounded, and no score exceeds 100.
\<close>

theorem quality_score_monotone:
  assumes r: "rounds rnd" and "as_good_as m' m"
  shows "calculate_quality_score rnd m \<le> calculate_quality_score rnd m' \<and> calculate_quality_score rnd m' \<le> 100"
proof -
  from assms(2) obtain t t' l l' s f s' f' where
    h: "avg_rtt m = Some t" "avg_rtt m' = Some t'" "t' \<le> t"
    "packet_loss_rate m = Finite l" "packet_loss_rate m' = Finite l'" "0 \<le> l' \<and> l' \<le> l \<and> l \<le> 1"
    "success_count m = word_of_nat s" "failure_count m = word_of_nat f"
    "success_count m' = word_of_nat s'" "failure_count m' = word_of_nat f'"
    "0 < s + f" "s + f \<le> 2 ^ 53" "0 < s' + f'" "s' + f' \<le> 2 ^ 53" "s * f' \<le> s' * f"
    "bandwidth_mbps m' \<noteq> NaN" "\<not> f64_less (bandwidth_mbps m') (bandwidth_mbps m)"
    unfolding as_good_as_def by blast
  obtain a a' where a: "calculate_rtt_score m = Finite a" "calculate_rtt_score m' = Finite a'" "0 \<le> a \<and> a \<le> a' \<and> a' \<le> 100"
    using rtt_score_mono [OF h(1-3)] .
  obtain b b' where b: "calculate_loss_score rnd m = Finite b" "calculate_loss_score rnd m' = Finite b'" "0 \<le> b \<and> b \<le> b' \<and> b' \<le> 100"
    using loss_score_mono [OF r h(4-6)] .
  obtain c c' where c: "calculate_success_score rnd m = Finite c" "calculate_success_score rnd m' = Finite c'" "0 \<le> c \<and> c \<le> c' \<and> c' \<le> 100"
    using success_score_mono [OF r h(7-15)] .
  obtain d d' where d: "calculate_bandwidth_score m = Finite d" "calculate_bandwidth_score m' = Finite d'" "0 \<le> d \<and> d \<le> d' \<and> d' \<le> 100"
    using bandwidth_score_mono [OF h(16-17)] .
  obtain x x' where x: "weighted_total rnd (Finite a) (Finite b) (Finite c) (Finite d) = Finite x"
    "weighted_total rnd (Finite a') (Finite b') (Finite c') (Finite d') = Finite x'" "0 \<le> x \<and> x \<le> x' \<and> x' \<le> 100"
    using weighted_total_mono [OF r a(3) b(3) c(3) d(3)] .
  have q: "calculate_quality_score rnd m = word_of_nat (nat \<lfloor>x\<rfloor>)" "calculate_quality_score rnd m' = word_of_nat (nat \<lfloor>x'\<rfloor>)"
    using x(3) by (simp_all add: calculate_quality_score_def a b c d x(1,2) clamped_score)
  have "\<lfloor>x\<rfloor> \<le> \<lfloor>x'\<rfloor>" "\<lfloor>x'\<rfloor> \<le> 100" using x(3) floor_mono [of x x'] by (simp, linarith)
  then have fl: "nat \<lfloor>x\<rfloor> \<le> nat \<lfloor>x'\<rfloor>" "nat \<lfloor>x'\<rfloor> \<le> 100" by linarith+
  then have "unat (word_of_nat (nat \<lfloor>x\<rfloor>) :: u8) = nat \<lfloor>x\<rfloor>" "unat (word_of_nat (nat \<lfloor>x'\<rfloor>) :: u8) = nat \<lfloor>x'\<rfloor>"
    by (simp_all add: unat_of_nat)
  with fl show ?thesis unfolding q by (simp add: word_le_nat_alt)
qed

theorem quality_score_monotone_witness:
  "as_good_as ((ConnectionMetrics_new 0)\<lparr>rtt_samples := [millis 30], success_count := 9, failure_count := 1\<rparr>)
     ((ConnectionMetrics_new 0)\<lparr>rtt_samples := [millis 250], success_count := 3, failure_count := 1\<rparr>)
   \<and> calculate_quality_score Finite ((ConnectionMetrics_new 0)\<lparr>rtt_samples := [millis 250], success_count := 3, failure_count := 1\<rparr>)
     \<le> calculate_quality_score Finite ((ConnectionMetrics_new 0)\<lparr>rtt_samples := [millis 30], success_count := 9, failure_count := 1\<rparr>)"
proof -
  have "rounds Finite" by (simp add: rounds_def)
  moreover have "as_good_as ((ConnectionMetrics_new 0)\<lparr>rtt_samples := [millis 30], success_count := 9, failure_count := 1\<rparr>)
     ((ConnectionMetrics_new 0)\<lparr>rtt_samples := [millis 250], success_count := 3, failure_count := 1\<rparr>)"
  proof -
    have "\<exists>s f s' f'. (3 :: u64) = word_of_nat s \<and> (1 :: u64) = word_of_nat f \<and> (9 :: u64) = word_of_nat s' \<and> (1 :: u64) = word_of_nat f'
        \<and> 0 < s + f \<and> s + f \<le> 2 ^ 53 \<and> 0 < s' + f' \<and> s' + f' \<le> 2 ^ 53 \<and> s * f' \<le> s' * f"
      by (rule exI [of _ 3], rule exI [of _ 1], rule exI [of _ 9], rule exI [of _ 1]) simp
    then show ?thesis by (simp add: as_good_as_def ConnectionMetrics_new_def avg_rtt_def average_def)
  qed
  ultimately show ?thesis using quality_score_monotone by blast
qed

text \<open>A connection without measurements scores 62.\<close>

lemma fresh_score: "rounds rnd \<Longrightarrow> calculate_quality_score rnd (ConnectionMetrics_new now) = 62"
  using rnd_int [of rnd 1] rnd_int [of rnd 100] rnd_int [of rnd 2000] rnd_int [of rnd 3000] rnd_int [of rnd 5000]
    rnd_int [of rnd 1000] rnd_int [of rnd 6000] rnd_int [of rnd 200] rnd_int [of rnd 6200] rnd_int [of rnd 62]
  by (simp add: calculate_quality_score_def ConnectionMetrics_new_def calculate_rtt_score_def avg_rtt_def average_def
      calculate_loss_score_def calculate_success_score_def calculate_bandwidth_score_def weighted_total_def f64_sub_def
      f64_min_def f64_max_def)

section \<open>Metrics in use\<close>

text \<open>
  The calls on the metrics of a connection, in the order in which they are made. Times are given in nanoseconds; a measured
  duration is below \<open>2 ^ 53\<close> seconds.
\<close>

datatype MetricsEvent =
  RttMeasured nat nat | BandwidthUpdated nat | Succeeded nat | Failed nat | Transferred nat u64 u64

fun metrics_event :: "(rat \<Rightarrow> f64) \<Rightarrow> MetricsEvent \<Rightarrow> ConnectionMetrics \<Rightarrow> ConnectionMetrics" where
  "metrics_event rnd (RttMeasured now t) = add_rtt_sample now t"
| "metrics_event rnd (BandwidthUpdated duration) = update_bandwidth rnd duration"
| "metrics_event rnd (Succeeded now) = record_success now"
| "metrics_event rnd (Failed now) = record_failure now"
| "metrics_event rnd (Transferred now sent received) = update_transfer now sent received"

fun event_in_range :: "MetricsEvent \<Rightarrow> bool" where
  "event_in_range (BandwidthUpdated duration) \<longleftrightarrow> duration \<le> 2 ^ 53 * 10 ^ 9"
| "event_in_range _ \<longleftrightarrow> True"

definition metrics_after :: "(rat \<Rightarrow> f64) \<Rightarrow> nat \<Rightarrow> MetricsEvent list \<Rightarrow> ConnectionMetrics" where
  "metrics_after rnd now evs = fold (metrics_event rnd) evs (ConnectionMetrics_new now)"

text \<open>A number that is not negative, or infinity.\<close>

definition f64_nonneg :: "f64 \<Rightarrow> bool" where
  "f64_nonneg x \<longleftrightarrow> x \<noteq> NaN \<and> \<not> f64_less x (Finite 0)"

text \<open>
  Well-formed metrics: at most a hundred samples, the last of which is the current time, and a bandwidth that
  is a number and not negative. The loss of packets stays zero: nothing measures it.
\<close>

definition metrics_ok :: "ConnectionMetrics \<Rightarrow> bool" where
  "metrics_ok m \<longleftrightarrow>
     length (rtt_samples m) \<le> 100
     \<and> rtt m = (if rtt_samples m = [] then None else Some (List.last (rtt_samples m)))
     \<and> packet_loss_rate m = Finite 0 \<and> packets_sent m = 0 \<and> packets_lost m = 0
     \<and> f64_nonneg (bandwidth_mbps m)"

lemma rnd_nonneg: "rounds rnd \<Longrightarrow> 0 \<le> x \<Longrightarrow> f64_nonneg (rnd x)"
  using rnd_int [of rnd 0] unfolding rounds_def f64_nonneg_def by fastforce

lemma div_nonneg: "rounds rnd \<Longrightarrow> f64_nonneg x \<Longrightarrow> 0 < y \<Longrightarrow> f64_nonneg (f64_div rnd x y)"
  using rnd_nonneg [of rnd "finite_part x / y"] by (cases x) (auto simp: f64_nonneg_def)

lemma last_push_capped: "0 < cap \<Longrightarrow> push_capped cap x xs \<noteq> [] \<and> List.last (push_capped cap x xs) = x"
  by (cases xs) (auto simp: push_capped_def Let_def)

lemma seconds_positive:
  assumes r: "rounds rnd" and d: "d \<le> 2 ^ 53 * 10 ^ 9" and p: "f64_less (Finite 0) (rnd (of_nat d / 10 ^ 9))"
  shows "0 < finite_part (rnd (of_nat d / 10 ^ 9))"
proof -
  have "of_nat d \<le> (of_nat (2 ^ 53 * 10 ^ 9) :: rat)" using d by (simp only: of_nat_le_iff)
  then have le: "(of_nat d / 10 ^ 9 :: rat) \<le> of_int (2 ^ 53)" by (simp add: divide_le_eq)
  obtain y y' where "rnd (of_nat d / 10 ^ 9) = Finite y"
    by (rule rnd_pair [OF r _ order_refl le]) simp_all
  with p show ?thesis by simp
qed

lemma metrics_ok_event:
  assumes r: "rounds rnd" and "event_in_range ev" "metrics_ok m"
  shows "metrics_ok (metrics_event rnd ev m)"
proof (cases ev)
  case (RttMeasured now t)
  with assms(3) show ?thesis
    using length_push_capped [of "rtt_samples m" 100 t] last_push_capped [of 100 t "rtt_samples m"]
    by (simp add: metrics_ok_def add_rtt_sample_def)
next
  case (BandwidthUpdated d)
  with assms have range: "d \<le> 2 ^ 53 * 10 ^ 9" and ok: "metrics_ok m" by simp_all
  have "f64_nonneg (f64_div rnd (f64_div rnd (u64_as_f64 rnd n) (finite_part (rnd (of_nat d / 10 ^ 9)))) 1000000)"
    if "f64_less (Finite 0) (rnd (of_nat d / 10 ^ 9))" for n
    using seconds_positive [OF r range that] unfolding u64_as_f64_def
    by (intro div_nonneg [OF r] rnd_nonneg [OF r] of_nat_0_le_iff) simp_all
  with ok BandwidthUpdated show ?thesis by (simp add: metrics_ok_def update_bandwidth_def Let_def)
qed (use assms(3) in \<open>simp_all add: metrics_ok_def record_success_def record_failure_def update_transfer_def\<close>)

lemma metrics_after_ok:
  assumes "rounds rnd" "list_all event_in_range evs"
  shows "metrics_ok (metrics_after rnd now evs)"
proof -
  have "metrics_ok (ConnectionMetrics_new now)"
    by (simp add: metrics_ok_def ConnectionMetrics_new_def f64_nonneg_def)
  with assms(2) show ?thesis
    unfolding metrics_after_def
    by (induction evs arbitrary: now rule: rev_induct) (simp_all add: metrics_ok_event [OF assms(1)])
qed

text \<open>The counters stay small in a history that is not longer than \<open>2 ^ 53\<close> calls.\<close>

lemma metrics_event_counts:
  "\<exists>s f. s + f \<le> length evs \<and> success_count (metrics_after rnd now evs) = of_nat s
     \<and> failure_count (metrics_after rnd now evs) = of_nat f"
proof (induction evs rule: rev_induct)
  case Nil
  then show ?case by (simp add: metrics_after_def ConnectionMetrics_new_def)
next
  case (snoc ev evs)
  then obtain s f where sf: "s + f \<le> length evs" "success_count (metrics_after rnd now evs) = of_nat s"
    "failure_count (metrics_after rnd now evs) = of_nat f" by blast
  have step: "metrics_after rnd now (evs @ [ev]) = metrics_event rnd ev (metrics_after rnd now evs)"
    by (simp add: metrics_after_def)
  have count: ?case
    if "success_count (metrics_event rnd ev (metrics_after rnd now evs)) = of_nat s'"
      "failure_count (metrics_event rnd ev (metrics_after rnd now evs)) = of_nat f'" "s' + f' \<le> Suc (length evs)" for s' f'
    using that unfolding step by auto
  show ?case
    using sf count [of "Suc s" f] count [of s "Suc f"] count [of s f]
    by (cases ev) (simp_all add: add_rtt_sample_def update_bandwidth_def update_transfer_def record_success_def
        record_failure_def Let_def)
qed

lemma success_score_range:
  assumes r: "rounds rnd" and sf: "s + f \<le> 2 ^ 53" "success_count m = of_nat s" "failure_count m = of_nat f"
  obtains c where "calculate_success_score rnd m = Finite c" "0 \<le> c" "c \<le> 100"
proof (cases "s + f = 0")
  case True
  with sf that [of 50] show thesis by (simp add: calculate_success_score_def)
next
  case False
  with success_score_mono [OF r sf(2,3) sf(2,3)] sf(1) that show thesis by fastforce
qed

lemma lowest_total: "rounds rnd \<Longrightarrow> weighted_total rnd (Finite 10) (Finite 100) (Finite 0) (Finite 20) = Finite 36"
  using rnd_int [of rnd 0] rnd_int [of rnd 400] rnd_int [of rnd 3000] rnd_int [of rnd 3400] rnd_int [of rnd 200]
    rnd_int [of rnd 3600] rnd_int [of rnd 36]
  by (simp add: weighted_total_def)

text \<open>
  C29. In every history of calls the metrics of a connection are well-formed, and its score lies between 36 and
  100: as the loss of packets is never measured, no connection scores lower, however slow it is and however often it fails.
\<close>

theorem metrics_well_formed:
  assumes r: "rounds rnd" and evs: "list_all event_in_range evs" and len: "length evs \<le> 2 ^ 53"
  shows "metrics_ok (metrics_after rnd now evs)
    \<and> calculate_quality_score rnd (metrics_after rnd now evs) \<in> {36..100}"
proof -
  let ?m = "metrics_after rnd now evs"
  note ok = metrics_after_ok [OF r evs, of now]
  have b: "calculate_loss_score rnd ?m = Finite 100"
    using ok rnd_int [OF r, of 1] rnd_int [OF r, of 100]
    by (simp add: metrics_ok_def calculate_loss_score_def f64_sub_def)
  obtain a where a: "calculate_rtt_score ?m = Finite a" "10 \<le> a" "a \<le> 100"
    by (rule that [of "finite_part (calculate_rtt_score ?m)"])
      (auto simp: calculate_rtt_score_def split: option.splits)
  obtain d where d: "calculate_bandwidth_score ?m = Finite d" "20 \<le> d" "d \<le> 100"
    by (rule that [of "finite_part (calculate_bandwidth_score ?m)"]) (auto simp: calculate_bandwidth_score_def)
  obtain s f where sf: "s + f \<le> length evs" "success_count ?m = of_nat s" "failure_count ?m = of_nat f"
    using metrics_event_counts by blast
  obtain c where c: "calculate_success_score rnd ?m = Finite c" "0 \<le> c" "c \<le> 100"
    by (rule success_score_range [OF r order_trans [OF sf(1) len] sf(2,3)])
  obtain x x' where x: "weighted_total rnd (Finite 10) (Finite 100) (Finite 0) (Finite 20) = Finite x"
    "weighted_total rnd (Finite a) (Finite 100) (Finite c) (Finite d) = Finite x'" "0 \<le> x \<and> x \<le> x' \<and> x' \<le> 100"
    by (rule weighted_total_mono [OF r, of 10 a 100 100 0 c 20 d]) (use a c d in auto)
  with lowest_total [OF r] have x': "36 \<le> x'" "x' \<le> 100" by auto
  then have q: "calculate_quality_score rnd ?m = word_of_nat (nat \<lfloor>x'\<rfloor>)"
    by (simp add: calculate_quality_score_def a b c d x(2) clamped_score)
  have "36 \<le> nat \<lfloor>x'\<rfloor>" "nat \<lfloor>x'\<rfloor> \<le> 100" using x' by linarith+
  with ok show ?thesis unfolding q by (simp add: word_le_nat_alt unat_of_nat)
qed

theorem metrics_well_formed_witness:
  "calculate_quality_score Finite (metrics_after Finite 0 [RttMeasured 0 (millis 600), Failed 1, BandwidthUpdated 7]) \<in> {36..100}"
  using metrics_well_formed [of Finite "[RttMeasured 0 (millis 600), Failed 1, BandwidthUpdated 7]" 0]
  by (simp add: rounds_def)

section \<open>Checking a connection\<close>

text \<open>
  Checking whether a pooled connection is alive, or measuring it, takes the first byte the
  peer has sent out of the stream and throws it away; and a connection the peer has closed is
  reported alive. Only an error other than an empty socket makes a connection dead.
\<close>

theorem liveness_check_consumes_data:
  "ps_arrived (qc_stream (snd (is_alive c))) = drop 1 (ps_arrived (qc_stream c))
   \<and> ps_arrived (qc_stream (snd (measure_rtt elapsed c))) = drop 1 (ps_arrived (qc_stream c))
   \<and> (fst (is_alive c) \<longleftrightarrow> ps_arrived (qc_stream c) \<noteq> [] \<or> ps_tail (qc_stream c) \<in> {Quiet, PeerClosed}
        \<or> (\<exists>msg. ps_tail (qc_stream c) = Broken (IoError WouldBlock msg)))
   \<and> is_ok (fst (measure_rtt elapsed c)) = fst (is_alive c)"
proof -
  have "io_kind e = WouldBlock \<longleftrightarrow> (\<exists>msg. e = IoError WouldBlock msg)" for e by (cases e) simp
  then show ?thesis
    by (auto simp: is_alive_def measure_rtt_def try_read_def would_block_def split: SocketTail.splits)
qed

end
