(* ===== verification/Monitoring.thy ===== *)
theory Monitoring
  imports Resilient F64
begin

text \<open>
  The monitoring system, \<^verbatim>\<open>src/src/monitoring/mod.rs\<close>: counters, the log of recent errors, derived rates,
  health status and the exported texts.

  Instants and durations are natural numbers of nanoseconds and the clock is an argument. The
  text of an \<open>f64\<close> and the random number that stands in for the CPU load are parameters.
\<close>

section \<open>Metrics\<close>

record MonitoredConnections =
  total_connections :: u64
  active_connections :: u64
  failed_connections :: u64
  connection_rate :: f64
  avg_connection_duration_ms :: u64
  total_bytes_transferred :: u64
  total_packets_transferred :: u64

record PerformanceMetrics =
  cpu_utilization_percent :: f64
  memory_usage_bytes :: u64
  network_throughput_mbps :: f64
  request_rate :: f64
  avg_response_time_ms :: u64
  error_rate_percent :: f64
  load_average :: "f64 \<times> f64 \<times> f64"

record ErrorEvent =
  ee_timestamp :: nat
  ee_error_type :: string
  ee_error_message :: string
  ee_context :: "string \<rightharpoonup> string"

record ErrorMetrics =
  total_errors :: u64
  errors_by_type :: "string \<rightharpoonup> u64"
  recent_errors :: "ErrorEvent list"
  error_rate_trend :: "(nat \<times> f64) list"

datatype HealthStatus = Healthy | Degraded | Unhealthy

text \<open>The states are ordered from good to bad.\<close>

fun health_rank :: "HealthStatus \<Rightarrow> nat" where
  "health_rank Healthy = 0"
| "health_rank Degraded = 1"
| "health_rank Unhealthy = 2"

lemma health_rank_inj: "health_rank a = health_rank b \<Longrightarrow> a = b"
  by (cases a; cases b) simp_all

instantiation HealthStatus :: linorder
begin

definition less_eq_HealthStatus :: "HealthStatus \<Rightarrow> HealthStatus \<Rightarrow> bool" where
  "less_eq_HealthStatus a b \<longleftrightarrow> health_rank a \<le> health_rank b"

definition less_HealthStatus :: "HealthStatus \<Rightarrow> HealthStatus \<Rightarrow> bool" where
  "less_HealthStatus a b \<longleftrightarrow> health_rank a < health_rank b"

instance
  by standard (auto simp: less_eq_HealthStatus_def less_HealthStatus_def intro: health_rank_inj)

end

record ServiceHealth =
  sh_name :: string
  sh_status :: HealthStatus
  sh_response_time_ms :: u64
  sh_last_check :: nat
  sh_details :: "string \<rightharpoonup> string"

record SystemHealth =
  hl_status :: HealthStatus
  uptime_seconds :: nat
  hl_last_check :: nat
  services :: "string \<rightharpoonup> ServiceHealth"

record MonitoringSystem =
  connections :: MonitoredConnections
  performance :: PerformanceMetrics
  errors :: ErrorMetrics
  health :: SystemHealth
  start_time :: nat
  last_update :: nat
  collection_interval :: nat

definition MonitoringSystem_new :: "nat \<Rightarrow> MonitoringSystem" where
  "MonitoringSystem_new now =
     \<lparr>connections = \<lparr>total_connections = 0, active_connections = 0, failed_connections = 0,
        connection_rate = Finite 0, avg_connection_duration_ms = 0, total_bytes_transferred = 0,
        total_packets_transferred = 0\<rparr>,
      performance = \<lparr>cpu_utilization_percent = Finite 0, memory_usage_bytes = 0,
        network_throughput_mbps = Finite 0, request_rate = Finite 0, avg_response_time_ms = 0,
        error_rate_percent = Finite 0, load_average = (Finite 0, Finite 0, Finite 0)\<rparr>,
      errors = \<lparr>total_errors = 0, errors_by_type = Map.empty, recent_errors = [], error_rate_trend = []\<rparr>,
      health = \<lparr>hl_status = Healthy, uptime_seconds = 0, hl_last_check = now, services = Map.empty\<rparr>,
      start_time = now, last_update = now, collection_interval = secs 5\<rparr>"

section \<open>Rates\<close>

definition elapsed_secs :: "(rat \<Rightarrow> f64) \<Rightarrow> nat \<Rightarrow> MonitoringSystem \<Rightarrow> f64" where
  "elapsed_secs rnd now m = rnd (of_nat (now - start_time m) / 10 ^ 9)"

definition per_second :: "(rat \<Rightarrow> f64) \<Rightarrow> nat \<Rightarrow> MonitoringSystem \<Rightarrow> u64 \<Rightarrow> f64" where
  "per_second rnd now m n = f64_div rnd (u64_as_f64 rnd n) (finite_part (elapsed_secs rnd now m))"

definition update_connection_rate :: "(rat \<Rightarrow> f64) \<Rightarrow> nat \<Rightarrow> MonitoringSystem \<Rightarrow> MonitoringSystem" where
  "update_connection_rate rnd now m =
     (if f64_less (Finite 0) (elapsed_secs rnd now m)
      then m\<lparr>connections := (connections m)\<lparr>connection_rate := per_second rnd now m (total_connections (connections m))\<rparr>\<rparr>
      else m)"

definition update_network_throughput :: "(rat \<Rightarrow> f64) \<Rightarrow> nat \<Rightarrow> MonitoringSystem \<Rightarrow> MonitoringSystem" where
  "update_network_throughput rnd now m =
     (if f64_less (Finite 0) (elapsed_secs rnd now m)
      then m\<lparr>performance := (performance m)\<lparr>network_throughput_mbps :=
             f64_div rnd (f64_mul rnd (per_second rnd now m (total_bytes_transferred (connections m))) (Finite 8)) (1024 * 1024)\<rparr>\<rparr>
      else m)"

definition update_error_rate :: "(rat \<Rightarrow> f64) \<Rightarrow> nat \<Rightarrow> MonitoringSystem \<Rightarrow> MonitoringSystem" where
  "update_error_rate rnd now m =
     (if f64_less (Finite 0) (elapsed_secs rnd now m)
      then m\<lparr>errors := (errors m)\<lparr>error_rate_trend :=
             push_capped 100 (now, per_second rnd now m (total_errors (errors m))) (error_rate_trend (errors m))\<rparr>\<rparr>
      else m)"

section \<open>Recording\<close>

definition record_connection_established :: "(rat \<Rightarrow> f64) \<Rightarrow> nat \<Rightarrow> MonitoringSystem \<Rightarrow> MonitoringSystem" where
  "record_connection_established rnd now m =
     update_connection_rate rnd now
       (m\<lparr>connections := (connections m)\<lparr>total_connections := total_connections (connections m) + 1,
                                          active_connections := active_connections (connections m) + 1\<rparr>\<rparr>)"

definition record_connection_closed :: "u64 \<Rightarrow> MonitoringSystem \<Rightarrow> MonitoringSystem" where
  "record_connection_closed duration_ms m =
     (let c = connections m;
          c1 = (if 0 < active_connections c then c\<lparr>active_connections := active_connections c - 1\<rparr> else c);
          n = total_connections c1;
          c2 = (if 0 < n
                then c1\<lparr>avg_connection_duration_ms := (avg_connection_duration_ms c1 * (n - 1) + duration_ms) div n\<rparr>
                else c1)
      in m\<lparr>connections := c2\<rparr>)"

definition record_connection_failed :: "(rat \<Rightarrow> f64) \<Rightarrow> nat \<Rightarrow> MonitoringSystem \<Rightarrow> MonitoringSystem" where
  "record_connection_failed rnd now m =
     update_connection_rate rnd now
       (m\<lparr>connections := (connections m)\<lparr>failed_connections := failed_connections (connections m) + 1\<rparr>\<rparr>)"

definition record_data_transfer :: "(rat \<Rightarrow> f64) \<Rightarrow> nat \<Rightarrow> u64 \<Rightarrow> u64 \<Rightarrow> MonitoringSystem \<Rightarrow> MonitoringSystem" where
  "record_data_transfer rnd now bs packets m =
     update_network_throughput rnd now
       (m\<lparr>connections := (connections m)\<lparr>
          total_bytes_transferred := total_bytes_transferred (connections m) + bs,
          total_packets_transferred := total_packets_transferred (connections m) + packets\<rparr>\<rparr>)"

text \<open>\<open>entry(..).or_insert(0) += 1\<close>.\<close>

definition count_type :: "string \<Rightarrow> (string \<rightharpoonup> u64) \<Rightarrow> (string \<rightharpoonup> u64)" where
  "count_type ty f = f(ty \<mapsto> (case f ty of None \<Rightarrow> 0 | Some n \<Rightarrow> n) + 1)"

definition monitor_record_error ::
  "(rat \<Rightarrow> f64) \<Rightarrow> nat \<Rightarrow> string \<Rightarrow> string \<Rightarrow> (string \<rightharpoonup> string) \<Rightarrow> MonitoringSystem \<Rightarrow> MonitoringSystem" where
  "monitor_record_error rnd now ty msg ctx m =
     update_error_rate rnd now
       (m\<lparr>errors := (errors m)\<lparr>
          total_errors := total_errors (errors m) + 1,
          errors_by_type := count_type ty (errors_by_type (errors m)),
          recent_errors := push_capped 100
            \<lparr>ee_timestamp = now, ee_error_type = ty, ee_error_message = msg, ee_context = ctx\<rparr>
            (recent_errors (errors m))\<rparr>\<rparr>)"

section \<open>Health\<close>

text \<open>\<open>r\<close> is a random number from zero up to one.\<close>

definition get_cpu_usage :: "(rat \<Rightarrow> f64) \<Rightarrow> rat \<Rightarrow> f64" where
  "get_cpu_usage rnd r = f64_add rnd (f64_mul rnd (Finite r) (Finite 80)) (Finite 10)"

definition get_memory_usage :: u64 where
  "get_memory_usage = 512 * 1024 * 1024"

definition calculate_request_rate :: "(rat \<Rightarrow> f64) \<Rightarrow> nat \<Rightarrow> MonitoringSystem \<Rightarrow> f64" where
  "calculate_request_rate rnd now m =
     (if f64_less (Finite 0) (elapsed_secs rnd now m)
      then per_second rnd now m (total_packets_transferred (connections m)) else Finite 0)"

definition calculate_error_rate :: "(rat \<Rightarrow> f64) \<Rightarrow> MonitoringSystem \<Rightarrow> f64" where
  "calculate_error_rate rnd m =
     (let n = total_connections (connections m) in
      if 0 < n then f64_mul rnd (f64_div rnd (u64_as_f64 rnd (total_errors (errors m))) (finite_part (u64_as_f64 rnd n))) (Finite 100)
      else Finite 0)"

definition health_of :: "f64 \<Rightarrow> f64 \<Rightarrow> HealthStatus" where
  "health_of cpu err =
     (if f64_less (Finite 90) cpu \<or> f64_less (Finite 10) err then Unhealthy
      else if f64_less (Finite 70) cpu \<or> f64_less (Finite 5) err then Degraded
      else Healthy)"

definition update_health_status :: "nat \<Rightarrow> MonitoringSystem \<Rightarrow> MonitoringSystem" where
  "update_health_status now m =
     m\<lparr>health := (health m)\<lparr>uptime_seconds := (now - start_time m) div 10 ^ 9, hl_last_check := now,
        hl_status := health_of (cpu_utilization_percent (performance m)) (error_rate_percent (performance m))\<rparr>\<rparr>"

definition update_performance_metrics :: "(rat \<Rightarrow> f64) \<Rightarrow> nat \<Rightarrow> rat \<Rightarrow> MonitoringSystem \<Rightarrow> MonitoringSystem" where
  "update_performance_metrics rnd now r m =
     (let m1 = m\<lparr>performance := (performance m)\<lparr>
            cpu_utilization_percent := get_cpu_usage rnd r, memory_usage_bytes := get_memory_usage,
            request_rate := calculate_request_rate rnd now m, error_rate_percent := calculate_error_rate rnd m\<rparr>\<rparr>
      in (update_health_status now m1)\<lparr>last_update := now\<rparr>)"

section \<open>Export\<close>

datatype Json = JNull | JString string | JInt nat | JFloat rat | JObject "(string \<times> Json) list"

fun json_f64 :: "f64 \<Rightarrow> Json" where
  "json_f64 (Finite x) = JFloat x"
| "json_f64 _ = JNull"

fun json_health :: "HealthStatus \<Rightarrow> Json" where
  "json_health Healthy = JString ''Healthy''"
| "json_health Degraded = JString ''Degraded''"
| "json_health Unhealthy = JString ''Unhealthy''"

definition json_u64 :: "u64 \<Rightarrow> Json" where
  "json_u64 n = JInt (unat n)"

definition get_status_summary :: "nat \<Rightarrow> MonitoringSystem \<Rightarrow> Json" where
  "get_status_summary now m =
     (let c = connections m; p = performance m in JObject
       [(''status'', json_health (hl_status (health m))),
        (''uptime_seconds'', JInt ((now - start_time m) div 10 ^ 9)),
        (''connections'', JObject
          [(''total'', json_u64 (total_connections c)), (''active'', json_u64 (active_connections c)),
           (''failed'', json_u64 (failed_connections c)), (''rate'', json_f64 (connection_rate c))]),
        (''performance'', JObject
          [(''cpu_percent'', json_f64 (cpu_utilization_percent p)),
           (''memory_mb'', json_u64 (memory_usage_bytes p div (1024 * 1024))),
           (''throughput_mbps'', json_f64 (network_throughput_mbps p)),
           (''request_rate'', json_f64 (request_rate p)),
           (''avg_response_time_ms'', json_u64 (avg_response_time_ms p)),
           (''error_rate_percent'', json_f64 (error_rate_percent p))]),
        (''errors'', JObject
          [(''total'', json_u64 (total_errors (errors m))),
           (''recent_count'', JInt (length (recent_errors (errors m))))])])"

definition prometheus_metric :: "string \<Rightarrow> string \<Rightarrow> string \<Rightarrow> string \<Rightarrow> string" where
  "prometheus_metric name help kind val =
     ''# HELP '' @ name @ '' '' @ help @ [CHR 0x0A] @ ''# TYPE '' @ name @ '' '' @ kind @ [CHR 0x0A]
     @ name @ '' '' @ val @ [CHR 0x0A]"

definition export_prometheus_metrics :: "(f64 \<Rightarrow> string) \<Rightarrow> MonitoringSystem \<Rightarrow> string" where
  "export_prometheus_metrics show_f64 m =
     (let c = connections m; p = performance m; show_u64 = (\<lambda>n :: u64. nat_to_string (unat n)) in
      prometheus_metric ''gsc_fq_connections_total'' ''Total number of connections'' ''counter'' (show_u64 (total_connections c))
      @ prometheus_metric ''gsc_fq_connections_active'' ''Current active connections'' ''gauge'' (show_u64 (active_connections c))
      @ prometheus_metric ''gsc_fq_bytes_transferred_total'' ''Total bytes transferred'' ''counter'' (show_u64 (total_bytes_transferred c))
      @ prometheus_metric ''gsc_fq_cpu_utilization_percent'' ''CPU utilization percentage'' ''gauge'' (show_f64 (cpu_utilization_percent p))
      @ prometheus_metric ''gsc_fq_memory_usage_bytes'' ''Memory usage in bytes'' ''gauge'' (show_u64 (memory_usage_bytes p))
      @ prometheus_metric ''gsc_fq_network_throughput_mbps'' ''Network throughput in MB/s'' ''gauge'' (show_f64 (network_throughput_mbps p))
      @ prometheus_metric ''gsc_fq_errors_total'' ''Total number of errors'' ''counter'' (show_u64 (total_errors (errors m))))"

section \<open>Histories\<close>

text \<open>What the users of the one shared instance do with it, one call at a time under its lock.\<close>

datatype MonitorEvent =
    Established nat
  | Closed u64
  | CouldNotConnect nat
  | Transferred nat u64 u64
  | Erred nat string string "string \<rightharpoonup> string"
  | Sampled nat rat

fun monitor_step :: "(rat \<Rightarrow> f64) \<Rightarrow> MonitorEvent \<Rightarrow> MonitoringSystem \<Rightarrow> MonitoringSystem" where
  "monitor_step rnd (Established now) = record_connection_established rnd now"
| "monitor_step rnd (Closed d) = record_connection_closed d"
| "monitor_step rnd (CouldNotConnect now) = record_connection_failed rnd now"
| "monitor_step rnd (Transferred now b p) = record_data_transfer rnd now b p"
| "monitor_step rnd (Erred now ty msg ctx) = monitor_record_error rnd now ty msg ctx"
| "monitor_step rnd (Sampled now r) = update_performance_metrics rnd now r"

abbreviation monitored :: "(rat \<Rightarrow> f64) \<Rightarrow> nat \<Rightarrow> MonitorEvent list \<Rightarrow> MonitoringSystem" where
  "monitored rnd start evs \<equiv> fold (monitor_step rnd) evs (MonitoringSystem_new start)"

lemmas monitor_defs =
  record_connection_established_def record_connection_closed_def record_connection_failed_def
  record_data_transfer_def monitor_record_error_def update_performance_metrics_def
  update_connection_rate_def update_network_throughput_def update_error_rate_def update_health_status_def Let_def

fun established :: "MonitorEvent list \<Rightarrow> nat" where
  "established [] = 0"
| "established (Established _ # evs) = Suc (established evs)"
| "established (_ # evs) = established evs"

fun closed_durations :: "MonitorEvent list \<Rightarrow> u64 list" where
  "closed_durations [] = []"
| "closed_durations (Closed d # evs) = d # closed_durations evs"
| "closed_durations (_ # evs) = closed_durations evs"

fun error_events :: "MonitorEvent list \<Rightarrow> ErrorEvent list" where
  "error_events [] = []"
| "error_events (Erred now ty msg ctx # evs) =
     \<lparr>ee_timestamp = now, ee_error_type = ty, ee_error_message = msg, ee_context = ctx\<rparr> # error_events evs"
| "error_events (_ # evs) = error_events evs"

fun transfers :: "MonitorEvent list \<Rightarrow> (u64 \<times> u64) list" where
  "transfers [] = []"
| "transfers (Transferred _ b p # evs) = (b, p) # transfers evs"
| "transfers (_ # evs) = transfers evs"

lemma established_append [simp]: "established (xs @ ys) = established xs + established ys"
  by (induction xs rule: established.induct) simp_all

lemma closed_durations_append [simp]: "closed_durations (xs @ ys) = closed_durations xs @ closed_durations ys"
  by (induction xs rule: closed_durations.induct) simp_all

lemma error_events_append [simp]: "error_events (xs @ ys) = error_events xs @ error_events ys"
  by (induction xs rule: error_events.induct) simp_all

lemma transfers_append [simp]: "transfers (xs @ ys) = transfers xs @ transfers ys"
  by (induction xs rule: transfers.induct) simp_all

lemma total_connections_step:
  "total_connections (connections (monitor_step rnd ev m)) = total_connections (connections m) + of_nat (established [ev])"
  by (cases ev) (auto simp: monitor_defs)

lemma transfers_step:
  "total_bytes_transferred (connections (monitor_step rnd ev m)) = total_bytes_transferred (connections m) + sum_list (map fst (transfers [ev]))"
  "total_packets_transferred (connections (monitor_step rnd ev m)) = total_packets_transferred (connections m) + sum_list (map snd (transfers [ev]))"
  by (cases ev; auto simp: monitor_defs)+

lemma active_step:
  "active_connections (connections (monitor_step rnd ev m)) =
     (let a = active_connections (connections m) + of_nat (established [ev])
      in if closed_durations [ev] = [] \<or> a = 0 then a else a - 1)"
  by (cases ev) (auto simp: monitor_defs word_neq_0_conv)

lemma total_connections_monitored: "total_connections (connections (monitored rnd start evs)) = of_nat (established evs)"
  by (induction evs rule: rev_induct) (simp_all add: total_connections_step MonitoringSystem_new_def)

lemma established_length: "established evs + length (closed_durations evs) \<le> length evs"
  by (induction evs rule: established.induct) auto



text \<open>
  The error log is exact for every history: the number of errors and the number of each
  type are counted, the log holds the last hundred errors in order, and the trend at most a hundred points.
\<close>

theorem monitor_error_log:
  "let m = errors (monitored rnd start evs); es = error_events evs in
     total_errors m = of_nat (length es)
     \<and> recent_errors m = drop (length es - 100) es
     \<and> (\<forall>ty. errors_by_type m ty =
           (let n = length (filter (\<lambda>e. ee_error_type e = ty) es) in if n = 0 then None else Some (of_nat n)))
     \<and> length (error_rate_trend m) \<le> 100"
proof -
  let ?m = "\<lambda>evs. errors (monitored rnd start evs)"
  have total: "total_errors (?m evs) = of_nat (length (error_events evs))"
  proof (induction evs rule: rev_induct)
    case (snoc ev evs)
    then show ?case by (cases ev) (auto simp: monitor_defs)
  qed (simp add: MonitoringSystem_new_def)
  have recent: "recent_errors (?m evs) = fold (push_capped 100) (error_events evs) []"
  proof (induction evs rule: rev_induct)
    case (snoc ev evs)
    then show ?case by (cases ev) (auto simp: monitor_defs)
  qed (simp add: MonitoringSystem_new_def)
  have by_type: "errors_by_type (?m evs) ty =
      (let n = length (filter (\<lambda>e. ee_error_type e = ty) (error_events evs)) in if n = 0 then None else Some (of_nat n))" for ty
  proof (induction evs rule: rev_induct)
    case (snoc ev evs)
    then show ?case by (cases ev) (auto simp: monitor_defs count_type_def)
  qed (simp add: MonitoringSystem_new_def)
  have trend: "length (error_rate_trend (?m evs)) \<le> 100"
  proof (induction evs rule: rev_induct)
    case (snoc ev evs)
    then show ?case by (cases ev) (auto simp: monitor_defs length_push_capped)
  qed (simp add: MonitoringSystem_new_def)
  show ?thesis using total recent by_type trend by (simp add: Let_def push_capped_fold)
qed

lemma average_step_bound:
  fixes avg d n :: u64
  assumes "unat avg \<le> D" "unat d \<le> D" "0 < n" "D * unat n < 2 ^ 64"
  shows "unat ((avg * (n - 1) + d) div n) \<le> D"
proof -
  have n: "0 < unat n" using assms(3) by (simp add: word_less_nat_alt)
  have n1: "unat (n - 1) = unat n - 1" using assms(3) by (intro unat_minus_one) auto
  have "unat avg * unat (n - 1) + unat d \<le> D * (unat n - 1) + D"
    unfolding n1 using assms(1,2) by (intro add_mono mult_right_mono) simp_all
  also have "\<dots> = D * unat n" using n by (cases "unat n") simp_all
  finally have le: "unat avg * unat (n - 1) + unat d \<le> D * unat n" .
  then have "unat avg * unat (n - 1) < 2 ^ 64" using assms(4) by linarith
  then have m: "unat (avg * (n - 1)) = unat avg * unat (n - 1)" by (intro unat_mult_lem [THEN iffD1]) simp
  have "unat (avg * (n - 1) + d) = unat avg * unat (n - 1) + unat d"
    using le assms(4) m by (simp add: unat_plus_if_size word_size)
  then have "unat ((avg * (n - 1) + d) div n) = (unat avg * unat (n - 1) + unat d) div unat n" by (simp add: unat_div)
  also have "\<dots> \<le> (D * unat n) div unat n" using le by (rule div_le_mono)
  also have "\<dots> = D" using n by simp
  finally show ?thesis .
qed

text \<open>
  The reported average duration never exceeds the longest duration reported, as long as that
  times the number of connections fits in 64 bits.
\<close>

theorem average_duration_bounded:
  assumes "\<And>d. d \<in> set (closed_durations evs) \<Longrightarrow> unat d \<le> D"
    and "D * established evs < 2 ^ 64" "length evs < 2 ^ 64"
  shows "unat (avg_connection_duration_ms (connections (monitored rnd start evs))) \<le> D"
  using assms
proof (induction evs rule: rev_induct)
  case (snoc ev evs)
  let ?m = "monitored rnd start evs"
  have "D * established evs \<le> D * established (evs @ [ev])" by (intro mult_left_mono) simp_all
  then have "D * established evs < 2 ^ 64" using snoc.prems(2) by (rule le_less_trans)
  then have ih: "unat (avg_connection_duration_ms (connections ?m)) \<le> D" using snoc.prems by (intro snoc.IH) auto
  have "established evs < 2 ^ 64" using established_length [of evs] snoc.prems(3) by simp
  then have tot: "unat (total_connections (connections ?m)) = established evs"
    by (simp add: total_connections_monitored unat_of_nat)
  show ?case
  proof (cases ev)
    case (Closed d)
    with snoc.prems tot have "unat d \<le> D" "D * unat (total_connections (connections ?m)) < 2 ^ 64" by simp_all
    with Closed ih average_step_bound [of "avg_connection_duration_ms (connections ?m)" D d "total_connections (connections ?m)"]
    show ?thesis by (auto simp: monitor_defs)
  qed (use ih in \<open>simp_all add: monitor_defs\<close>)
qed (simp add: MonitoringSystem_new_def)

theorem average_duration_bounded_witness:
  "unat (avg_connection_duration_ms (connections (monitored Finite 0 [Established 1, Established 2, Closed 30]))) \<le> 30"
  by (rule average_duration_bounded) simp_all

text \<open>
  It is not their average: the first connection to close after \<open>k\<close> were made counts with a \<open>k\<close>th of its duration.
\<close>

lemma first_close_is_divided:
  assumes "0 < k" "k < 2 ^ 64"
  shows "avg_connection_duration_ms (connections (monitored rnd start (replicate k (Established t) @ [Closed d]))) = d div of_nat k"
proof -
  have keep: "avg_connection_duration_ms (connections (fold (monitor_step rnd) (replicate k (Established t)) m))
      = avg_connection_duration_ms (connections m)" for k m
    by (induction k arbitrary: m) (simp_all add: record_connection_established_def update_connection_rate_def)
  then have z: "avg_connection_duration_ms (connections (monitored rnd start (replicate k (Established t)))) = 0" for k
    by (simp add: MonitoringSystem_new_def)
  have e: "established (replicate k (Established t)) = k" for k by (induction k) simp_all
  have "0 < (of_nat k :: u64)" using assms by (simp add: word_less_nat_alt unat_of_nat)
  then show ?thesis using z [of k] total_connections_monitored [of rnd "replicate k (Established t)" start] e [of k]
    by (simp add: record_connection_closed_def Let_def)
qed

text \<open>A higher load or a higher error rate never improves the status.\<close>

lemma health_of_mono:
  assumes "\<not> f64_less cpu' cpu" "cpu' \<noteq> NaN" "\<not> f64_less err' err" "err' \<noteq> NaN"
  shows "health_of cpu err \<le> health_of cpu' err'"
proof -
  have "f64_less x cpu \<Longrightarrow> f64_less x cpu'" "f64_less x err \<Longrightarrow> f64_less x err'" for x
    using assms f64_less_trans_not by blast+
  then show ?thesis by (auto simp: health_of_def less_eq_HealthStatus_def)
qed

text \<open>
  The CPU load never makes the system unhealthy: the sampled load stays at or below ninety
  per cent, so after an update the status is unhealthy exactly when more than ten errors per hundred connections were
  recorded.
\<close>

theorem unhealthy_only_by_errors:
  assumes "rounds rnd" "0 \<le> r" "r \<le> 1"
  shows "hl_status (health (update_performance_metrics rnd now r m)) = Unhealthy
    \<longleftrightarrow> f64_less (Finite 10) (calculate_error_rate rnd m)"
proof -
  from assms(2,3) have "0 \<le> r * 80 \<and> r * 80 \<le> r * 80 \<and> r * 80 \<le> 80" by simp
  then obtain y where y: "rnd (r * 80) = Finite y" "0 \<le> y" "y \<le> 80" by (rule rnd_step [OF assms(1)]) auto
  then have "0 \<le> y + 10 \<and> y + 10 \<le> y + 10 \<and> y + 10 \<le> 90" by simp
  then obtain z where "rnd (y + 10) = Finite z" "z \<le> 90" by (rule rnd_step [OF assms(1)]) auto
  with y show ?thesis
    by (simp add: update_performance_metrics_def update_health_status_def Let_def get_cpu_usage_def health_of_def)
qed

theorem unhealthy_only_by_errors_witness:
  "hl_status (health (update_performance_metrics Finite 5 1 (MonitoringSystem_new 0))) \<noteq> Unhealthy"
proof -
  have "rounds Finite" by (simp add: rounds_def)
  from unhealthy_only_by_errors [OF this, of 1 5 "MonitoringSystem_new 0"] show ?thesis
    by (simp add: calculate_error_rate_def MonitoringSystem_new_def)
qed

end
