(* ===== verification/Handler.thy ===== *)
theory Handler
  imports Copy_Loops Stealth_Conn
begin

text \<open>
  The plain connection handler with its pool, \<^verbatim>\<open>src/src/proxy/handler.rs\<close>, and the blackhole mode
  that goes with it, \<^verbatim>\<open>src/src/proxy/blackhole.rs\<close>.

  What the operating system answers is a record: whether a socket can be made, whether it can be
  bound to an address, and how connecting to an address ends within the ten seconds allowed.
  \<open>io_copy\<close> is the copy function of the library.
\<close>

section \<open>Connecting\<close>

record ConnectionHandler =
  ch_remote_addr :: SocketAddr
  ch_source_ip :: "IpAddr option"
  ch_max_connections :: "usize option"

definition ConnectionHandler_new :: "SocketAddr \<Rightarrow> IpAddr option \<Rightarrow> usize option \<Rightarrow> ConnectionHandler" where
  "ConnectionHandler_new remote source limit =
     \<lparr>ch_remote_addr = remote, ch_source_ip = source, ch_max_connections = limit\<rparr>"

datatype ConnectResult = Established | NotEstablished IoError | NoAnswer

record ConnectEnv =
  ce_socket :: "IoError option"
  ce_bind :: "SocketAddr \<Rightarrow> IoError option"
  ce_connect :: "SocketAddr \<Rightarrow> ConnectResult"

definition connection_failed :: "string \<Rightarrow> AppError" where
  "connection_failed msg = Network (ConnectionFailed msg)"

definition remote_failed :: "SocketAddr \<Rightarrow> IoError \<Rightarrow> AppError" where
  "remote_failed remote e =
     connection_failed (''Failed to connect to remote '' @ show_sockaddr remote @ '': '' @ io_text e)"

definition connect_timed :: "ConnectEnv \<Rightarrow> SocketAddr \<Rightarrow> AppError + unit" where
  "connect_timed env remote =
     (case ce_connect env remote of
        Established \<Rightarrow> Ok ()
      | NotEstablished e \<Rightarrow> Err (remote_failed remote e)
      | NoAnswer \<Rightarrow> Err (Network ConnectionTimeout))"

text \<open>
  The test of the stealth handler, within half a second, in \<^verbatim>\<open>src/src/proxy/stealth_handler.rs\<close>. It connects and sends nothing.
\<close>

definition test_remote_connection :: "ConnectEnv \<Rightarrow> SocketAddr \<Rightarrow> ProxyError + unit" where
  "test_remote_connection env remote =
     (case ce_connect env remote of
        NoAnswer \<Rightarrow> Err (ForwardingFailed ''Connection timeout'')
      | NotEstablished e \<Rightarrow> Err (ForwardingFailed (''Connection failed: '' @ io_text e))
      | Established \<Rightarrow> Ok ())"

definition new_socket :: "ConnectEnv \<Rightarrow> IpAddr \<Rightarrow> SocketAddr \<Rightarrow> AppError + unit" where
  "new_socket env src_ip remote =
     (let or_fail = (\<lambda>what. case ce_socket env of
            None \<Rightarrow> Ok () | Some e \<Rightarrow> Err (connection_failed (''Failed to create '' @ what @ '' socket: '' @ io_text e)))
      in (case (src_ip, remote) of
            (V4 _, SockV4 _ _) \<Rightarrow> or_fail ''IPv4''
          | (V6 _, SockV6 _ _ _) \<Rightarrow> or_fail ''IPv6''
          | _ \<Rightarrow> Err (connection_failed ''Source IP family does not match remote address family'')))"

text \<open>A connection is represented by the local address it was bound to, if it was bound.\<close>

definition connect_with_source_ip :: "ConnectEnv \<Rightarrow> ConnectionHandler \<Rightarrow> IpAddr \<Rightarrow> AppError + SocketAddr" where
  "connect_with_source_ip env h src_ip =
     (let local_addr = SocketAddr_new src_ip 0 in
      and_then (new_socket env src_ip (ch_remote_addr h)) (\<lambda>_.
        (case ce_bind env local_addr of
           Some e \<Rightarrow> Err (connection_failed
                       (''Failed to bind to source IP '' @ show_ip src_ip @ '': '' @ io_text e))
         | None \<Rightarrow> and_then (connect_timed env (ch_remote_addr h)) (\<lambda>_. Ok local_addr))))"

definition handler_connect :: "ConnectEnv \<Rightarrow> ConnectionHandler \<Rightarrow> AppError + SocketAddr option" where
  "handler_connect env h =
     (case ch_source_ip h of
        Some src_ip \<Rightarrow> and_then (connect_with_source_ip env h src_ip) (\<lambda>a. Ok (Some a))
      | None \<Rightarrow> and_then (connect_timed env (ch_remote_addr h)) (\<lambda>_. Ok None))"

section \<open>Forwarding\<close>

definition set_nodelay :: "string \<Rightarrow> IoError option \<Rightarrow> AppError + unit" where
  "set_nodelay who r =
     (case r of
        None \<Rightarrow> Ok ()
      | Some e \<Rightarrow> Err (Proxy (ForwardingFailed (''Failed to set '' @ who @ '' nodelay: '' @ io_text e))))"

definition forward_data ::
  "(Arrival list \<Rightarrow> Sink \<Rightarrow> (IoError + nat) \<times> Arrival list \<times> Sink) \<Rightarrow> IoError option \<Rightarrow> IoError option
   \<Rightarrow> Arrival list \<Rightarrow> Sink \<Rightarrow> Arrival list \<Rightarrow> Sink \<Rightarrow> (AppError + unit) \<times> Sink \<times> Sink" where
  "forward_data io_copy nc nr client_in remote_out remote_in client_out =
     (case and_then (set_nodelay ''client'' nc) (\<lambda>_. set_nodelay ''remote'' nr) of
        Inl e \<Rightarrow> (Err e, remote_out, client_out)
      | Inr _ \<Rightarrow>
          (case high_perf_adaptive_copy io_copy client_in remote_out remote_in client_out of
             (Inl e, ro, co) \<Rightarrow> (Err e, ro, co)
           | (Inr _, ro, co) \<Rightarrow> (Ok (), ro, co)))"

definition handler_handle_connection ::
  "(Arrival list \<Rightarrow> Sink \<Rightarrow> (IoError + nat) \<times> Arrival list \<times> Sink) \<Rightarrow> ConnectEnv \<Rightarrow> IoError option \<Rightarrow> IoError option
   \<Rightarrow> ConnectionHandler \<Rightarrow> IoError + SocketAddr \<Rightarrow> Arrival list \<Rightarrow> Sink \<Rightarrow> Arrival list \<Rightarrow> Sink
   \<Rightarrow> (AppError + unit) \<times> Sink \<times> Sink" where
  "handler_handle_connection io_copy env nc nr h peer client_in remote_out remote_in client_out =
     (case peer of
        Inl e \<Rightarrow> (Err (connection_failed (''Failed to get client address: '' @ io_text e)), remote_out, client_out)
      | Inr _ \<Rightarrow>
          (case handler_connect env h of
             Inl e \<Rightarrow> (Err e, remote_out, client_out)
           | Inr _ \<Rightarrow> forward_data io_copy nc nr client_in remote_out remote_in client_out))"

text \<open>
  The two directions of the unused standard copy run for at most thirty seconds; \<open>in_time\<close> says
  whether both were done by then. It reports success in every case.
\<close>

definition optimized_standard_copy ::
  "(Arrival list \<Rightarrow> Sink \<Rightarrow> (IoError + nat) \<times> Arrival list \<times> Sink) \<Rightarrow> bool
   \<Rightarrow> Arrival list \<Rightarrow> Sink \<Rightarrow> Arrival list \<Rightarrow> Sink \<Rightarrow> (AppError + unit) \<times> (Sink \<times> Sink) option" where
  "optimized_standard_copy io_copy in_time client_in remote_out remote_in client_out =
     (let (_, ro, co) = both_ways io_copy client_in remote_out remote_in client_out
      in (Ok (), if in_time then Some (ro, co) else None))"

section \<open>Statistics\<close>

definition usize_max :: usize where "usize_max = - 1"

record ConnectionStats =
  cs_remote_addr :: SocketAddr
  cs_source_ip :: "IpAddr option"
  cs_max_connections :: usize
  cs_active_connections :: usize
  cs_available_slots :: usize

definition get_connection_stats :: "ConnectionHandler \<Rightarrow> ConnectionStats" where
  "get_connection_stats h =
     (let m = (case ch_max_connections h of None \<Rightarrow> usize_max | Some m \<Rightarrow> m)
      in \<lparr>cs_remote_addr = ch_remote_addr h, cs_source_ip = ch_source_ip h, cs_max_connections = m,
          cs_active_connections = 0, cs_available_slots = m - 0\<rparr>)"

definition show_connection_stats :: "ConnectionStats \<Rightarrow> string" where
  "show_connection_stats st =
     ''Connection Stats for '' @ show_sockaddr (cs_remote_addr st) @ '':'' @ [CHR 0x0A]
     @ ''- Source IP: '' @ (case cs_source_ip st of None \<Rightarrow> ''None'' | Some ip \<Rightarrow> ''Some('' @ show_ip ip @ '')'') @ [CHR 0x0A]
     @ ''- Max Connections: '' @ nat_to_string (unat (cs_max_connections st)) @ [CHR 0x0A]
     @ ''- Active Connections: '' @ nat_to_string (unat (cs_active_connections st)) @ [CHR 0x0A]
     @ ''- Available Slots: '' @ nat_to_string (unat (cs_available_slots st))"

record HandlerPool =
  handlers :: "ConnectionHandler list"

definition HandlerPool_new :: HandlerPool where
  "HandlerPool_new = \<lparr>handlers = []\<rparr>"

definition add_handler :: "ConnectionHandler \<Rightarrow> HandlerPool \<Rightarrow> HandlerPool" where
  "add_handler h p = p\<lparr>handlers := handlers p @ [h]\<rparr>"

definition get_handler :: "nat \<Rightarrow> HandlerPool \<Rightarrow> ConnectionHandler option" where
  "get_handler i p = (if i < length (handlers p) then Some (handlers p ! i) else None)"

record PoolStats =
  total_handlers :: nat
  total_max_connections :: usize
  total_active_connections :: usize
  total_available_slots :: usize

fun reduce :: "('a \<Rightarrow> 'a \<Rightarrow> 'a) \<Rightarrow> 'a list \<Rightarrow> 'a option" where
  "reduce f [] = None"
| "reduce f (x # xs) = Some (foldl f x xs)"

definition get_pool_stats :: "HandlerPool \<Rightarrow> PoolStats" where
  "get_pool_stats p =
     (let m = (case reduce saturating_add (map (\<lambda>h. cs_max_connections (get_connection_stats h)) (handlers p)) of
                 None \<Rightarrow> usize_max | Some m \<Rightarrow> m)
      in \<lparr>total_handlers = length (handlers p), total_max_connections = m,
          total_active_connections = 0, total_available_slots = m\<rparr>)"

definition show_pool_stats :: "PoolStats \<Rightarrow> string" where
  "show_pool_stats st =
     ''Connection Pool Stats:'' @ [CHR 0x0A]
     @ ''- Total Handlers: '' @ nat_to_string (total_handlers st) @ [CHR 0x0A]
     @ ''- Total Max Connections: '' @ nat_to_string (unat (total_max_connections st)) @ [CHR 0x0A]
     @ ''- Total Active Connections: '' @ nat_to_string (unat (total_active_connections st)) @ [CHR 0x0A]
     @ ''- Total Available Slots: '' @ nat_to_string (unat (total_available_slots st))"

section \<open>Blackhole mode\<close>

definition is_connection_reset :: "IoError \<Rightarrow> bool" where
  "is_connection_reset e = (io_kind e \<in> {ConnectionResetKind, ConnectionRefused, ConnectionAborted})"

text \<open>
  What reads on the client's stream meet, each with the time since the start. The loop ends with
  the client, with an error it does not ignore, or at the deadline; it returns the number of bytes
  discarded and the time it ended.
\<close>

fun discard_until :: "(IoError \<Rightarrow> bool) \<Rightarrow> nat \<Rightarrow> (nat \<times> ReadEvent) list \<Rightarrow> nat \<times> nat" where
  "discard_until ignored deadline [] = (0, deadline)"
| "discard_until ignored deadline ((t, ev) # evs) =
     (if t < deadline then
        (case ev of
           ReadBytes n \<Rightarrow> if n = 0 then (0, t) else apfst ((+) n) (discard_until ignored deadline evs)
         | ReadFailed e \<Rightarrow> if ignored e then discard_until ignored deadline evs else (0, t))
      else (0, deadline))"

definition blackhole_discard :: "u64 \<Rightarrow> (nat \<times> ReadEvent) list \<Rightarrow> (nat \<times> nat \<times> (ProxyError + unit)) option" where
  "blackhole_discard seed evs =
     (case pseudo_random_range seed 120 1800 of
        None \<Rightarrow> None
      | Some delay_seconds \<Rightarrow>
          (let (n, t) = discard_until (\<lambda>e. io_kind e = WouldBlock) (unat delay_seconds * one_second) evs
           in Some (n, t, Ok ())))"

definition enter_blackhole_mode_enhanced ::
  "u64 \<Rightarrow> (nat \<times> ReadEvent) list \<Rightarrow> (nat \<times> nat \<times> (ProxyError + unit)) option" where
  "enter_blackhole_mode_enhanced seed evs =
     (case pseudo_random_range seed 120 1800 of
        None \<Rightarrow> None
      | Some delay_seconds \<Rightarrow>
          (let (n, t) = discard_until (\<lambda>e. False) (unat delay_seconds * one_second) evs
           in Some (n, t, Ok ())))"

section \<open>Properties\<close>

fun same_family :: "IpAddr \<Rightarrow> SocketAddr \<Rightarrow> bool" where
  "same_family (V4 _) (SockV4 _ _) = True"
| "same_family (V6 _) (SockV6 _ _ _) = True"
| "same_family _ _ = False"

lemma new_socket_Ok: "is_ok (new_socket env ip remote) \<longleftrightarrow> same_family ip remote \<and> ce_socket env = None"
  by (cases ip; cases remote) (auto simp: new_socket_def Let_def split: option.splits)

text \<open>A remote that does not answer in time is taken for one that refuses.\<close>

lemma timeout_is_rejection:
  "ce_connect env remote = NoAnswer \<Longrightarrow> \<exists>e. test_remote_connection env remote = Err e \<and> is_rejection e"
  by (simp add: test_remote_connection_def is_rejection_def)

lemma connect_timed_Ok: "is_ok (connect_timed env remote) \<longleftrightarrow> ce_connect env remote = Established"
  by (auto simp: connect_timed_def split: ConnectResult.splits)

text \<open>
  A connection of the plain handler goes out from the configured source address, at a port
  the system chooses, or from any address when none is configured; it is made exactly when the
  remote answers in time and, with a source address, when its family is that of the remote and a socket can be
  made and bound there.
\<close>

theorem handler_connect_uses_source:
  "handler_connect env h = Ok local \<longleftrightarrow>
     ce_connect env (ch_remote_addr h) = Established
     \<and> local = map_option (\<lambda>ip. SocketAddr_new ip 0) (ch_source_ip h)
     \<and> (case ch_source_ip h of None \<Rightarrow> True
        | Some ip \<Rightarrow> same_family ip (ch_remote_addr h) \<and> ce_socket env = None
            \<and> ce_bind env (SocketAddr_new ip 0) = None)"
proof (cases "ch_source_ip h")
  case None
  then show ?thesis using connect_timed_Ok [of env "ch_remote_addr h"]
    by (cases "connect_timed env (ch_remote_addr h)") (auto simp: handler_connect_def)
next
  case (Some ip)
  then show ?thesis
    using connect_timed_Ok [of env "ch_remote_addr h"] new_socket_Ok [of env ip "ch_remote_addr h"]
    by (cases "connect_timed env (ch_remote_addr h)"; cases "new_socket env ip (ch_remote_addr h)")
      (auto simp: handler_connect_def connect_with_source_ip_def Let_def split: option.splits)
qed

text \<open>
  Once the handler is connected and the socket options are set it reports success whatever
  happens while forwarding: what reaches each side is a beginning of what the other has
  sent, and all of it when no stream fails.
\<close>

theorem handler_forwards_and_reports_success:
  assumes io_copy: "flushing_copier io_copy"
    and connected: "is_ok (handler_connect env h)"
    and run: "handler_handle_connection io_copy env None None h (Inr peer) ci ro ri co = (r, ro', co')"
  shows "r = Ok ()
    \<and> (\<exists>up. sk_data ro' = sk_data ro @ up \<and> prefix up (payload ci))
    \<and> (\<exists>down. sk_data co' = sk_data co @ down \<and> prefix down (payload ri))
    \<and> (clean ci \<and> clean ri \<and> sk_healthy ro \<and> sk_healthy co \<longrightarrow>
         sk_data ro' = sk_data ro @ payload ci \<and> sk_data co' = sk_data co @ payload ri)"
proof -
  have c: "copier io_copy" using io_copy by (rule flushing_copier.axioms)
  from connected obtain l where "handler_connect env h = Inr l" by (cases "handler_connect env h") auto
  moreover obtain n a b where ab: "both_ways io_copy ci ro ri co = (n, a, b)" by (metis prod_cases3)
  ultimately have r: "r = Ok ()" and bw: "both_ways io_copy ci ro ri co = (n, ro', co')"
    using run by (auto simp: handler_handle_connection_def forward_data_def set_nodelay_def
        high_perf_adaptive_copy_def optimized_bidirectional_def)
  obtain r1 x1 r2 x2 where parts: "io_copy ci ro = (r1, x1, ro')" "io_copy ri co = (r2, x2, co')"
    using both_ways_parts [OF bw] by blast
  show ?thesis
    using r copier.copy_prefix [OF c parts(1)] copier.copy_prefix [OF c parts(2)]
      copier.both_ways_delivers [OF c, of ci ro ri co] bw by auto
qed

theorem handler_forwards_and_reports_success_witness:
  "\<exists>ro' co'. handler_handle_connection sample_io_copy
       \<lparr>ce_socket = None, ce_bind = \<lambda>_. None, ce_connect = \<lambda>_. Established\<rparr> None None
       (ConnectionHandler_new (SockV4 1 80) (Some (V4 2)) None) (Inr (SockV4 3 9999)) [Data [1, 2]] fresh_sink [Data [7]] fresh_sink
       = (Ok (), ro', co') \<and> sk_data ro' = [1, 2] \<and> sk_data co' = [7]"
proof -
  let ?env = "\<lparr>ce_socket = None, ce_bind = \<lambda>_. None, ce_connect = \<lambda>_. Established\<rparr>"
  let ?h = "ConnectionHandler_new (SockV4 1 80) (Some (V4 2)) None"
  have "is_ok (handler_connect ?env ?h)"
    by (simp add: handler_connect_def connect_with_source_ip_def new_socket_def connect_timed_def ConnectionHandler_new_def)
  moreover obtain r ro' co' where run: "handler_handle_connection sample_io_copy ?env None None ?h (Inr (SockV4 3 9999))
      [Data [1, 2]] fresh_sink [Data [7]] fresh_sink = (r, ro', co')" by (metis prod_cases3)
  ultimately show ?thesis
    using handler_forwards_and_reports_success [OF sample_io_copy_copier _ run] run by simp
qed

lemma unat_usize_max: "unat usize_max = 2 ^ 64 - 1"
  using unat_minus_one [of "0 :: usize"] by (simp add: usize_max_def unsigned_minus_1_eq_mask mask_eq_exp_minus_1)

lemma usize_le_max: "unat (a :: usize) \<le> 2 ^ 64 - 1"
proof -
  have "unat a < 2 ^ 64" by simp
  then show ?thesis by linarith
qed

lemma saturating_add_unat: "unat (saturating_add a b :: usize) = min (unat a + unat b) (2 ^ 64 - 1)"
proof (cases "unat a + unat b < 2 ^ 64")
  case False
  then show ?thesis using unat_usize_max by (simp add: saturating_add_def usize_max_def)
qed (simp add: saturating_add_def unat_plus_if_size word_size)

lemma foldl_saturating_add: "unat (foldl saturating_add (a :: usize) xs) = min (unat a + sum_list (map unat xs)) (2 ^ 64 - 1)"
proof (induction xs arbitrary: a)
  case Nil
  show ?case using usize_le_max [of a] by simp
qed (simp add: saturating_add_unat min_def)

abbreviation capacity :: "ConnectionHandler \<Rightarrow> usize" where
  "capacity h \<equiv> cs_max_connections (get_connection_stats h)"

lemma capacity_simps:
  "ch_max_connections h = None \<Longrightarrow> unat (capacity h) = 2 ^ 64 - 1"
  "ch_max_connections h = Some m \<Longrightarrow> capacity h = m"
  by (simp_all add: get_connection_stats_def Let_def unat_usize_max)

lemma pool_capacity:
  "handlers p \<noteq> [] \<Longrightarrow>
   unat (total_max_connections (get_pool_stats p)) = min (\<Sum>h \<leftarrow> handlers p. unat (capacity h)) (2 ^ 64 - 1)"
  by (cases "handlers p") (simp_all add: get_pool_stats_def Let_def foldl_saturating_add comp_def)

text \<open>
  The capacity a pool reports is the sum of the capacities of its handlers, held at the
  largest number of the type instead of wrapping; an empty pool and a pool with an unlimited
  handler report that number.
\<close>

theorem pool_capacity_saturates:
  "unat (total_max_connections (get_pool_stats p)) =
     (if handlers p = [] \<or> None \<in> ch_max_connections ` set (handlers p) then 2 ^ 64 - 1
      else min (\<Sum>h \<leftarrow> handlers p. unat (the (ch_max_connections h))) (2 ^ 64 - 1))"
proof (cases "handlers p = []")
  case True
  then show ?thesis by (simp add: get_pool_stats_def unat_usize_max)
next
  case ne: False
  show ?thesis
  proof (cases "None \<in> ch_max_connections ` set (handlers p)")
    case True
    then obtain h where h: "h \<in> set (handlers p)" "ch_max_connections h = None" by auto
    have "unat (capacity h) \<le> (\<Sum>h \<leftarrow> handlers p. unat (capacity h))"
      using h(1) by (intro member_le_sum_list) auto
    then have "2 ^ 64 - 1 \<le> (\<Sum>h \<leftarrow> handlers p. unat (capacity h))"
      unfolding capacity_simps(1) [OF h(2)] .
    then show ?thesis unfolding pool_capacity [OF ne] using True by simp
  next
    case False
    have "unat (capacity h) = unat (the (ch_max_connections h))" if "h \<in> set (handlers p)" for h
      using False that by (cases "ch_max_connections h") (auto simp: capacity_simps, metis image_eqI)
    then have sums: "(\<Sum>h \<leftarrow> handlers p. unat (capacity h)) = (\<Sum>h \<leftarrow> handlers p. unat (the (ch_max_connections h)))"
      by (intro arg_cong [of _ _ sum_list] map_cong) simp_all
    show ?thesis unfolding pool_capacity [OF ne] sums using ne False by simp
  qed
qed

fun keeps_open :: "(IoError \<Rightarrow> bool) \<Rightarrow> ReadEvent \<Rightarrow> bool" where
  "keeps_open ignored (ReadBytes n) = (n \<noteq> 0)"
| "keeps_open ignored (ReadFailed e) = ignored e"

fun event_bytes :: "ReadEvent \<Rightarrow> nat" where
  "event_bytes (ReadBytes n) = n"
| "event_bytes (ReadFailed e) = 0"

definition events_before :: "nat \<Rightarrow> (nat \<times> ReadEvent) list \<Rightarrow> ReadEvent list" where
  "events_before deadline evs = map snd (takeWhile (\<lambda>(t, ev). t < deadline) evs)"

lemma discard_until_ends: "snd (discard_until ignored deadline evs) \<le> deadline"
  by (induction ignored deadline evs rule: discard_until.induct) (auto split: ReadEvent.splits)

lemma discard_until_keeps:
  "list_all (keeps_open ignored) (events_before deadline evs) \<Longrightarrow>
   discard_until ignored deadline evs = (sum_list (map event_bytes (events_before deadline evs)), deadline)"
  by (induction ignored deadline evs rule: discard_until.induct)
    (auto simp: events_before_def split: ReadEvent.splits)

text \<open>How a loop that discards \<open>evs\<close> for at most \<open>d\<close> seconds may end after \<open>n\<close> bytes at the time \<open>t\<close>.\<close>

definition client_held :: "(IoError \<Rightarrow> bool) \<Rightarrow> nat \<Rightarrow> (nat \<times> ReadEvent) list \<Rightarrow> nat \<Rightarrow> nat \<Rightarrow> bool" where
  "client_held ignored d evs n t =
     (t \<le> d * one_second
      \<and> (list_all (keeps_open ignored) (events_before (d * one_second) evs) \<longrightarrow>
           t = d * one_second \<and> n = sum_list (map event_bytes (events_before (d * one_second) evs))))"

lemma discard_until_holds:
  "discard_until ignored (d * one_second) evs = (n, t) \<Longrightarrow> client_held ignored d evs n t"
  using discard_until_ends [of ignored "d * one_second" evs] discard_until_keeps [of ignored "d * one_second" evs]
  by (auto simp: client_held_def)

text \<open>
  The blackhole modes of the plain handler hold a client for a time between two and thirty minutes and report
  success: they never outlast the chosen time, and a client that keeps its connection open is
  held for exactly that time while everything it sends is discarded. The two modes differ only in
  that the enhanced one gives up on a read that would block.
\<close>

theorem blackhole_holds_client:
  "\<exists>d n t n' t'. 120 \<le> d \<and> d \<le> 1800
     \<and> blackhole_discard seed evs = Some (n, t, Ok ()) \<and> client_held (\<lambda>e. io_kind e = WouldBlock) d evs n t
     \<and> enter_blackhole_mode_enhanced seed evs = Some (n', t', Ok ()) \<and> client_held (\<lambda>e. False) d evs n' t'"
proof -
  have "(120 :: u64) \<le> 1800" "(1800 :: u64) - 120 + 1 \<noteq> 0" by simp_all
  from pseudo_random_range_bounds [OF this, of seed] obtain d where
    d: "pseudo_random_range seed 120 1800 = Some d" "120 \<le> d" "d \<le> 1800" by blast
  obtain n t n' t' where l: "discard_until (\<lambda>e. io_kind e = WouldBlock) (unat d * one_second) evs = (n, t)"
    "discard_until (\<lambda>e. False) (unat d * one_second) evs = (n', t')" by fastforce
  have "120 \<le> unat d" "unat d \<le> 1800" using d(2,3) by (simp_all add: word_le_nat_alt)
  moreover have "blackhole_discard seed evs = Some (n, t, Ok ())" "enter_blackhole_mode_enhanced seed evs = Some (n', t', Ok ())"
    using d(1) l by (simp_all add: blackhole_discard_def enter_blackhole_mode_enhanced_def)
  ultimately show ?thesis using l [THEN discard_until_holds] by blast
qed

end
