(* ===== verification/Enhanced.thy ===== *)
theory Enhanced
  imports Resilient Handler
begin

text \<open>
  The enhanced connection handler with its pool, \<^verbatim>\<open>src/src/proxy/enhanced_handler.rs\<close>, which puts the
  resilient manager and the adaptive forwarder together, and the forwarder with two copies of
  \<^verbatim>\<open>src/src/proxy/handler_copy.rs\<close>. Neither file is part of the crate.

  What happens to a client's connection is a record: its address, how the attempts to connect and
  to reconnect end, the identifier and the instants drawn, the results of setting the socket
  options, the sizes of the buffers its two directions start with, and how its task is joined
  (\<open>None\<close> when it ran to its end). What the forwarder measures meanwhile is the step relation of the
  theory \<open>Resilient\<close>.
\<close>

section \<open>The handler\<close>

record EnhancedConnectionHandler =
  eh_remote_addr :: SocketAddr
  eh_source_ip :: "IpAddr option"
  eh_max_connections :: "usize option"
  resilient_manager :: ResilientConnectionManager
  adaptive_forwarder :: AdaptiveForwarder
  resilient_mode :: bool

definition enhanced_reconnect_config :: ReconnectConfig where
  "enhanced_reconnect_config =
     \<lparr>max_retries = 8, initial_delay = millis 50, max_delay = secs 15, backoff_factor = Finite (3 / 2),
      connect_timeout = secs 15\<rparr>"

definition EnhancedConnectionHandler_new ::
  "nat \<Rightarrow> SocketAddr \<Rightarrow> IpAddr option \<Rightarrow> usize option \<Rightarrow> EnhancedConnectionHandler" where
  "EnhancedConnectionHandler_new now remote source limit =
     \<lparr>eh_remote_addr = remote, eh_source_ip = source, eh_max_connections = limit,
      resilient_manager = with_config now enhanced_reconnect_config,
      adaptive_forwarder = AdaptiveForwarder_new now,
      resilient_mode = True\<rparr>"

definition with_resilient_mode :: "bool \<Rightarrow> EnhancedConnectionHandler \<Rightarrow> EnhancedConnectionHandler" where
  "with_resilient_mode enabled h = h\<lparr>resilient_mode := enabled\<rparr>"

record ClientConn =
  cc_peer :: "IoError + SocketAddr"
  cc_attempts :: "nat \<Rightarrow> Attempt"
  cc_recovery :: "nat \<Rightarrow> Attempt"
  cc_id :: nat
  cc_now :: nat
  cc_later :: nat
  cc_client_nodelay :: "IoError option"
  cc_remote_nodelay :: "IoError option"
  cc_buffers :: "nat \<times> nat"
  cc_joined :: "string option"
  cc_client_in :: "Arrival list"
  cc_client_out :: Sink
  cc_remote_in :: "Arrival list"
  cc_remote_out :: Sink

text \<open>
  The result, what the client and the remote were sent (unless the task was cut short), and the
  handler. The connection a recovery makes is dropped, with the data it returns. A task that was
  cut short has not recovered anything.
\<close>

definition forward_session ::
  "(f64 \<Rightarrow> nat \<Rightarrow> nat) \<Rightarrow> ClientConn \<Rightarrow> nat \<Rightarrow> ResilientConnectionManager
   \<Rightarrow> (Sink \<times> Sink) \<times> ResilientConnectionManager" where
  "forward_session mul_trunc c sid m =
     (case forward_adaptive (cc_client_nodelay c) (cc_remote_nodelay c) (fst (cc_buffers c)) (snd (cc_buffers c))
             (cc_client_in c) (cc_client_out c) (cc_remote_in c) (cc_remote_out c) of
        (Inr _, co, ro) \<Rightarrow> ((co, ro), m)
      | (Inl _, co, ro) \<Rightarrow> ((co, ro), snd (recover_connection mul_trunc (cc_recovery c) (cc_later c) sid m)))"

definition handle_resilient_connection ::
  "(f64 \<Rightarrow> nat \<Rightarrow> nat) \<Rightarrow> ClientConn \<Rightarrow> string \<Rightarrow> EnhancedConnectionHandler
   \<Rightarrow> (AppError + unit) \<times> (Sink \<times> Sink) option \<times> EnhancedConnectionHandler" where
  "handle_resilient_connection mul_trunc c client_addr h =
     (case create_resilient_connection mul_trunc (cc_attempts c) (cc_id c) (cc_now c) client_addr
             (show_sockaddr (eh_remote_addr h)) (resilient_manager h) of
        (Inl e, m) \<Rightarrow> (Err e, Some (cc_client_out c, cc_remote_out c), h\<lparr>resilient_manager := m\<rparr>)
      | (Inr (sid, _), m) \<Rightarrow>
          (let (sinks, m') = forward_session mul_trunc c sid m in
           case cc_joined c of
             None \<Rightarrow> (Ok (), Some sinks, h\<lparr>resilient_manager := m'\<rparr>)
           | Some e \<Rightarrow> (Err (Proxy (ForwardingFailed (''Task join error: '' @ e))), None,
                        h\<lparr>resilient_manager := m\<rparr>)))"

definition enhanced_handle_connection ::
  "(f64 \<Rightarrow> nat \<Rightarrow> nat) \<Rightarrow> ClientConn \<Rightarrow> EnhancedConnectionHandler
   \<Rightarrow> (AppError + unit) \<times> (Sink \<times> Sink) option \<times> EnhancedConnectionHandler" where
  "enhanced_handle_connection mul_trunc c h =
     (case cc_peer c of
        Inl e \<Rightarrow> (Err (connection_failed (''Failed to get client address: '' @ io_text e)),
                  Some (cc_client_out c, cc_remote_out c), h)
      | Inr client_addr \<Rightarrow> handle_resilient_connection mul_trunc c (show_sockaddr client_addr) h)"

text \<open>The standard way, which nothing calls: one attempt, from the source address if there is one.\<close>

definition enhanced_connect_with_source_ip ::
  "ConnectEnv \<Rightarrow> EnhancedConnectionHandler \<Rightarrow> IpAddr \<Rightarrow> AppError + SocketAddr" where
  "enhanced_connect_with_source_ip env h src_ip =
     (let local_addr = SocketAddr_new src_ip 0 in
      and_then (new_socket env src_ip (eh_remote_addr h)) (\<lambda>_.
        (case ce_bind env local_addr of
           Some e \<Rightarrow> Err (connection_failed
                       (''Failed to bind to source IP '' @ show_ip src_ip @ '': '' @ io_text e))
         | None \<Rightarrow> and_then (connect_timed env (eh_remote_addr h)) (\<lambda>_. Ok local_addr))))"

definition handle_standard_connection ::
  "ConnectEnv \<Rightarrow> ClientConn \<Rightarrow> EnhancedConnectionHandler \<Rightarrow> (AppError + unit) \<times> Sink \<times> Sink" where
  "handle_standard_connection env c h =
     (case (case eh_source_ip h of
              Some src_ip \<Rightarrow> and_then (enhanced_connect_with_source_ip env h src_ip) (\<lambda>_. Ok ())
            | None \<Rightarrow> connect_timed env (eh_remote_addr h)) of
        Inl e \<Rightarrow> (Err e, cc_client_out c, cc_remote_out c)
      | Inr _ \<Rightarrow>
          (case forward_adaptive (cc_client_nodelay c) (cc_remote_nodelay c)
                  (fst (cc_buffers c)) (snd (cc_buffers c))
                  (cc_client_in c) (cc_client_out c) (cc_remote_in c) (cc_remote_out c) of
             (Inl e, co, ro) \<Rightarrow> (Err e, co, ro)
           | (Inr _, co, ro) \<Rightarrow> (Ok (), co, ro)))"

section \<open>Statistics\<close>

record EnhancedConnectionStats =
  ecs_remote_addr :: SocketAddr
  ecs_source_ip :: "IpAddr option"
  ecs_max_connections :: usize
  ecs_active_connections :: usize
  ecs_available_slots :: usize
  ecs_resilient_mode :: bool
  ecs_quality_stats :: QualityStats

definition enhanced_connection_stats :: "nat \<Rightarrow> EnhancedConnectionHandler \<Rightarrow> EnhancedConnectionStats" where
  "enhanced_connection_stats now h =
     (let m = (case eh_max_connections h of None \<Rightarrow> usize_max | Some m \<Rightarrow> m)
      in \<lparr>ecs_remote_addr = eh_remote_addr h, ecs_source_ip = eh_source_ip h, ecs_max_connections = m,
          ecs_active_connections = 0, ecs_available_slots = m, ecs_resilient_mode = resilient_mode h,
          ecs_quality_stats = get_quality_stats now (resilient_manager h)\<rparr>)"

definition show_bool :: "bool \<Rightarrow> string" where
  "show_bool b = (if b then ''true'' else ''false'')"

definition show_enhanced_stats :: "EnhancedConnectionStats \<Rightarrow> string" where
  "show_enhanced_stats st =
     ''Enhanced Connection Stats for '' @ show_sockaddr (ecs_remote_addr st) @ '':'' @ [CHR 0x0A]
     @ ''- Source IP: '' @ (case ecs_source_ip st of None \<Rightarrow> ''None'' | Some ip \<Rightarrow> ''Some('' @ show_ip ip @ '')'') @ [CHR 0x0A]
     @ ''- Max Connections: '' @ nat_to_string (unat (ecs_max_connections st)) @ [CHR 0x0A]
     @ ''- Active Connections: '' @ nat_to_string (unat (ecs_active_connections st)) @ [CHR 0x0A]
     @ ''- Available Slots: '' @ nat_to_string (unat (ecs_available_slots st)) @ [CHR 0x0A]
     @ ''- Resilient Mode: '' @ show_bool (ecs_resilient_mode st) @ [CHR 0x0A]
     @ ''- Healthy: '' @ show_bool (qs_is_healthy (ecs_quality_stats st)) @ [CHR 0x0A]
     @ ''- Active Sessions: '' @ nat_to_string (qs_active_sessions (ecs_quality_stats st))"

record EnhancedConnectionPool =
  pool_handlers :: "EnhancedConnectionHandler list"

definition EnhancedConnectionPool_new :: EnhancedConnectionPool where
  "EnhancedConnectionPool_new = \<lparr>pool_handlers = []\<rparr>"

definition enhanced_add_handler ::
  "EnhancedConnectionHandler \<Rightarrow> EnhancedConnectionPool \<Rightarrow> EnhancedConnectionPool" where
  "enhanced_add_handler h p = p\<lparr>pool_handlers := pool_handlers p @ [h]\<rparr>"

definition enhanced_get_handler :: "nat \<Rightarrow> EnhancedConnectionPool \<Rightarrow> EnhancedConnectionHandler option" where
  "enhanced_get_handler i p = (if i < length (pool_handlers p) then Some (pool_handlers p ! i) else None)"

text \<open>Which handlers run the health check in the background.\<close>

definition start_health_monitor :: "EnhancedConnectionHandler \<Rightarrow> bool" where
  "start_health_monitor h = resilient_mode h"

definition start_all_health_monitors :: "EnhancedConnectionPool \<Rightarrow> EnhancedConnectionHandler list" where
  "start_all_health_monitors p = filter start_health_monitor (pool_handlers p)"

record EnhancedPoolStats =
  eps_total_handlers :: usize
  eps_max_connections :: usize
  eps_active_connections :: usize
  eps_available_slots :: usize
  eps_all_healthy :: bool
  eps_total_sessions :: usize

definition add_stats :: "EnhancedPoolStats \<Rightarrow> EnhancedConnectionStats \<Rightarrow> EnhancedPoolStats" where
  "add_stats t st =
     t\<lparr>eps_max_connections := eps_max_connections t + ecs_max_connections st,
       eps_active_connections := eps_active_connections t + ecs_active_connections st,
       eps_available_slots := eps_available_slots t + ecs_available_slots st,
       eps_total_sessions := eps_total_sessions t + of_nat (qs_active_sessions (ecs_quality_stats st)),
       eps_all_healthy := eps_all_healthy t \<and> qs_is_healthy (ecs_quality_stats st)\<rparr>"

definition enhanced_pool_stats :: "nat \<Rightarrow> EnhancedConnectionPool \<Rightarrow> EnhancedPoolStats" where
  "enhanced_pool_stats now p =
     foldl add_stats
       \<lparr>eps_total_handlers = of_nat (length (pool_handlers p)), eps_max_connections = 0,
        eps_active_connections = 0, eps_available_slots = 0, eps_all_healthy = True, eps_total_sessions = 0\<rparr>
       (map (enhanced_connection_stats now) (pool_handlers p))"

definition show_enhanced_pool_stats :: "EnhancedPoolStats \<Rightarrow> string" where
  "show_enhanced_pool_stats st =
     ''Enhanced Pool Stats:'' @ [CHR 0x0A]
     @ ''- Total Handlers: '' @ nat_to_string (unat (eps_total_handlers st)) @ [CHR 0x0A]
     @ ''- Total Max Connections: '' @ nat_to_string (unat (eps_max_connections st)) @ [CHR 0x0A]
     @ ''- Total Active Connections: '' @ nat_to_string (unat (eps_active_connections st)) @ [CHR 0x0A]
     @ ''- Total Available Slots: '' @ nat_to_string (unat (eps_available_slots st)) @ [CHR 0x0A]
     @ ''- All Healthy: '' @ show_bool (eps_all_healthy st) @ [CHR 0x0A]
     @ ''- Total Active Sessions: '' @ nat_to_string (unat (eps_total_sessions st))"

section \<open>Two copies\<close>

text \<open>
  The two directions run as tasks; \<open>joined1\<close> and \<open>joined2\<close> are how they are joined, and \<open>in_time\<close> whether
  both were done within thirty seconds. A copy that fails is a task that returned. The
  shutdown after a copy that succeeded only closes the stream.
\<close>

definition forward_data_with_two_copies ::
  "(Arrival list \<Rightarrow> Sink \<Rightarrow> (IoError + nat) \<times> Arrival list \<times> Sink) \<Rightarrow> IoError option \<Rightarrow> IoError option
   \<Rightarrow> bool \<Rightarrow> string option \<Rightarrow> string option \<Rightarrow> Arrival list \<Rightarrow> Sink \<Rightarrow> Arrival list \<Rightarrow> Sink
   \<Rightarrow> (AppError + unit) \<times> (Sink \<times> Sink) option" where
  "forward_data_with_two_copies io_copy nc nr in_time joined1 joined2 client_in remote_out remote_in client_out =
     (case and_then (set_nodelay ''client'' nc) (\<lambda>_. set_nodelay ''remote'' nr) of
        Inl e \<Rightarrow> (Err e, Some (remote_out, client_out))
      | Inr _ \<Rightarrow>
          (let (_, _, ro) = io_copy client_in remote_out; (_, _, co) = io_copy remote_in client_out in
           if in_time then
             (if joined1 = None \<and> joined2 = None then (Ok (), Some (ro, co))
              else (Err (Proxy (ForwardingFailed ''Task failed'')), None))
           else (Ok (), None)))"

section \<open>Properties of the handler\<close>

lemma create_resilient_connection_result:
  assumes "create_resilient_connection mt outcome new_id now client target m = (r, m')"
  shows "r = (case find (\<lambda>k. outcome k = Connected) [1..<Suc (max_retries (reconnect_config m))] of
                Some k \<Rightarrow> Ok (new_id, k) | None \<Rightarrow> Err (retries_exhausted (reconnect_config m)))"
    and "sessions m' = (sessions m)(new_id \<mapsto> SessionInfo_new now client target)"
    and "reconnect_config m' = reconnect_config m"
proof -
  let ?m = "m\<lparr>sessions := (sessions m)(new_id \<mapsto> SessionInfo_new now client target)\<rparr>"
  obtain sleeps q m2 where c: "connect_with_retry mt outcome ?m = (sleeps, q, m2)" by (metis prod_cases3)
  have q: "q = (case find (\<lambda>k. outcome k = Connected) [1..<Suc (max_retries (reconnect_config m))] of
      Some k \<Rightarrow> Ok k | None \<Rightarrow> Err (retries_exhausted (reconnect_config m)))"
    using connect_with_retry_result(2) [OF c]
    by (auto simp: retry_result_def split: option.splits simp del: upt_Suc)
  from connect_with_retry_result(1) [OF c] obtain qm where m2: "m2 = ?m\<lparr>quality_monitor := qm\<rparr>" by blast
  from assms c q have "r = (case find (\<lambda>k. outcome k = Connected) [1..<Suc (max_retries (reconnect_config m))] of
      Some k \<Rightarrow> Ok (new_id, k) | None \<Rightarrow> Err (retries_exhausted (reconnect_config m))) \<and> m' = m2"
    by (auto simp: create_resilient_connection_def split: option.splits simp del: upt_Suc)
  with m2 show "r = (case find (\<lambda>k. outcome k = Connected) [1..<Suc (max_retries (reconnect_config m))] of
      Some k \<Rightarrow> Ok (new_id, k) | None \<Rightarrow> Err (retries_exhausted (reconnect_config m)))"
    and "sessions m' = (sessions m)(new_id \<mapsto> SessionInfo_new now client target)"
    and "reconnect_config m' = reconnect_config m" by simp_all
qed

definition reachable_remote :: "ClientConn \<Rightarrow> EnhancedConnectionHandler \<Rightarrow> bool" where
  "reachable_remote c h \<longleftrightarrow>
     list_ex (\<lambda>k. cc_attempts c k = Connected) [1..<Suc (max_retries (reconnect_config (resilient_manager h)))]"

lemma find_None_list_ex: "find P xs = None \<longleftrightarrow> \<not> list_ex P xs"
  by (auto simp: find_None_iff list_ex_iff)

text \<open>
  Neither the configured source address nor switching the resilient mode off has any effect on how
  a connection is handled.
\<close>

lemma source_and_mode_ignored:
  "enhanced_handle_connection mt c (h\<lparr>eh_source_ip := s, resilient_mode := b\<rparr>) =
     (case enhanced_handle_connection mt c h of
        (r, sinks, h') \<Rightarrow> (r, sinks, h'\<lparr>eh_source_ip := s, resilient_mode := b\<rparr>))"
  by (auto simp: enhanced_handle_connection_def handle_resilient_connection_def Let_def
      split: sum.splits prod.splits option.splits)

text \<open>
  C40. A client of the enhanced handler never reaches the remote: the connection is reported as a
  success exactly when one of the attempts to connect succeeds, but what either side then receives is
  what it has sent itself, all of it on sound connections.
\<close>

theorem enhanced_handler_echoes:
  assumes "cc_peer c = Ok a" "cc_joined c = None" "cc_client_nodelay c = None" "cc_remote_nodelay c = None"
    and "0 < fst (cc_buffers c)" "0 < snd (cc_buffers c)"
    and run: "enhanced_handle_connection mt c h = (r, Some (co, ro), h')"
  shows "is_ok r = reachable_remote c h
    \<and> (\<exists>echo. sk_data co = sk_data (cc_client_out c) @ echo \<and> prefix echo (payload (cc_client_in c)))
    \<and> (\<exists>echo. sk_data ro = sk_data (cc_remote_out c) @ echo \<and> prefix echo (payload (cc_remote_in c)))
    \<and> (is_ok r \<and> clean (cc_client_in c) \<and> clean (cc_remote_in c)
         \<and> sk_healthy (cc_client_out c) \<and> sk_healthy (cc_remote_out c) \<longrightarrow>
       sk_data co = sk_data (cc_client_out c) @ payload (cc_client_in c)
       \<and> sk_data ro = sk_data (cc_remote_out c) @ payload (cc_remote_in c))"
proof -
  obtain q m where q: "create_resilient_connection mt (cc_attempts c) (cc_id c) (cc_now c) (show_sockaddr a)
      (show_sockaddr (eh_remote_addr h)) (resilient_manager h) = (q, m)" by fastforce
  note result = create_resilient_connection_result(1) [OF q]
  show ?thesis
  proof (cases q)
    case (Inl e)
    with result have "\<not> reachable_remote c h"
      by (auto simp: reachable_remote_def find_None_list_ex split: option.splits simp del: upt_Suc)
    with Inl run q assms(1) show ?thesis
      by (auto simp: enhanced_handle_connection_def handle_resilient_connection_def)
  next
    case (Inr k)
    with result have reach: "reachable_remote c h"
      using find_None_list_ex [of "\<lambda>k. cc_attempts c k = Connected"
          "[1..<Suc (max_retries (reconnect_config (resilient_manager h)))]"]
      by (auto simp: reachable_remote_def split: option.splits simp del: upt_Suc)
    obtain f co1 ro1 where f: "forward_adaptive None None (fst (cc_buffers c)) (snd (cc_buffers c))
        (cc_client_in c) (cc_client_out c) (cc_remote_in c) (cc_remote_out c) = (f, co1, ro1)"
      by (metis prod_cases3)
    with Inr run q assms(1-4) have "r = Ok ()" "co = co1" "ro = ro1"
      by (auto simp: enhanced_handle_connection_def handle_resilient_connection_def forward_session_def
          split: sum.splits prod.splits)
    with forward_adaptive_echoes [OF assms(5,6) f] reach show ?thesis by auto
  qed
qed

definition sample_conn :: ClientConn where
  "sample_conn =
     \<lparr>cc_peer = Ok (SockV4 1 4000), cc_attempts = (\<lambda>k. if k = 3 then Connected else ConnectError),
      cc_recovery = (\<lambda>_. ConnectError), cc_id = 7, cc_now = 0, cc_later = 0, cc_client_nodelay = None,
      cc_remote_nodelay = None, cc_buffers = (KiB 64, KiB 64), cc_joined = None,
      cc_client_in = [Data [1, 2]], cc_client_out = fresh_sink, cc_remote_in = [Data [3]],
      cc_remote_out = fresh_sink\<rparr>"

theorem enhanced_handler_echoes_witness:
  "\<exists>co ro h'. enhanced_handle_connection (\<lambda>_ n. n) sample_conn (EnhancedConnectionHandler_new 0 (SockV4 2 80) None None)
       = (Ok (), Some (co, ro), h') \<and> sk_data co = [1, 2] \<and> sk_data ro = [3]"
proof -
  let ?h = "EnhancedConnectionHandler_new 0 (SockV4 2 80) None None"
  obtain r sinks h' where run: "enhanced_handle_connection (\<lambda>_ n. n) sample_conn ?h = (r, sinks, h')"
    by (metis prod_cases3)
  then obtain co ro where sinks: "sinks = Some (co, ro)"
    by (auto simp: enhanced_handle_connection_def handle_resilient_connection_def sample_conn_def
        split: sum.splits prod.splits)
  have "reachable_remote sample_conn ?h"
    by (simp add: reachable_remote_def sample_conn_def EnhancedConnectionHandler_new_def with_config_def
        enhanced_reconnect_config_def list_ex_iff)
  with enhanced_handler_echoes [OF _ _ _ _ _ _ run [unfolded sinks]] run sinks show ?thesis
    by (cases r) (simp_all add: sample_conn_def)
qed

section \<open>Sessions\<close>

text \<open>
  The manager of a handler, shared by the tasks of its connections and the health check. \<open>begun\<close>
  are the sessions begun so far with their instants, \<open>last_tick\<close> is the instant of the last health check.
  A session is registered before the attempts to connect; when a connection ends, nothing is done.
\<close>

record EnhancedState =
  es_manager :: ResilientConnectionManager
  begun :: "(nat \<times> nat) list"
  last_tick :: nat

definition register_session ::
  "nat \<Rightarrow> nat \<Rightarrow> string \<Rightarrow> string \<Rightarrow> ResilientConnectionManager \<Rightarrow> ResilientConnectionManager" where
  "register_session new_id now client target m =
     m\<lparr>sessions := (sessions m)(new_id \<mapsto> SessionInfo_new now client target)\<rparr>"

inductive enhanced_step :: "EnhancedState \<Rightarrow> EnhancedState \<Rightarrow> bool" where
  session_begins: "new_id \<notin> fst ` set (begun s) \<Longrightarrow> last_tick s \<le> now \<Longrightarrow>
    enhanced_step s (s\<lparr>es_manager := register_session new_id now client target (es_manager s),
                       begun := (new_id, now) # begun s\<rparr>)"
| connecting: "connect_with_retry mt outcome (es_manager s) = (sleeps, r, m) \<Longrightarrow>
    enhanced_step s (s\<lparr>es_manager := m\<rparr>)"
| recovering: "recover_connection mt outcome now sid (es_manager s) = (q, m) \<Longrightarrow>
    enhanced_step s (s\<lparr>es_manager := m\<rparr>)"
| caching: "cache_data now sid d (es_manager s) = (u, m) \<Longrightarrow>
    enhanced_step s (s\<lparr>es_manager := m\<rparr>)"
| health_check: "health_check_tick now (es_manager s) = (m, quality) \<Longrightarrow> last_tick s \<le> now \<Longrightarrow>
    enhanced_step s (s\<lparr>es_manager := m, last_tick := now\<rparr>)"

text \<open>What a connection does to the manager, without interruption, is a sequence of these steps.\<close>

lemma handle_resilient_connection_steps:
  assumes run: "handle_resilient_connection mt c client_addr h = (r, sinks, h')"
    and fresh: "cc_id c \<notin> fst ` set (begun s)" "last_tick s \<le> cc_now c" "es_manager s = resilient_manager h"
  shows "enhanced_step\<^sup>*\<^sup>* s (s\<lparr>es_manager := resilient_manager h', begun := (cc_id c, cc_now c) # begun s\<rparr>)"
proof -
  let ?m1 = "register_session (cc_id c) (cc_now c) client_addr (show_sockaddr (eh_remote_addr h)) (resilient_manager h)"
  let ?at = "\<lambda>m. s\<lparr>es_manager := m, begun := (cc_id c, cc_now c) # begun s\<rparr>"
  have swap: "?at m = s\<lparr>begun := (cc_id c, cc_now c) # begun s, es_manager := m\<rparr>" for m by simp
  obtain sl q m2 where retry: "connect_with_retry mt (cc_attempts c) ?m1 = (sl, q, m2)" by (metis prod_cases3)
  have "enhanced_step s (?at ?m1)"
    using session_begins [OF fresh(1,2), of client_addr "show_sockaddr (eh_remote_addr h)"] fresh(3) by simp
  moreover have "enhanced_step (?at ?m1) (?at m2)"
    using connecting [of mt "cc_attempts c" "?at ?m1" sl q m2] retry by (simp add: swap)
  ultimately have connected: "enhanced_step\<^sup>*\<^sup>* s (?at m2)" by (meson r_into_rtranclp rtranclp_trans)
  have recovered: "enhanced_step\<^sup>*\<^sup>* s (?at (snd (recover_connection mt (cc_recovery c) (cc_later c) (cc_id c) m2)))"
    by (rule rtranclp.rtrancl_into_rtrancl [OF connected])
      (use recovering [of mt "cc_recovery c" "cc_later c" "cc_id c" "?at m2"] in \<open>simp add: swap prod_eq_iff\<close>)
  have "resilient_manager h' \<in> {m2, snd (recover_connection mt (cc_recovery c) (cc_later c) (cc_id c) m2)}"
    using run retry
    by (auto simp: handle_resilient_connection_def create_resilient_connection_def register_session_def forward_session_def
        Let_def split: sum.splits prod.splits option.splits)
  with connected recovered show ?thesis by auto
qed

definition enhanced_start :: "EnhancedState \<Rightarrow> bool" where
  "enhanced_start s =
     (\<exists>now. s = \<lparr>es_manager = with_config now enhanced_reconnect_config, begun = [], last_tick = 0\<rparr>)"

definition kept :: "EnhancedState \<Rightarrow> nat \<rightharpoonup> nat" where
  "kept s = map_of (filter (\<lambda>(sid, created). last_tick s - created \<le> secs 300) (begun s))"

definition sessions_inv :: "EnhancedState \<Rightarrow> bool" where
  "sessions_inv s \<longleftrightarrow>
     distinct (map fst (begun s))
     \<and> (\<forall>sid. map_option se_created_at (sessions (es_manager s) sid) = kept s sid)"

lemma map_of_filter_values:
  "distinct (map fst xs) \<Longrightarrow>
   map_of (filter (\<lambda>(k, v). P v) xs) k = (case map_of xs k of Some v \<Rightarrow> if P v then Some v else None | None \<Rightarrow> None)"
proof (induction xs)
  case (Cons x xs)
  obtain k' v where x: "x = (k', v)" by fastforce
  with Cons.prems have "map_of xs k' = None" by (simp add: map_of_eq_None_iff)
  with Cons x show ?case by (cases "k = k'") auto
qed simp

lemma kept_iff:
  "distinct (map fst (begun s)) \<Longrightarrow>
   kept s sid = (case map_of (begun s) sid of
      Some created \<Rightarrow> if last_tick s - created \<le> secs 300 then Some created else None | None \<Rightarrow> None)"
  unfolding kept_def by (rule map_of_filter_values)

lemma sessions_created_at:
  "connect_with_retry mt outcome m = (sleeps, r, m') \<Longrightarrow> sessions m' = sessions m"
  "recover_connection mt outcome now sid m = (q, m') \<Longrightarrow>
     map_option se_created_at (sessions m' k) = map_option se_created_at (sessions m k)"
  "cache_data now sid d m = (u, m') \<Longrightarrow>
     map_option se_created_at (sessions m' k) = map_option se_created_at (sessions m k)"
proof -
  show 1: "sessions m' = sessions m" if "connect_with_retry mt outcome m = (sleeps, r, m')" for mt outcome m sleeps r m'
    by (subst connect_with_retry_result(1) [OF that]) simp
  show "map_option se_created_at (sessions m' k) = map_option se_created_at (sessions m k)"
    if "recover_connection mt outcome now sid m = (q, m')"
    using that by (auto simp: recover_connection_def take_pending_data_def Let_def
        split: option.splits prod.splits sum.splits dest!: 1)
  show "map_option se_created_at (sessions m' k) = map_option se_created_at (sessions m k)"
    if "cache_data now sid d m = (u, m')"
    using that by (auto simp: cache_data_def add_pending_data_def split: option.splits)
qed

lemma cleanup_created_at:
  "map_option se_created_at (sessions (cleanup_expired_sessions now m) sid) =
     (case map_option se_created_at (sessions m sid) of
        Some created \<Rightarrow> if now - created \<le> secs 300 then Some created else None | None \<Rightarrow> None)"
  by (simp add: cleanup_expired_sessions_def split: option.splits)

lemma sessions_inv_step: "sessions_inv s \<Longrightarrow> enhanced_step s t \<Longrightarrow> sessions_inv t"
proof (erule enhanced_step.cases, goal_cases)
  case (1 new_id s now client target)
  then show ?case
    by (auto simp: sessions_inv_def kept_def register_session_def SessionInfo_new_def image_iff)
next
  case (2 mt outcome s sleeps r m)
  then show ?case by (simp add: sessions_inv_def kept_def sessions_created_at(1))
next
  case (3 mt outcome now sid s q m)
  then show ?case using sessions_created_at(2) [of mt outcome now sid "es_manager s" q m]
    by (simp add: sessions_inv_def kept_def)
next
  case (4 now sid d s u m)
  then show ?case using sessions_created_at(3) [of now sid d "es_manager s" u m]
    by (simp add: sessions_inv_def kept_def)
next
  case (5 now s m quality)
  then have m: "m = cleanup_expired_sessions now (es_manager s)"
    by (auto simp: health_check_tick_def Let_def)
  with 5 show ?case
    by (auto simp: sessions_inv_def kept_iff cleanup_created_at split: option.splits)
qed

interpretation sessions: invariant enhanced_start enhanced_step sessions_inv
proof unfold_locales
  show "sessions_inv s" if "enhanced_start s" for s
    using that by (auto simp: enhanced_start_def sessions_inv_def kept_def with_config_def)
qed (rule sessions_inv_step)

text \<open>
  C33. The sessions of an enhanced handler do not follow its connections. In every interleaving the
  sessions there are, and the number reported as active, are those begun at most five minutes before the
  last health check, whether their connections failed, ended or still run; without health checks, all.
\<close>

theorem sessions_outlive_connections:
  assumes "reach enhanced_start enhanced_step s"
  shows "dom (sessions (es_manager s)) = {sid. \<exists>created. (sid, created) \<in> set (begun s) \<and> last_tick s - created \<le> secs 300}
    \<and> qs_active_sessions (get_quality_stats now (es_manager s))
        = length (filter (\<lambda>(sid, created). last_tick s - created \<le> secs 300) (begun s))"
proof -
  let ?kept = "filter (\<lambda>(sid, created). last_tick s - created \<le> secs 300) (begun s)"
  from sessions.reach_inv [OF assms] have d: "distinct (map fst (begun s))"
    and k: "\<And>sid. map_option se_created_at (sessions (es_manager s) sid) = kept s sid"
    by (auto simp: sessions_inv_def)
  have "dom (sessions (es_manager s)) = dom (kept s)"
    unfolding dom_def k [symmetric] by simp
  then have dom: "dom (sessions (es_manager s)) = fst ` set ?kept" by (simp only: kept_def dom_map_of_conv_image_fst)
  have "card (fst ` set ?kept) = length ?kept"
    using distinct_card [OF distinct_map_filter [OF d]] by (simp only: set_map length_map)
  moreover have "fst ` set ?kept = {sid. \<exists>created. (sid, created) \<in> set (begun s) \<and> last_tick s - created \<le> secs 300}"
    by (auto simp: image_iff)
  ultimately show ?thesis unfolding get_quality_stats_def dom by simp
qed

text \<open>Two sessions, whose connections may both still run, and a health check 400 seconds after the first began.\<close>

definition sample_enhanced :: EnhancedState where
  "sample_enhanced =
     (let m = register_session 2 (secs 200) ''c'' ''t'' (register_session 1 0 ''c'' ''t'' (with_config 0 enhanced_reconnect_config))
      in \<lparr>es_manager = fst (health_check_tick (secs 400) m), begun = [(2, secs 200), (1, 0)], last_tick = secs 400\<rparr>)"

lemma sample_enhanced_reachable: "reach enhanced_start enhanced_step sample_enhanced"
proof -
  let ?m0 = "with_config 0 enhanced_reconnect_config"
  let ?s0 = "\<lparr>es_manager = ?m0, begun = [], last_tick = 0\<rparr>"
  let ?s1 = "\<lparr>es_manager = register_session 1 0 ''c'' ''t'' ?m0, begun = [(1, 0)], last_tick = 0\<rparr>"
  let ?s2 = "\<lparr>es_manager = register_session 2 (secs 200) ''c'' ''t'' (register_session 1 0 ''c'' ''t'' ?m0),
    begun = [(2, secs 200), (1, 0)], last_tick = 0\<rparr>"
  have "reach enhanced_start enhanced_step ?s0" by (rule reach_init) (auto simp: enhanced_start_def)
  moreover have "enhanced_step ?s0 ?s1" using session_begins [of 1 ?s0 0 "''c''" "''t''"] by simp
  ultimately have "reach enhanced_start enhanced_step ?s1" by (rule reach_step)
  moreover have "enhanced_step ?s1 ?s2" using session_begins [of 2 ?s1 "secs 200" "''c''" "''t''"] by simp
  ultimately have "reach enhanced_start enhanced_step ?s2" by (rule reach_step)
  moreover have "enhanced_step ?s2 sample_enhanced"
    using health_check [of "secs 400" ?s2 "fst (health_check_tick (secs 400) (es_manager ?s2))"
        "snd (health_check_tick (secs 400) (es_manager ?s2))"]
    by (simp add: sample_enhanced_def)
  ultimately show ?thesis by (rule reach_step)
qed

theorem sessions_outlive_connections_witness:
  "dom (sessions (es_manager sample_enhanced)) = {2}
   \<and> qs_active_sessions (get_quality_stats (secs 400) (es_manager sample_enhanced)) = 1"
  using sessions_outlive_connections [OF sample_enhanced_reachable, of "secs 400"]
  by (auto simp: sample_enhanced_def Let_def)

section \<open>The pool\<close>

lemma foldl_add_stats:
  "eps_max_connections (foldl add_stats t sts) = eps_max_connections t + (\<Sum>st \<leftarrow> sts. ecs_max_connections st)"
  "eps_available_slots (foldl add_stats t sts) = eps_available_slots t + (\<Sum>st \<leftarrow> sts. ecs_available_slots st)"
  "eps_total_sessions (foldl add_stats t sts)
     = eps_total_sessions t + (\<Sum>st \<leftarrow> sts. of_nat (qs_active_sessions (ecs_quality_stats st)))"
  "eps_all_healthy (foldl add_stats t sts)
     = (eps_all_healthy t \<and> list_all (\<lambda>st. qs_is_healthy (ecs_quality_stats st)) sts)"
  "eps_active_connections (foldl add_stats t sts) = eps_active_connections t + (\<Sum>st \<leftarrow> sts. ecs_active_connections st)"
  "eps_total_handlers (foldl add_stats t sts) = eps_total_handlers t"
  by (induction sts arbitrary: t) (simp_all add: add_stats_def)

lemma unat_sum_list: "unat (\<Sum>x \<leftarrow> xs. f x :: usize) = (\<Sum>x \<leftarrow> xs. unat (f x)) mod 2 ^ 64"
  by (induction xs) (simp_all add: unat_word_ariths mod_add_right_eq)

definition handler_capacity :: "EnhancedConnectionHandler \<Rightarrow> nat" where
  "handler_capacity h = (case eh_max_connections h of None \<Rightarrow> 2 ^ 64 - 1 | Some m \<Rightarrow> unat m)"

lemma unat_max_connections: "unat (ecs_max_connections (enhanced_connection_stats now h)) = handler_capacity h"
  by (simp add: enhanced_connection_stats_def handler_capacity_def Let_def unat_usize_max split: option.splits)

lemma of_nat_sum_list: "(\<Sum>x \<leftarrow> xs. of_nat (f x) :: usize) = of_nat (\<Sum>x \<leftarrow> xs. f x)"
  by (induction xs) simp_all

text \<open>
  The capacity an enhanced pool reports is the sum of its handlers' capacities modulo \<open>2 ^ 64\<close>, where
  the plain pool saturates: a handler without a limit beside one with a limit \<open>n > 0\<close> leaves \<open>n - 1\<close>. The
  other numbers add up too, and the pool is healthy exactly when every handler is.
\<close>

theorem enhanced_pool_capacity_wraps:
  "let st = enhanced_pool_stats now p in
     unat (eps_max_connections st) = (\<Sum>h \<leftarrow> pool_handlers p. handler_capacity h) mod 2 ^ 64
     \<and> eps_available_slots st = eps_max_connections st
     \<and> eps_active_connections st = 0
     \<and> (eps_all_healthy st \<longleftrightarrow> list_all (\<lambda>h. is_healthy now (quality_monitor (resilient_manager h))) (pool_handlers p))
     \<and> unat (eps_total_sessions st)
         = (\<Sum>h \<leftarrow> pool_handlers p. card (dom (sessions (resilient_manager h)))) mod 2 ^ 64
     \<and> (\<forall>h k n. pool_handlers p = [h, k] \<and> eh_max_connections h = None \<and> eh_max_connections k = Some n \<and> n \<noteq> 0
          \<longrightarrow> eps_max_connections st = n - 1)"
proof -
  let ?stats = "enhanced_connection_stats now"
  have "unat (\<Sum>h \<leftarrow> pool_handlers p. ecs_max_connections (?stats h)) = (\<Sum>h \<leftarrow> pool_handlers p. handler_capacity h) mod 2 ^ 64"
    unfolding unat_sum_list unat_max_connections ..
  moreover have "(\<Sum>h \<leftarrow> pool_handlers p. ecs_available_slots (?stats h)) = (\<Sum>h \<leftarrow> pool_handlers p. ecs_max_connections (?stats h))"
    by (simp add: enhanced_connection_stats_def Let_def)
  moreover have "(\<Sum>h \<leftarrow> pool_handlers p. ecs_active_connections (?stats h)) = 0"
    by (simp add: enhanced_connection_stats_def Let_def)
  moreover have "list_all (\<lambda>h. qs_is_healthy (ecs_quality_stats (?stats h))) (pool_handlers p)
      \<longleftrightarrow> list_all (\<lambda>h. is_healthy now (quality_monitor (resilient_manager h))) (pool_handlers p)"
    by (simp add: enhanced_connection_stats_def get_quality_stats_def Let_def)
  moreover have "unat (\<Sum>h \<leftarrow> pool_handlers p. of_nat (qs_active_sessions (ecs_quality_stats (?stats h))) :: usize)
      = (\<Sum>h \<leftarrow> pool_handlers p. card (dom (sessions (resilient_manager h)))) mod 2 ^ 64"
    unfolding of_nat_sum_list unat_of_nat
    by (simp add: enhanced_connection_stats_def get_quality_stats_def Let_def)
  moreover have "(\<Sum>h \<leftarrow> pool_handlers p. ecs_max_connections (?stats h)) = n - 1"
    if "pool_handlers p = [h, k]" "eh_max_connections h = None" "eh_max_connections k = Some n" for h k n
    using that by (simp add: enhanced_connection_stats_def usize_max_def Let_def)
  ultimately show ?thesis
    by (simp add: enhanced_pool_stats_def Let_def foldl_add_stats comp_def list.pred_map add_stats_def)
qed

definition sample_handler :: "usize option \<Rightarrow> EnhancedConnectionHandler" where
  "sample_handler limit = EnhancedConnectionHandler_new 0 (SockV4 2 80) None limit"

theorem enhanced_pool_capacity_wraps_witness:
  "eps_max_connections (enhanced_pool_stats 0 \<lparr>pool_handlers = [sample_handler None, sample_handler (Some 1)]\<rparr>) = 0"
  using enhanced_pool_capacity_wraps
    [of 0 "\<lparr>pool_handlers = [sample_handler None, sample_handler (Some 1)]\<rparr>"]
  by (simp add: Let_def sample_handler_def EnhancedConnectionHandler_new_def)

section \<open>Two copies\<close>

text \<open>
  The forwarder with two copies reports success although a direction failed or was still running
  after thirty seconds; on sound connections both directions are delivered.
\<close>

lemma two_copies_spec:
  assumes "copier io_copy"
  shows "fst (forward_data_with_two_copies io_copy None None in_time None None ci ro ri co) = Ok ()
    \<and> (clean ci \<and> clean ri \<and> sk_healthy ro \<and> sk_healthy co \<longrightarrow>
        (\<exists>ro' co'. forward_data_with_two_copies io_copy None None True None None ci ro ri co = (Ok (), Some (ro', co'))
           \<and> sk_data ro' = sk_data ro @ payload ci \<and> sk_data co' = sk_data co @ payload ri))"
proof -
  have "fst (forward_data_with_two_copies io_copy None None in_time None None ci ro ri co) = Ok ()"
    by (simp add: forward_data_with_two_copies_def set_nodelay_def split: prod.splits)
  moreover have "\<exists>ro' co'. forward_data_with_two_copies io_copy None None True None None ci ro ri co = (Ok (), Some (ro', co'))
      \<and> sk_data ro' = sk_data ro @ payload ci \<and> sk_data co' = sk_data co @ payload ri"
    if sound: "clean ci" "clean ri" "sk_healthy ro" "sk_healthy co"
  proof -
    obtain x1 ro' where "io_copy ci ro = (Inr (length (payload ci)), x1, ro')" "sk_data ro' = sk_data ro @ payload ci"
      by (rule copier.delivers [OF assms sound(1,3)])
    moreover obtain x2 co' where "io_copy ri co = (Inr (length (payload ri)), x2, co')" "sk_data co' = sk_data co @ payload ri"
      by (rule copier.delivers [OF assms sound(2,4)])
    ultimately show ?thesis by (simp add: forward_data_with_two_copies_def set_nodelay_def)
  qed
  ultimately show ?thesis by blast
qed

end
