(* ===== verification/Proxy_Server.thy ===== *)
theory Proxy_Server
  imports Stealth_Conn
begin

text \<open>
  The forward proxy server, \<^verbatim>\<open>src/src/proxy/server.rs\<close>: instances built from the configuration, the
  builder, starting and stopping, and the status. The outcomes of socket calls are arguments.
\<close>

section \<open>Instances\<close>

record ProxyInstance =
  bind_addr :: SocketAddr
  pi_remote_addr :: SocketAddr
  pi_source_ip :: "IpAddr option"
  connection_handler :: StealthConnectionHandler
  running :: bool

definition ProxyInstance_new ::
  "IpAddr \<Rightarrow> u16 \<Rightarrow> SocketAddr \<Rightarrow> IpAddr option \<Rightarrow> string list option \<Rightarrow> nat option \<Rightarrow> f64 option
   \<Rightarrow> AppError + ProxyInstance" where
  "ProxyInstance_new ip port remote src allow max_conns cps =
     Ok \<lparr>bind_addr = SocketAddr_new ip port, pi_remote_addr = remote, pi_source_ip = src,
         connection_handler = StealthConnectionHandler_new remote src allow max_conns cps,
         running = False\<rparr>"

definition placeholder_from :: "ProxyInstance \<Rightarrow> ProxyInstance" where
  "placeholder_from original =
     \<lparr>bind_addr = SocketAddr_new ipv4_unspecified 0, pi_remote_addr = pi_remote_addr original,
      pi_source_ip = pi_source_ip original, connection_handler = connection_handler original,
      running = False\<rparr>"

text \<open>The listener: the errors of the six socket calls, in the order they are made.\<close>

record ListenerEnv =
  le_socket :: "IoError option"
  le_reuse :: "IoError option"
  le_bind :: "IoError option"
  le_listen :: "IoError option"
  le_nonblocking :: "IoError option"
  le_from_std :: "IoError option"
  le_local_addr :: "IoError option"
  le_udp_bind :: "IoError option"

definition fail_with :: "(string \<Rightarrow> AppError) \<Rightarrow> IoError option \<Rightarrow> AppError + unit" where
  "fail_with mk e = (case e of None \<Rightarrow> Ok () | Some err \<Rightarrow> Err (mk (io_text err)))"

definition create_optimized_listener :: "ListenerEnv \<Rightarrow> ProxyInstance \<Rightarrow> AppError + unit" where
  "create_optimized_listener env i =
     (let addr = show_sockaddr (bind_addr i) in
      and_then (case le_socket env of None \<Rightarrow> Ok () | Some e \<Rightarrow> Err (Io e)) (\<lambda>_.
      and_then (fail_with (\<lambda>t. Network (InvalidSocketOption (''set_reuse_address: '' @ t))) (le_reuse env)) (\<lambda>_.
      and_then (fail_with (\<lambda>t. Network (ListenFailed (''Failed to bind to '' @ addr @ '': '' @ t))) (le_bind env)) (\<lambda>_.
      and_then (fail_with (\<lambda>t. Network (ListenFailed (''Failed to listen on '' @ addr @ '': '' @ t))) (le_listen env)) (\<lambda>_.
      and_then (fail_with (\<lambda>t. Network (ListenFailed (''set_nonblocking: '' @ t))) (le_nonblocking env)) (\<lambda>_.
      fail_with (\<lambda>t. Network (ListenFailed (''Failed to create TcpListener: '' @ t))) (le_from_std env)))))))"

text \<open>
  Events of the accept loop and of the UDP loop beside it; each accepted stream and each packet
  gets a task of its own.
\<close>

datatype InstanceEvent =
    Connection SocketAddr
  | AcceptFailed IoError
  | Datagram bytes SocketAddr
  | DatagramFailed IoError
  | Stop

fun instance_loop :: "InstanceEvent list \<Rightarrow> InstanceEvent list" where
  "instance_loop [] = []"
| "instance_loop (Connection a # evs) = Connection a # instance_loop evs"
| "instance_loop (AcceptFailed e # evs) = instance_loop evs"
| "instance_loop (Datagram d a # evs) = Datagram d a # instance_loop evs"
| "instance_loop (DatagramFailed e # evs) = instance_loop evs"
| "instance_loop (Stop # evs) = []"

text \<open>\<open>start\<close> of an instance: the result, the instance afterwards, and the tasks spawned.\<close>

definition instance_start ::
  "ListenerEnv \<Rightarrow> InstanceEvent list \<Rightarrow> ProxyInstance
   \<Rightarrow> (AppError + unit) \<times> ProxyInstance \<times> InstanceEvent list" where
  "instance_start env evs i =
     (let i1 = i\<lparr>running := True\<rparr>;
          ready =
            and_then (create_optimized_listener env i1) (\<lambda>_.
            and_then (fail_with (\<lambda>t. Network (ListenFailed (''Failed to get local address: '' @ t)))
                        (le_local_addr env)) (\<lambda>_.
            fail_with (\<lambda>t. Network (ListenFailed (''Failed to bind UDP port ''
                              @ show_sockaddr (bind_addr i1) @ '': '' @ t))) (le_udp_bind env)))
      in case ready of
           Inl e \<Rightarrow> (Err e, i1, [])
         | Inr _ \<Rightarrow> (Ok (), i1\<lparr>running := False\<rparr>, instance_loop evs))"

section \<open>The server\<close>

record ProxyServer =
  ps_bind_ip :: IpAddr
  proxy_instances :: "ProxyInstance list"

definition ProxyServer_new :: "IpAddr \<Rightarrow> ProxyServer" where
  "ProxyServer_new ip = \<lparr>ps_bind_ip = ip, proxy_instances = []\<rparr>"

definition instance_of :: "IpAddr \<Rightarrow> ProxySection \<Rightarrow> AppError + ProxyInstance" where
  "instance_of default_ip p =
     and_then (get_local_port p) (\<lambda>port.
     and_then (case get_local_ip p of
                 Some local_ip \<Rightarrow> parse_ip_address local_ip
               | None \<Rightarrow> Ok default_ip) (\<lambda>local_bind_ip.
     and_then (get_remote_host p) (\<lambda>remote_host.
     and_then (get_remote_port p) (\<lambda>remote_port.
     and_then (create_socket_addr remote_host remote_port) (\<lambda>remote.
     and_then (case px_source_ip p of
                 Some s \<Rightarrow> and_then (parse_ip_address s) (\<lambda>ip. Ok (Some ip))
               | None \<Rightarrow> Ok None) (\<lambda>src.
     ProxyInstance_new local_bind_ip port remote src (px_allow_ips p)
       (px_max_conns_per_ip p) (px_cps_limit p)))))))"

definition add_proxy :: "ProxySection \<Rightarrow> ProxyServer \<Rightarrow> AppError + ProxyServer" where
  "add_proxy p srv =
     and_then (instance_of (ps_bind_ip srv) p) (\<lambda>i.
       Ok (srv\<lparr>proxy_instances := proxy_instances srv @ [i]\<rparr>))"

record ServerStatus =
  st_bind_ip :: IpAddr
  total_instances :: nat
  active_instances :: nat

definition get_status :: "ProxyServer \<Rightarrow> ServerStatus" where
  "get_status srv =
     \<lparr>st_bind_ip = ps_bind_ip srv, total_instances = length (proxy_instances srv),
      active_instances = length (filter running (proxy_instances srv))\<rparr>"

definition show_status :: "ServerStatus \<Rightarrow> string" where
  "show_status st =
     ''Proxy Server Status:'' @ [CHR 0x0A] @ ''- Bind IP: '' @ show_ip (st_bind_ip st) @ [CHR 0x0A]
     @ ''- Total Instances: '' @ nat_to_string (total_instances st) @ [CHR 0x0A]
     @ ''- Active Instances: '' @ nat_to_string (active_instances st)"

text \<open>
  \<open>start\<close> moves every instance into a task and leaves a placeholder: the server while it waits
  for the signal, and the instances that run.
\<close>

definition start_instances :: "ProxyServer \<Rightarrow> ProxyServer \<times> ProxyInstance list" where
  "start_instances srv =
     (srv\<lparr>proxy_instances := map placeholder_from (proxy_instances srv)\<rparr>, proxy_instances srv)"

text \<open>The whole of \<open>start\<close>: the results of the instances are not looked at.\<close>

definition proxy_server_start ::
  "(ProxyInstance \<Rightarrow> ListenerEnv) \<Rightarrow> (ProxyInstance \<Rightarrow> InstanceEvent list) \<Rightarrow> ProxyServer
   \<Rightarrow> (AppError + unit) \<times> ProxyServer \<times> (AppError + unit) list" where
  "proxy_server_start env evs srv =
     (let (waiting, moved) = start_instances srv;
          results = map (\<lambda>i. fst (instance_start (env i) (evs i) i)) moved
      in (Ok (), waiting, results))"

text \<open>The connectivity test: the outcome of each step, and the time it took.\<close>

record ConnectEnv =
  ce_timeout :: bool
  ce_socket :: "IoError option"
  ce_bind :: "IoError option"
  ce_connect :: "IoError option"
  ce_elapsed :: nat

definition test_remote_connectivity :: "ConnectEnv \<Rightarrow> ProxyInstance \<Rightarrow> AppError + nat" where
  "test_remote_connectivity env i =
     (let connect_failed = (\<lambda>t. Network (ConnectionFailed (''Connection failed: '' @ t))) in
      if ce_timeout env then Err (Network ConnectionTimeout)
      else
        and_then
          (case pi_source_ip i of
             Some src \<Rightarrow>
               and_then (fail_with (\<lambda>t. Network (ConnectionFailed
                   ((case pi_remote_addr i of
                       SockV4 _ _ \<Rightarrow> ''Failed to create IPv4 socket: ''
                     | _ \<Rightarrow> ''Failed to create IPv6 socket: '') @ t))) (ce_socket env)) (\<lambda>_.
               and_then (fail_with (\<lambda>t. Network (ConnectionFailed
                   (''Failed to bind to source IP '' @ show_ip src @ '': '' @ t))) (ce_bind env)) (\<lambda>_.
               fail_with connect_failed (ce_connect env)))
           | None \<Rightarrow> fail_with connect_failed (ce_connect env))
          (\<lambda>_. Ok (ce_elapsed env)))"

section \<open>The builder\<close>

record ProxyServerBuilder =
  pb_bind_ip :: "IpAddr option"
  proxy_configs :: "ProxySection list"

definition ProxyServerBuilder_new :: ProxyServerBuilder where
  "ProxyServerBuilder_new = \<lparr>pb_bind_ip = None, proxy_configs = []\<rparr>"

definition builder_bind_ip :: "IpAddr \<Rightarrow> ProxyServerBuilder \<Rightarrow> ProxyServerBuilder" where
  "builder_bind_ip ip b = b\<lparr>pb_bind_ip := Some ip\<rparr>"

definition builder_add_proxy :: "ProxySection \<Rightarrow> ProxyServerBuilder \<Rightarrow> ProxyServerBuilder" where
  "builder_add_proxy config b = b\<lparr>proxy_configs := proxy_configs b @ [config]\<rparr>"

definition builder_add_proxies :: "ProxySection list \<Rightarrow> ProxyServerBuilder \<Rightarrow> ProxyServerBuilder" where
  "builder_add_proxies configs b = b\<lparr>proxy_configs := proxy_configs b @ configs\<rparr>"

fun add_all :: "ProxySection list \<Rightarrow> ProxyServer \<Rightarrow> AppError + ProxyServer" where
  "add_all [] srv = Ok srv"
| "add_all (p # ps) srv = and_then (add_proxy p srv) (add_all ps)"

definition build :: "ProxyServerBuilder \<Rightarrow> AppError + ProxyServer" where
  "build b =
     add_all (proxy_configs b)
       (ProxyServer_new (case pb_bind_ip b of Some ip \<Rightarrow> ip | None \<Rightarrow> ipv4_localhost))"

section \<open>Properties\<close>

lemma ProxyInstance_new_Ok:
  "ProxyInstance_new ip port remote src allow mx cps = Inr i \<longleftrightarrow>
   i = \<lparr>bind_addr = SocketAddr_new ip port, pi_remote_addr = remote, pi_source_ip = src,
        connection_handler = StealthConnectionHandler_new remote src allow mx cps, running = False\<rparr>"
  by (auto simp: ProxyInstance_new_def)

lemma add_all_Ok_iff:
  "add_all ps srv = Ok srv' \<longleftrightarrow>
   (\<exists>is. list_all2 (\<lambda>p i. instance_of (ps_bind_ip srv) p = Ok i) ps is
      \<and> srv' = srv\<lparr>proxy_instances := proxy_instances srv @ is\<rparr>)"
proof (induction ps arbitrary: srv)
  case Nil
  then show ?case by auto
next
  case (Cons p ps)
  have "add_all (p # ps) srv = Ok srv' \<longleftrightarrow>
     (\<exists>i. instance_of (ps_bind_ip srv) p = Ok i
        \<and> add_all ps (srv\<lparr>proxy_instances := proxy_instances srv @ [i]\<rparr>) = Ok srv')"
    by (auto simp: add_proxy_def and_then_Ok_iff)
  also have "\<dots> \<longleftrightarrow> (\<exists>i is. instance_of (ps_bind_ip srv) p = Ok i
      \<and> list_all2 (\<lambda>p i. instance_of (ps_bind_ip srv) p = Ok i) ps is
      \<and> srv' = srv\<lparr>proxy_instances := proxy_instances srv @ i # is\<rparr>)"
    by (simp add: Cons.IH)
  finally show ?case by (auto simp: list_all2_Cons1)
qed

text \<open>An instance does what its configuration says, on a server with the given default address.\<close>

definition instance_matches :: "IpAddr \<Rightarrow> ProxySection \<Rightarrow> ProxyInstance \<Rightarrow> bool" where
  "instance_matches default_ip p i \<longleftrightarrow>
     get_local_port p = Ok (sa_port (bind_addr i))
     \<and> (case get_local_ip p of None \<Rightarrow> sa_ip (bind_addr i) = default_ip
        | Some t \<Rightarrow> parse_ip (trim t) = Some (sa_ip (bind_addr i)))
     \<and> get_remote_port p = Ok (sa_port (pi_remote_addr i))
     \<and> (\<exists>host. get_remote_host p = Ok host \<and> parse_ip host = Some (sa_ip (pi_remote_addr i)))
     \<and> remote_addr (connection_handler i) = pi_remote_addr i
     \<and> allow_ips (connection_handler i) = px_allow_ips p
     \<and> max_conns_per_ip (connection_handler i) = px_max_conns_per_ip p
     \<and> cps_limit (connection_handler i) = px_cps_limit p
     \<and> \<not> running i"

lemma local_bind_ip_Ok:
  "(case lo of Some t \<Rightarrow> parse_ip_address t | None \<Rightarrow> Ok d) = Inr ip \<Longrightarrow>
   (case lo of None \<Rightarrow> ip = d | Some t \<Rightarrow> parse_ip (trim t) = Some ip)"
  by (auto simp: parse_ip_address_def ok_or_Ok_iff Let_def split: option.splits)

lemma create_socket_addr_Ok:
  "create_socket_addr host port = Inr a \<longleftrightarrow> (\<exists>ip. parse_ip host = Some ip \<and> a = SocketAddr_new ip port)"
  by (auto simp: create_socket_addr_def ok_or_Ok_iff)

lemma instance_of_matches:
  assumes "instance_of d p = Ok i"
  shows "instance_matches d p i"
proof -
  from assms obtain port ip host rport remote src where
    f: "get_local_port p = Ok port" "get_remote_host p = Ok host" "get_remote_port p = Ok rport"
    and l: "(case get_local_ip p of Some t \<Rightarrow> parse_ip_address t | None \<Rightarrow> Ok d) = Inr ip"
    and r: "create_socket_addr host rport = Inr remote"
    and i: "i = \<lparr>bind_addr = SocketAddr_new ip port, pi_remote_addr = remote, pi_source_ip = src,
        connection_handler = StealthConnectionHandler_new remote src (px_allow_ips p)
          (px_max_conns_per_ip p) (px_cps_limit p), running = False\<rparr>"
    by (auto simp: instance_of_def and_then_Ok_iff ProxyInstance_new_Ok)
  from r obtain rip where "parse_ip host = Some rip" "remote = SocketAddr_new rip rport"
    by (auto simp: create_socket_addr_Ok)
  with f local_bind_ip_Ok [OF l] show ?thesis
    unfolding instance_matches_def i
    by (simp add: StealthConnectionHandler_new_def split: option.splits)
qed

text \<open>
  C25. Building creates one instance for each configured proxy, in order. Each listens on the
  proxy's own address, or on the server's when only a port is given, forwards to the remote
  address that was configured, carries the configured limits, and is not running.
\<close>

theorem build_instances:
  assumes "build b = Ok srv"
  shows "list_all2 (instance_matches (ps_bind_ip srv)) (proxy_configs b) (proxy_instances srv)
    \<and> ps_bind_ip srv = (case pb_bind_ip b of Some ip \<Rightarrow> ip | None \<Rightarrow> ipv4_localhost)"
proof -
  let ?ip = "case pb_bind_ip b of Some ip \<Rightarrow> ip | None \<Rightarrow> ipv4_localhost"
  from assms obtain "is" where
    l: "list_all2 (\<lambda>p i. instance_of ?ip p = Ok i) (proxy_configs b) is"
    and srv: "srv = \<lparr>ps_bind_ip = ?ip, proxy_instances = is\<rparr>"
    by (auto simp: build_def add_all_Ok_iff ProxyServer_new_def)
  from l have "list_all2 (instance_matches ?ip) (proxy_configs b) is"
    by (rule list_all2_mono) (rule instance_of_matches)
  with srv show ?thesis by simp
qed

definition sample_builder :: ProxyServerBuilder where
  "sample_builder = builder_add_proxies (proxies sample_config_validated) ProxyServerBuilder_new"

theorem build_instances_witness:
  "\<exists>srv. build sample_builder = Ok srv \<and> length (proxy_instances srv) = 1"
proof -
  have "\<exists>srv. build sample_builder = Ok srv"
    by (simp add: sample_builder_def builder_add_proxies_def ProxyServerBuilder_new_def
        sample_config_validated_def sample_config_def build_def add_proxy_def instance_of_def
        get_local_port_def get_local_ip_def get_remote_host_Ok get_remote_port_def rsplit_port_def
        parse_port_or_def create_socket_addr_def ProxyInstance_new_def eval_simps)
  then obtain srv where s: "build sample_builder = Ok srv" by blast
  from build_instances [OF s] have "length (proxy_configs sample_builder) = length (proxy_instances srv)"
    using list_all2_lengthD by blast
  with s show ?thesis
    by (simp add: sample_builder_def builder_add_proxies_def ProxyServerBuilder_new_def
        sample_config_validated_def)
qed

lemma parse_ip_localhost_name: "parse_ip ''localhost'' = None"
  by (simp add: eval_simps)

text \<open>
  Validation accepts proxies that cannot be built: a remote that is only a port passes every
  check of validation, and adding the proxy then always fails, because the host it stands for,
  \<open>localhost\<close>, is not an IP address.
\<close>

theorem bare_remote_port_cannot_be_added:
  fixes port :: u16
  assumes "port \<noteq> 0" "port_ok (get_local_port p)" "get_local_ip p = None" "source_ip_ok (px_source_ip p)"
  shows "proxy_ok (p\<lparr>px_remote := nat_to_string (unat port)\<rparr>)
    \<and> \<not> is_ok (add_proxy (p\<lparr>px_remote := nat_to_string (unat port)\<rparr>) srv)"
proof -
  let ?p = "p\<lparr>px_remote := nat_to_string (unat port)\<rparr>"
  have g: "get_local_port ?p = get_local_port p" "get_local_ip ?p = get_local_ip p"
    by (simp_all add: get_local_port_def get_local_ip_def)
  have r: "get_remote_port ?p = Ok port" "get_remote_host ?p = Ok ''localhost''"
    by (simp_all add: get_remote_port_def rsplit_port_bare get_remote_host_def colon_notin_nat)
  have "proxy_ok ?p" using assms by (simp add: proxy_ok_def g r port_ok_def)
  moreover obtain lp where "get_local_port p = Ok lp"
    using assms(2) by (auto simp: port_ok_def split: sum.splits)
  ultimately show ?thesis
    using assms(3)
    by (simp add: add_proxy_def instance_of_def g r create_socket_addr_def parse_ip_localhost_name)
qed

theorem bare_remote_port_cannot_be_added_witness:
  "proxy_ok ((hd (proxies sample_config))\<lparr>px_remote := nat_to_string (unat (80 :: u16))\<rparr>)
   \<and> \<not> is_ok (add_proxy ((hd (proxies sample_config))\<lparr>px_remote := nat_to_string (unat (80 :: u16))\<rparr>)
       (ProxyServer_new ipv4_localhost))"
proof (rule bare_remote_port_cannot_be_added)
  show "(80 :: u16) \<noteq> 0" by simp
  show "port_ok (get_local_port (hd (proxies sample_config)))"
    "get_local_ip (hd (proxies sample_config)) = None"
    "source_ip_ok (px_source_ip (hd (proxies sample_config)))"
    by (simp_all add: sample_config_def get_local_port_def get_local_ip_def parse_port_or_def
        port_ok_def source_ip_ok_def eval_simps)
qed

text \<open>
  While the server runs, its status counts no active instance: starting moves every
  instance into a task and leaves a placeholder that is never running, so the status shows
  the right total and always zero active. Starting also reports success whatever becomes of
  the instances, even when none can bind its port.
\<close>

theorem status_of_running_server:
  "total_instances (get_status (fst (start_instances srv))) = length (proxy_instances srv)
   \<and> active_instances (get_status (fst (start_instances srv))) = 0
   \<and> fst (proxy_server_start env evs srv) = Ok ()
   \<and> map connection_handler (proxy_instances (fst (start_instances srv)))
       = map connection_handler (proxy_instances srv)"
  by (simp add: start_instances_def get_status_def placeholder_from_def proxy_server_start_def
      filter_empty_conv comp_def)

end
