(* ===== verification/Runtime.thy ===== *)
theory Runtime
  imports Proxy_Server Reverse_Client
begin

text \<open>
  The runtime manager, \<^verbatim>\<open>src/src/config/runtime.rs\<close>, and the entry point, \<^verbatim>\<open>src/src/main.rs\<close>: which services
  a configuration starts, and with what result the program ends.

  \<open>env_token\<close> is the environment variable \<open>REVERSE_PROXY_TOKEN\<close>. \<open>joined\<close> is how the task that
  ends first was joined: \<open>None\<close> when it ran to its end, the text of the error when it
  panicked or was cancelled. Tasks print their own errors and return nothing.
\<close>

record RuntimeManager =
  rm_config :: ConfigFile
  config_path :: string

definition RuntimeManager_new ::
  "(string \<Rightarrow> TomlError + ConfigFile) \<Rightarrow> (string \<Rightarrow> bool) \<Rightarrow> (string \<Rightarrow> IoError + string)
   \<Rightarrow> string list \<Rightarrow> (LogEvent list \<times> (AppError + RuntimeManager)) option" where
  "RuntimeManager_new from_str exists_path read_file args =
     map_option
       (\<lambda>(evs, r). (evs, and_then r (\<lambda>(config, path). Ok \<lparr>rm_config = config, config_path = path\<rparr>)))
       (load_with_search from_str exists_path read_file args)"

text \<open>The lines about the search paths: number, whether the file exists, and path.\<close>

definition print_search_paths :: "(string \<Rightarrow> bool) \<Rightarrow> (nat \<times> bool \<times> string) list" where
  "print_search_paths exists_path = map (\<lambda>(i, p). (i + 1, exists_path p, p)) (enumerate 0 get_config_search_paths)"

datatype Service =
    ForwardProxy ProxyServer
  | ReverseServer ReverseProxyServer
  | ReverseClient ReverseProxyClient

definition debug_enabled :: "ConfigFile \<Rightarrow> bool" where
  "debug_enabled c = (case Option.bind (server c) debug of Some b \<Rightarrow> b | None \<Rightarrow> False)"

definition run_bind_ip :: "ConfigFile \<Rightarrow> AppError + IpAddr" where
  "run_bind_ip c =
     (case server c of
        Some server_section \<Rightarrow>
          (case bind_ip server_section of
             Some bind_ip_str \<Rightarrow> parse_ip_address bind_ip_str
           | None \<Rightarrow> Ok ipv4_unspecified)
      | None \<Rightarrow> Ok ipv4_unspecified)"

definition forward_service :: "IpAddr \<Rightarrow> ConfigFile \<Rightarrow> AppError + Service list" where
  "forward_service ip c =
     (if proxies c \<noteq> [] then
        and_then (build (builder_add_proxies (proxies c) (builder_bind_ip ip ProxyServerBuilder_new)))
          (\<lambda>forward_server. Ok [ForwardProxy forward_server])
      else Ok [])"

definition reverse_server_service :: "string option \<Rightarrow> IpAddr \<Rightarrow> ConfigFile \<Rightarrow> Service list" where
  "reverse_server_service env_token ip c =
     (case reverse_proxy_server c of
        Some server_config \<Rightarrow> [ReverseServer (ReverseProxyServer_new env_token ip (rs_port server_config))]
      | None \<Rightarrow> [])"

definition reverse_client_service :: "string option \<Rightarrow> ConfigFile \<Rightarrow> AppError + Service list" where
  "reverse_client_service env_token c =
     (case reverse_proxy_client c of
        Some rc_section \<Rightarrow>
          and_then
            (ok_or (Internal (''Invalid server address: '' @ rc_server rc_section))
               (parse_sockaddr (rc_server rc_section)))
            (\<lambda>addr. Ok [ReverseClient (ReverseProxyClient_new env_token addr c)])
      | None \<Rightarrow> Ok [])"

text \<open>
  \<open>run\<close>: the services whose tasks were spawned, and the result. An error found late leaves the
  tasks spawned before it behind.
\<close>

definition run ::
  "string option \<Rightarrow> string option \<Rightarrow> RuntimeManager \<Rightarrow> Service list \<times> (AppError + unit)" where
  "run env_token joined m =
     (let c = rm_config m in
      case run_bind_ip c of
        Inl e \<Rightarrow> ([], Err e)
      | Inr ip \<Rightarrow>
        (case forward_service ip c of
           Inl e \<Rightarrow> ([], Err e)
         | Inr forward \<Rightarrow>
           (let started = forward @ reverse_server_service env_token ip c in
            case reverse_client_service env_token c of
              Inl e \<Rightarrow> (started, Err e)
            | Inr client \<Rightarrow>
              (let handles = started @ client in
               if handles = [] then
                 ([], Err (Config (InvalidConfigValue ''config'' ''No services configured'')))
               else
                 (handles,
                  case joined of
                    None \<Rightarrow> Ok ()
                  | Some e \<Rightarrow> Err (Internal (''Service task failed: '' @ e)))))))"

text \<open>
  The program: what it prints last and its exit status. \<open>-g\<close> prints a fresh secret; the random
  bytes, the Base32 encoder and the QR code are arguments.
\<close>

datatype MainOutcome =
    SecretPrinted string string string
  | Finished
  | RuntimeFailed AppError
  | ConfigNotFound "string list"
  | StartupFailed AppError

definition exit_status :: "MainOutcome \<Rightarrow> nat" where
  "exit_status r =
     (case r of SecretPrinted _ _ _ \<Rightarrow> 0 | Finished \<Rightarrow> 0 | RuntimeFailed _ \<Rightarrow> 1
      | ConfigNotFound _ \<Rightarrow> 1 | StartupFailed _ \<Rightarrow> 1)"

definition print_secret :: "(bytes \<Rightarrow> string) \<Rightarrow> (string \<Rightarrow> string) \<Rightarrow> bytes \<Rightarrow> string option \<Rightarrow> MainOutcome" where
  "print_secret encode qr_code random label_opt =
     (let label = (case label_opt of Some l \<Rightarrow> l | None \<Rightarrow> ''user@gsc-fq'');
          (totp, secret_b32) = generate_random encode random;
          uri = generate_otpauth_uri encode totp label ''GSC-FQ''
      in SecretPrinted (qr_code uri) secret_b32 uri)"

definition main_program ::
  "(bytes \<Rightarrow> string) \<Rightarrow> (string \<Rightarrow> string) \<Rightarrow> bytes
   \<Rightarrow> (string \<Rightarrow> TomlError + ConfigFile) \<Rightarrow> (string \<Rightarrow> bool) \<Rightarrow> (string \<Rightarrow> IoError + string)
   \<Rightarrow> string option \<Rightarrow> string option \<Rightarrow> string list \<Rightarrow> MainOutcome option" where
  "main_program encode qr_code random from_str exists_path read_file env_token joined args =
     (if 1 < length args \<and> args ! 1 = ''-g'' then
        Some (print_secret encode qr_code random (if 2 < length args then Some (args ! 2) else None))
      else
        (case RuntimeManager_new from_str exists_path read_file args of
           None \<Rightarrow> None
         | Some (_, Inr manager) \<Rightarrow>
             (case snd (run env_token joined manager) of
                Inl e \<Rightarrow> Some (RuntimeFailed e)
              | Inr _ \<Rightarrow> Some Finished)
         | Some (_, Inl (Config (ConfigFileNotFound _))) \<Rightarrow> Some (ConfigNotFound get_config_search_paths)
         | Some (_, Inl e) \<Rightarrow> Some (StartupFailed e)))"

section \<open>Which configurations start\<close>

text \<open>The addresses of a forward proxy that validation does not look at.\<close>

definition forward_ready :: "ProxySection \<Rightarrow> bool" where
  "forward_ready p \<longleftrightarrow>
     (case get_local_ip p of None \<Rightarrow> True | Some t \<Rightarrow> parse_ip (trim t) \<noteq> None)
     \<and> (case get_remote_host p of Inl _ \<Rightarrow> False | Inr host \<Rightarrow> parse_ip host \<noteq> None)"

fun service_kind :: "Service \<Rightarrow> string" where
  "service_kind (ForwardProxy _) = ''forward''"
| "service_kind (ReverseServer _) = ''server''"
| "service_kind (ReverseClient _) = ''client''"

definition configured_services :: "ConfigFile \<Rightarrow> string list" where
  "configured_services c =
     (if proxies c = [] then [] else [''forward''])
     @ (if reverse_proxy_server c = None then [] else [''server''])
     @ (if reverse_proxy_client c = None then [] else [''client''])"

lemma instance_of_ok_iff:
  assumes "proxy_ok p" "\<forall>x. px_source_ip p = Some x \<longrightarrow> parse_ip (trim x) \<noteq> None"
  shows "is_ok (instance_of d p) \<longleftrightarrow> forward_ready p"
proof -
  from assms(1) obtain lp rp where p: "get_local_port p = Ok lp" "get_remote_port p = Ok rp"
    by (auto simp: proxy_ok_def port_ok_def split: sum.splits)
  show ?thesis
    using assms(2)
    by (auto simp: instance_of_def p forward_ready_def get_remote_host_Ok parse_ip_address_def
        create_socket_addr_def ok_or_def ProxyInstance_new_def Let_def split: option.splits)
qed

lemma add_all_ok_iff:
  "is_ok (add_all ps srv) \<longleftrightarrow> list_all (\<lambda>p. is_ok (instance_of (ps_bind_ip srv) p)) ps"
proof (induction ps arbitrary: srv)
  case (Cons p ps)
  then show ?case by (cases "instance_of (ps_bind_ip srv) p") (simp_all add: add_proxy_def)
qed simp

lemma validated_proxies:
  assumes "validate c0 = (Ok ws, c)" "p \<in> set (proxies c)"
  shows "proxy_ok p" "\<forall>x. px_source_ip p = Some x \<longrightarrow> parse_ip (trim x) \<noteq> None"
proof -
  from validate_normal [OF assms(1)] obtain n where "validate c = (Ok (drop n ws), c)"
    and s: "\<forall>p \<in> set (proxies c). \<forall>x. px_source_ip p = Some x \<longrightarrow> parse_ip (trim x) \<noteq> None" by blast
  then have "config_ok c" using validate_ok_iff [of c] by simp
  with assms(2) show "proxy_ok p" by (simp add: config_ok_def list_all_iff)
  from s assms(2) show "\<forall>x. px_source_ip p = Some x \<longrightarrow> parse_ip (trim x) \<noteq> None" by blast
qed

lemma validate_server_fixed_bind:
  assumes v: "validate_server so = ([], w, so)" and b: "Option.bind so bind_ip = Some b"
  shows "parse_ip (trim b) \<noteq> None"
proof -
  from b obtain srv where so: "so = Some srv" "bind_ip srv = Some b" by (cases so) auto
  have "trim ''127.0.0.1'' \<noteq> []" by (simp add: eval_simps)
  then have "trim b \<noteq> []"
    using v so by (auto simp: validate_server_def dest!: bind_ip_update_id)
  with v so show ?thesis by (auto simp: validate_server_def Let_def split: if_splits)
qed

lemma validated_bind_ip:
  assumes "validate c0 = (Ok ws, c)"
  obtains ip where "run_bind_ip c = Ok ip"
proof -
  from validate_normal [OF assms] obtain n where "validate c = (Ok (drop n ws), c)" by blast
  then obtain w where "validate_server (server c) = ([], w, server c)"
    by (cases c) (auto simp: validate_def Let_def split: prod.splits if_splits)
  from validate_server_fixed_bind [OF this] have "is_ok (run_bind_ip c)"
    by (auto simp: run_bind_ip_def parse_ip_address_def ok_or_def Let_def split: option.splits)
  with that show thesis by (cases "run_bind_ip c") auto
qed

lemma forward_service_ok_iff:
  assumes "validate c0 = (Ok ws, c)"
  shows "is_ok (forward_service ip c) \<longleftrightarrow> list_all forward_ready (proxies c)"
proof -
  have "is_ok (build (builder_add_proxies (proxies c) (builder_bind_ip ip ProxyServerBuilder_new)))
      \<longleftrightarrow> list_all forward_ready (proxies c)"
    using validated_proxies [OF assms] instance_of_ok_iff
    by (simp add: build_def builder_add_proxies_def builder_bind_ip_def ProxyServerBuilder_new_def
        add_all_ok_iff ProxyServer_new_def list_all_iff)
  then show ?thesis
    by (cases "build (builder_add_proxies (proxies c) (builder_bind_ip ip ProxyServerBuilder_new))")
       (auto simp: forward_service_def)
qed

lemma forward_service_kinds:
  "forward_service ip c = Ok s \<Longrightarrow> map service_kind s = (if proxies c = [] then [] else [''forward''])"
  by (auto simp: forward_service_def and_then_Ok_iff split: if_splits)

lemma reverse_client_service_cases:
  "(case reverse_client_service env c of
      Inl _ \<Rightarrow> \<exists>cc. reverse_proxy_client c = Some cc \<and> parse_sockaddr (rc_server cc) = None
    | Inr s \<Rightarrow> map service_kind s = (if reverse_proxy_client c = None then [] else [''client''])
        \<and> (\<forall>cc. reverse_proxy_client c = Some cc \<longrightarrow> parse_sockaddr (rc_server cc) \<noteq> None))"
  by (auto simp: reverse_client_service_def ok_or_def split: option.splits)

text \<open>
  C22. A validated configuration starts, unless an address that validation does not look at is
  no IP address, or it configures no service: the bind address never fails. When it starts,
  the tasks are exactly those of the configured sections, in order, and the result is then
  decided by the first task to end alone, so a service that ends with an error still makes the
  run succeed.
\<close>

theorem validated_config_starts:
  assumes "validate c0 = (Ok ws, c)"
  shows "(is_ok (snd (run env None \<lparr>rm_config = c, config_path = path\<rparr>)) \<longleftrightarrow>
      list_all forward_ready (proxies c)
      \<and> (case reverse_proxy_client c of None \<Rightarrow> True | Some cc \<Rightarrow> parse_sockaddr (rc_server cc) \<noteq> None)
      \<and> configured_services c \<noteq> [])
    \<and> (is_ok (snd (run env None \<lparr>rm_config = c, config_path = path\<rparr>)) \<longrightarrow>
      map service_kind (fst (run env joined \<lparr>rm_config = c, config_path = path\<rparr>)) = configured_services c)"
proof -
  obtain ip where ip: "run_bind_ip c = Ok ip" by (rule validated_bind_ip [OF assms])
  have srv: "map service_kind (reverse_server_service env ip c)
      = (if reverse_proxy_server c = None then [] else [''server''])"
    by (simp add: reverse_server_service_def split: option.splits)
  show ?thesis
  proof (cases "forward_service ip c")
    case (Inl e)
    with forward_service_ok_iff [OF assms, of ip] ip show ?thesis by (simp add: run_def)
  next
    case f: (Inr fwd)
    with forward_service_ok_iff [OF assms, of ip] have l: "list_all forward_ready (proxies c)" by simp
    show ?thesis
    proof (cases "reverse_client_service env c")
      case (Inl e)
      with reverse_client_service_cases [of c env] f ip show ?thesis by (auto simp: run_def)
    next
      case (Inr cl)
      have k: "map service_kind (fwd @ reverse_server_service env ip c @ cl) = configured_services c"
        using forward_service_kinds [OF f] srv reverse_client_service_cases [of c env] Inr
        by (simp add: configured_services_def)
      then have e: "fwd @ reverse_server_service env ip c @ cl = [] \<longleftrightarrow> configured_services c = []"
        by (metis map_is_Nil_conv)
      have "run env j \<lparr>rm_config = c, config_path = path\<rparr> =
         (if fwd @ reverse_server_service env ip c @ cl = []
          then ([], Err (Config (InvalidConfigValue ''config'' ''No services configured'')))
          else (fwd @ reverse_server_service env ip c @ cl,
                case j of None \<Rightarrow> Ok () | Some e \<Rightarrow> Err (Internal (''Service task failed: '' @ e))))" for j
        by (simp only: run_def ip f Inr Let_def sum.case RuntimeManager.select_convs append_assoc)
      then show ?thesis
        using k e l reverse_client_service_cases [of c env] Inr by (auto split: option.splits)
    qed
  qed
qed

lemma sample_forward_ready: "list_all forward_ready (proxies sample_config_validated)"
  by (simp add: sample_config_validated_def sample_config_def forward_ready_def get_local_ip_def
      get_remote_host_Ok eval_simps)

theorem validated_config_starts_witness:
  "map service_kind (fst (run None (Some ''panic'') \<lparr>rm_config = sample_config_validated, config_path = ''default.toml''\<rparr>))
     = [''forward'']"
proof -
  have "reverse_proxy_client sample_config_validated = None"
    "configured_services sample_config_validated = [''forward'']"
    by (simp_all add: configured_services_def sample_config_validated_def sample_config_def)
  with validated_config_starts [OF validate_sample_config, of None "''default.toml''" "Some ''panic''"]
    sample_forward_ready
  show ?thesis by simp
qed

section \<open>Who may connect to the reverse server\<close>

text \<open>
  The reverse server that \<open>run\<close> starts knows no allowed token and no TOTP secret, whatever
  its section of the file says. Without the environment variable it accepts every well-formed
  hello, with any token and any code; with the variable it accepts a hello only with that token.
\<close>

theorem reverse_server_ignores_section:
  assumes started: "ReverseServer s \<in> set (fst (run env joined m))"
    and j: "json lib cfgs = Ok j" and cfgs: "cfgs \<noteq> []"
  shows "check_hello lib s now addr 1 tok code cfgs (sha256_hex lib j) =
      (if env = None \<or> env = Some tok then Some (Accept (accept_hello now addr cfgs))
       else Some (Refuse (server_hello InvalidToken ''Invalid or missing authentication token'')
                         (ReverseProxy (HandshakeFailed ''Authentication failed (Token)''))))"
proof -
  have "ReverseServer s \<notin> set fwd" if "forward_service ip c = Ok fwd" for ip c fwd
    using forward_service_kinds [OF that] by (auto split: if_splits)
  moreover have "ReverseServer s \<notin> set cl" if "reverse_client_service env c = Ok cl" for c cl
    using reverse_client_service_cases [of c env] that by (auto split: if_splits)
  ultimately obtain ip port where "s = ReverseProxyServer_new env ip port"
    using started
    by (auto simp: run_def reverse_server_service_def Let_def split: sum.splits option.splits if_splits)
  with j cfgs show ?thesis
    by (auto simp: ReverseProxyServer_new_def check_hello_def token_valid_def totp_valid_def
        PROTOCOL_VERSION_def split: option.splits)
qed

definition sample_server_config :: ConfigFile where
  "sample_server_config =
     \<lparr>server = None, proxies = [], token = None, totp_secret = None, reverse_proxies = [],
      reverse_proxy_server = Some \<lparr>rs_port = 9001, rs_allowed_tokens = [''good''], rs_totp_secret = Some ''JBSWY3DP''\<rparr>,
      reverse_proxy_client = None\<rparr>"

theorem reverse_server_ignores_section_witness:
  "check_hello sample_lib (ReverseProxyServer_new None ipv4_unspecified 9001) 110
      (SocketAddr_new ipv4_localhost 5000) 1 ''bad'' None [sample_rp_config] ''hj'' =
     Some (Accept (accept_hello 110 (SocketAddr_new ipv4_localhost 5000) [sample_rp_config]))"
proof -
  have "ReverseServer (ReverseProxyServer_new None ipv4_unspecified 9001)
      \<in> set (fst (run None None \<lparr>rm_config = sample_server_config, config_path = ''default.toml''\<rparr>))"
    by (simp add: run_def sample_server_config_def run_bind_ip_def forward_service_def
        reverse_server_service_def reverse_client_service_def)
  from reverse_server_ignores_section [OF this, of sample_lib "[sample_rp_config]"]
  show ?thesis by (simp add: sample_lib_def)
qed

end
