(* ===== verification/Rust_Path.thy ===== *)
theory Rust_Path
  imports Rust_Str
begin

text \<open>
  Paths of Unix as the standard library takes them apart: \<open>Path::parent\<close>, \<open>file_name\<close> and \<open>file_stem\<close>. Trailing
  separators and \<open>.\<close> components do not count; the root and the empty path have no parent.
\<close>

text \<open>On the reversed path.\<close>

fun trim_rev_path :: "string \<Rightarrow> string" where
  "trim_rev_path (c # d # cs) =
     (if c = CHR ''/'' then trim_rev_path (d # cs)
      else if c = CHR ''.'' \<and> d = CHR ''/'' then trim_rev_path (d # cs)
      else c # d # cs)"
| "trim_rev_path cs = cs"

definition path_parent :: "string \<Rightarrow> string option" where
  "path_parent p =
     (let r = trim_rev_path (rev p) in
      if r = [] \<or> r = ''/'' then None
      else Some (rev (trim_rev_path (dropWhile (\<lambda>c. c \<noteq> CHR ''/'') r))))"

definition file_name :: "string \<Rightarrow> string option" where
  "file_name p =
     (let f = rev (takeWhile (\<lambda>c. c \<noteq> CHR ''/'') (trim_rev_path (rev p)))
      in if f \<in> {[], ''.'', ''..''} then None else Some f)"

text \<open>The part before the last dot, unless that is empty.\<close>

definition stem_of :: "string \<Rightarrow> string" where
  "stem_of f =
     (let before = rev (tl (dropWhile (\<lambda>c. c \<noteq> CHR ''.'') (rev f)))
      in if CHR ''.'' \<notin> set f \<or> before = [] then f else before)"

definition file_stem :: "string \<Rightarrow> string option" where
  "file_stem p = map_option stem_of (file_name p)"

section \<open>Lemmas\<close>

lemma trim_rev_path_id: "c \<noteq> CHR ''/'' \<Longrightarrow> c \<noteq> CHR ''.'' \<Longrightarrow> trim_rev_path (c # cs) = c # cs"
  by (cases cs) simp_all

lemma trim_rev_path_name:
  "f \<noteq> [] \<Longrightarrow> CHR ''/'' \<notin> set f \<Longrightarrow> f \<noteq> ''.'' \<Longrightarrow>
   trim_rev_path (rev f @ CHR ''/'' # cs) = rev f @ CHR ''/'' # cs"
  by (cases f rule: rev_cases; cases "butlast f" rule: rev_cases) auto

lemma path_parent_file:
  assumes "d \<noteq> []" "last d \<noteq> CHR ''/''" "last d \<noteq> CHR ''.''"
    and f: "f \<noteq> []" "CHR ''/'' \<notin> set f" "f \<noteq> ''.''"
  shows "path_parent (d @ ''/'' @ f) = Some d"
proof -
  have r: "trim_rev_path (rev (d @ ''/'' @ f)) = rev f @ CHR ''/'' # rev d"
    using trim_rev_path_name [OF f] by simp
  have d: "dropWhile (\<lambda>c. c \<noteq> CHR ''/'') (rev f @ CHR ''/'' # rev d) = CHR ''/'' # rev d"
    by (subst dropWhile_append2) (use f(2) in auto)
  have t: "trim_rev_path (CHR ''/'' # rev d) = rev d"
    using assms(1-3) by (cases d rule: rev_cases) (simp_all add: trim_rev_path_id)
  from f(1) have "rev f @ CHR ''/'' # rev d \<noteq> ''/''" by (cases "rev f") auto
  then show ?thesis by (simp only: path_parent_def r Let_def d t) simp
qed

lemma file_name_file:
  assumes "f \<noteq> []" "CHR ''/'' \<notin> set f" "f \<noteq> ''.''" "f \<noteq> ''..''"
  shows "file_name (d @ ''/'' @ f) = Some f"
proof -
  have "trim_rev_path (rev (d @ ''/'' @ f)) = rev f @ CHR ''/'' # rev d"
    using trim_rev_path_name [OF assms(1-3)] by simp
  moreover have "takeWhile (\<lambda>c. c \<noteq> CHR ''/'') (rev f @ CHR ''/'' # rev d) = rev f"
    by (subst takeWhile_append2) (use assms(2) in auto)
  ultimately show ?thesis using assms by (simp add: file_name_def)
qed

lemma stem_of_dot: "b \<noteq> [] \<Longrightarrow> CHR ''.'' \<notin> set e \<Longrightarrow> stem_of (b @ ''.'' @ e) = b"
proof -
  assume b: "b \<noteq> []" and e: "CHR ''.'' \<notin> set e"
  have "dropWhile (\<lambda>c. c \<noteq> CHR ''.'') (rev e @ CHR ''.'' # rev b) = CHR ''.'' # rev b"
    by (subst dropWhile_append2) (use e in auto)
  with b show ?thesis by (simp add: stem_of_def)
qed

end
