(* ===== verification/Service.thy ===== *)
theory Service
  imports Runtime Copy_Loops Transition Rust_Path
begin

text \<open>
  Service management, \<^verbatim>\<open>src/src/service/manager.rs\<close> and \<^verbatim>\<open>cli.rs\<close>: installing, removing, starting and
  stopping the program as a service of the operating system, the commands of the command line, and
  the mode in which the service runs.

  The service manager (the crate \<open>service-manager\<close>), the crate \<open>daemonize\<close>, the directories and the
  processes of the host are the record \<open>Platform\<close> of functions on a state \<open>'w\<close> of the host. The state
  is threaded together with the list of what the commands printed. \<open>install\<close> is that of a Unix build.
\<close>

section \<open>The host\<close>

record ServiceConfig =
  sc_name :: string
  display_name :: string
  sc_description :: "string option"
  exec_path :: string
  sc_args :: "string list"
  working_dir :: string
  sc_user :: "string option"
  sc_group :: "string option"
  sc_environment :: "(string \<times> string) list"
  autostart :: bool
  sc_stdout :: "string option"
  sc_stderr :: "string option"

text \<open>The sources tell apart one variant of the errors of the service manager; each has a text.\<close>

datatype ServiceError =
    ServiceNotFound (service_error_text: string)
  | OtherServiceError (service_error_text: string)

record Daemonize =
  pid_file :: string
  working_directory :: string
  daemon_user :: string
  daemon_group :: string

text \<open>\<open>os_status\<close> is the status of a service, or rather what \<open>is_active\<close> says of it.\<close>

record 'w Platform =
  build_manager :: "ServiceError + unit"
  os_install :: "ServiceConfig \<Rightarrow> 'w \<Rightarrow> 'w \<times> (ServiceError + unit)"
  os_remove :: "string \<Rightarrow> 'w \<Rightarrow> 'w \<times> (ServiceError + unit)"
  os_start :: "string \<Rightarrow> 'w \<Rightarrow> 'w \<times> (ServiceError + unit)"
  os_stop :: "string \<Rightarrow> 'w \<Rightarrow> 'w \<times> (ServiceError + unit)"
  os_status :: "string \<Rightarrow> 'w \<Rightarrow> ServiceError + bool"
  create_dir_all :: "string \<Rightarrow> 'w \<Rightarrow> 'w \<times> (IoError + unit)"
  command_status :: "string list \<Rightarrow> 'w \<Rightarrow> 'w \<times> (IoError + int)"
  open_append :: "string \<Rightarrow> 'w \<Rightarrow> 'w \<times> (IoError + unit)"
  daemon_start :: "Daemonize \<Rightarrow> 'w \<Rightarrow> 'w \<times> (string + unit)"
  current_exe :: "IoError + string"

datatype ServiceStatus = NotInstalled | Stopped | Running

datatype Report =
    ServiceInstalled string string string
  | ServiceUninstalled
  | ServiceStarted
  | ServiceStopped
  | ServiceRestarted
  | StatusShown ServiceStatus
  | PathsShown string string
  | UnknownCommand string
  | HelpShown string string
  | DaemonStarted

type_synonym 'w console = "'w \<times> Report list"
type_synonym ('w, 'a) action = "'w console \<Rightarrow> 'w console \<times> (AppError + 'a)"

definition act_return :: "'a \<Rightarrow> ('w, 'a) action" where
  "act_return a s = (s, Ok a)"

definition act_bind :: "('w, 'a) action \<Rightarrow> ('a \<Rightarrow> ('w, 'b) action) \<Rightarrow> ('w, 'b) action" where
  "act_bind m f s = (case m s of (t, Inl e) \<Rightarrow> (t, Err e) | (t, Inr a) \<Rightarrow> f a t)"

definition say :: "Report list \<Rightarrow> ('w, unit) action" where
  "say rs s = ((fst s, snd s @ rs), Ok ())"

text \<open>A call to the host whose error becomes an \<open>AppError\<close>, and an observation of it.\<close>

definition host :: "('e \<Rightarrow> AppError) \<Rightarrow> ('w \<Rightarrow> 'w \<times> ('e + 'a)) \<Rightarrow> ('w, 'a) action" where
  "host conv f s = (case f (fst s) of (w, r) \<Rightarrow> ((w, snd s), map_err conv r))"

definition observe :: "('w \<Rightarrow> AppError + 'a) \<Rightarrow> ('w, 'a) action" where
  "observe f s = (s, f (fst s))"

definition failed_to :: "string \<Rightarrow> ServiceError \<Rightarrow> AppError" where
  "failed_to what e = Internal (what @ '': '' @ service_error_text e)"

section \<open>Paths\<close>

text \<open>\<open>PathBuf::join\<close> with a relative path.\<close>

definition is_windows_drive :: "string \<Rightarrow> bool" where
  "is_windows_drive p \<longleftrightarrow>
     length p = 2 \<and> p ! 1 = CHR '':''
     \<and> (of_char (hd p) \<in> {65..(90::nat)} \<or> of_char (hd p) \<in> {97..(122::nat)})"

definition path_join :: "OS \<Rightarrow> string \<Rightarrow> string \<Rightarrow> string" where
  "path_join os base p =
     (let slash = CHR ''/''; back = CHR 0x5C; sep = (if os = Windows then back else slash) in
      if base = [] \<or> last base = slash \<or> os = Windows \<and> (last base = back \<or> is_windows_drive base)
      then base @ p else base @ [sep] @ p)"

text \<open>
  The log and configuration directories. \<open>env\<close> is the environment. On macOS the first of the two
  \<open>return\<close> statements compiled in, that for Unix, is taken.
\<close>

definition get_log_path :: "OS \<Rightarrow> (string \<Rightarrow> string option) \<Rightarrow> string" where
  "get_log_path os env =
     (if os = Windows then
        (let sub = ''gsc-fq'' @ CHR 0x5C # ''logs'' in
         case env ''ProgramData'' of
           Some p \<Rightarrow> path_join os p sub
         | None \<Rightarrow> ''C:'' @ CHR 0x5C # ''ProgramData'' @ CHR 0x5C # sub)
      else ''/var/log/gsc-fq'')"

definition get_config_path :: "OS \<Rightarrow> (string \<Rightarrow> string option) \<Rightarrow> string" where
  "get_config_path os env =
     (if os = Windows then
        (let sub = ''gsc-fq'' @ CHR 0x5C # ''config'' in
         case env ''ProgramData'' of
           Some p \<Rightarrow> path_join os p sub
         | None \<Rightarrow> ''C:'' @ CHR 0x5C # ''ProgramData'' @ CHR 0x5C # sub)
      else ''/etc/gsc-fq'')"

section \<open>The manager\<close>

text \<open>The manager holds the name of the service, and the operating system and environment it was built for.\<close>

record GscFqServiceManager =
  service_name :: string
  sm_os :: OS
  sm_env :: "string \<Rightarrow> string option"

abbreviation log_path :: "GscFqServiceManager \<Rightarrow> string" where
  "log_path m \<equiv> get_log_path (sm_os m) (sm_env m)"

abbreviation conf_path :: "GscFqServiceManager \<Rightarrow> string" where
  "conf_path m \<equiv> get_config_path (sm_os m) (sm_env m)"

definition GscFqServiceManager_new ::
  "'w Platform \<Rightarrow> OS \<Rightarrow> (string \<Rightarrow> string option) \<Rightarrow> AppError + GscFqServiceManager" where
  "GscFqServiceManager_new p os env =
     and_then (map_err (failed_to ''Failed to create service manager'') (build_manager p))
       (\<lambda>_. Ok \<lparr>service_name = ''gsc-fq'', sm_os = os, sm_env = env\<rparr>)"

definition service_config :: "GscFqServiceManager \<Rightarrow> string \<Rightarrow> ServiceConfig" where
  "service_config m exe_path =
     \<lparr>sc_name = service_name m,
      display_name = ''GSC-FQ High-Performance TCP Proxy'',
      sc_description = Some ''GSC-FQ TCP proxy service for high-performance network forwarding'',
      exec_path = exe_path,
      sc_args = [''service-mode''],
      working_dir = (case path_parent exe_path of Some d \<Rightarrow> d | None \<Rightarrow> ''/''),
      sc_user = None,
      sc_group = None,
      sc_environment = [(''RUST_LOG'', ''info'')],
      autostart = True,
      sc_stdout = Some (path_join (sm_os m) (log_path m) ''gsc-fq.log''),
      sc_stderr = Some (path_join (sm_os m) (log_path m) ''gsc-fq.err'')\<rparr>"

definition install :: "'w Platform \<Rightarrow> GscFqServiceManager \<Rightarrow> string \<Rightarrow> ('w, unit) action" where
  "install p m exe_path =
     act_bind (host (failed_to ''Failed to install service'') (os_install p (service_config m exe_path)))
       (\<lambda>_. say [ServiceInstalled (service_name m) exe_path (log_path m)])"

definition start :: "'w Platform \<Rightarrow> GscFqServiceManager \<Rightarrow> ('w, unit) action" where
  "start p m =
     act_bind (host (failed_to ''Failed to start service'') (os_start p (service_name m)))
       (\<lambda>_. say [ServiceStarted])"

definition stop :: "'w Platform \<Rightarrow> GscFqServiceManager \<Rightarrow> ('w, unit) action" where
  "stop p m =
     act_bind (host (failed_to ''Failed to stop service'') (os_stop p (service_name m)))
       (\<lambda>_. say [ServiceStopped])"

definition restart :: "'w Platform \<Rightarrow> GscFqServiceManager \<Rightarrow> ('w, unit) action" where
  "restart p m =
     act_bind (stop p m) (\<lambda>_. act_bind (start p m) (\<lambda>_. say [ServiceRestarted]))"

definition is_installed :: "'w Platform \<Rightarrow> GscFqServiceManager \<Rightarrow> ('w, bool) action" where
  "is_installed p m =
     observe (\<lambda>w. case os_status p (service_name m) w of
        Inr _ \<Rightarrow> Ok True
      | Inl (ServiceNotFound _) \<Rightarrow> Ok False
      | Inl e \<Rightarrow> Err (failed_to ''Failed to check service status'' e))"

definition is_running :: "'w Platform \<Rightarrow> GscFqServiceManager \<Rightarrow> ('w, bool) action" where
  "is_running p m =
     observe (\<lambda>w. case os_status p (service_name m) w of
        Inr active \<Rightarrow> Ok active
      | Inl (ServiceNotFound _) \<Rightarrow> Ok False
      | Inl e \<Rightarrow> Err (failed_to ''Failed to check service status'' e))"

definition uninstall :: "'w Platform \<Rightarrow> GscFqServiceManager \<Rightarrow> ('w, unit) action" where
  "uninstall p m =
     act_bind (is_running p m) (\<lambda>running.
       act_bind (if running then stop p m else act_return ()) (\<lambda>_.
         act_bind (host (failed_to ''Failed to uninstall service'') (os_remove p (service_name m)))
           (\<lambda>_. say [ServiceUninstalled])))"

definition service_status :: "'w Platform \<Rightarrow> GscFqServiceManager \<Rightarrow> ('w, ServiceStatus) action" where
  "service_status p m =
     act_bind (is_installed p m) (\<lambda>installed.
       if \<not> installed then act_return NotInstalled
       else observe (\<lambda>w. case os_status p (service_name m) w of
          Inr active \<Rightarrow> Ok (if active then Running else Stopped)
        | Inl (ServiceNotFound _) \<Rightarrow> Ok NotInstalled
        | Inl e \<Rightarrow> Err (failed_to ''Failed to get service status'' e)))"

text \<open>The result of \<open>chmod\<close> is whether it could be started; its exit status is not looked at.\<close>

definition ensure_log_directory :: "'w Platform \<Rightarrow> GscFqServiceManager \<Rightarrow> ('w, unit) action" where
  "ensure_log_directory p m =
     act_bind
       (host (\<lambda>e. Internal (''Failed to create log directory '' @ quoted (log_path m) @ '': '' @ io_text e))
          (create_dir_all p (log_path m)))
       (\<lambda>_. if sm_os m = Windows then act_return ()
            else act_bind
              (host (\<lambda>e. Internal (''Failed to set log directory permissions: '' @ io_text e))
                 (command_status p [''chmod'', ''755'', log_path m]))
              (\<lambda>_. act_return ()))"

definition ensure_config_directory :: "'w Platform \<Rightarrow> GscFqServiceManager \<Rightarrow> ('w, unit) action" where
  "ensure_config_directory p m =
     host (\<lambda>e. Internal (''Failed to create config directory '' @ quoted (conf_path m) @ '': '' @ io_text e))
       (create_dir_all p (conf_path m))"

fun as_str :: "ServiceStatus \<Rightarrow> string" where
  "as_str NotInstalled = ''not installed''"
| "as_str Stopped = ''stopped''"
| "as_str Running = ''running''"

text \<open>The emoji, in UTF-8.\<close>

fun emoji :: "ServiceStatus \<Rightarrow> string" where
  "emoji NotInstalled = [CHR 0xE2, CHR 0x9D, CHR 0x8C]"
| "emoji Stopped = [CHR 0xE2, CHR 0x8F, CHR 0xB8, CHR 0xEF, CHR 0xB8, CHR 0x8F]"
| "emoji Running = [CHR 0xE2, CHR 0x9C, CHR 0x85]"

text \<open>\<open>run_as_daemon\<close>: the log files are opened before the process is detached.\<close>

definition run_as_daemon :: "'w Platform \<Rightarrow> OS \<Rightarrow> ('w, unit) action" where
  "run_as_daemon p os =
     (if os = Windows then
        (\<lambda>s. (s, Err (Internal (''Daemon mode is only supported on Unix-like systems. ''
                 @ ''Use service management instead.''))))
      else
        act_bind (host Io (open_append p ''/var/log/gsc-fq/gsc-fq.log'')) (\<lambda>_.
        act_bind (host Io (open_append p ''/var/log/gsc-fq/gsc-fq.err'')) (\<lambda>_.
        act_bind
          (host (\<lambda>e. Internal (''Failed to daemonize: '' @ e))
             (daemon_start p \<lparr>pid_file = ''/tmp/gsc-fq.pid'', working_directory = ''/'',
                daemon_user = ''gsc-fq'', daemon_group = ''gsc-fq''\<rparr>)) (\<lambda>_.
        say [DaemonStarted]))))"

section \<open>The commands\<close>

datatype CommandEnd = ProcessExit nat | Returned "AppError + unit"

definition print_service_help :: "'w Platform \<Rightarrow> OS \<Rightarrow> (string \<Rightarrow> string option) \<Rightarrow> Report" where
  "print_service_help p os env =
     (case GscFqServiceManager_new p os env of
        Inr m \<Rightarrow> HelpShown (conf_path m) (log_path m)
      | Inl _ \<Rightarrow> HelpShown ''N/A'' ''N/A'')"

definition service_command :: "'w Platform \<Rightarrow> GscFqServiceManager \<Rightarrow> string \<Rightarrow> ('w, unit) action option" where
  "service_command p m cmd =
     (if cmd = ''install'' then Some (
        act_bind (observe (\<lambda>_. map_err
            (\<lambda>e. Internal (''Failed to get current executable path: '' @ io_text e)) (current_exe p))) (\<lambda>exe.
        act_bind (ensure_log_directory p m) (\<lambda>_.
        act_bind (ensure_config_directory p m) (\<lambda>_.
        install p m exe))))
      else if cmd = ''uninstall'' then Some (uninstall p m)
      else if cmd = ''start'' then Some (start p m)
      else if cmd = ''stop'' then Some (stop p m)
      else if cmd = ''restart'' then Some (restart p m)
      else if cmd = ''status'' then Some (
        act_bind (service_status p m) (\<lambda>status.
        say (StatusShown status #
             (if status = Running then [PathsShown (conf_path m) (log_path m)] else []))))
      else None)"

definition handle_service_command ::
  "'w Platform \<Rightarrow> OS \<Rightarrow> (string \<Rightarrow> string option) \<Rightarrow> string \<Rightarrow> 'w console \<Rightarrow> 'w console \<times> CommandEnd" where
  "handle_service_command p os env cmd s =
     (case GscFqServiceManager_new p os env of
        Inl e \<Rightarrow> (s, Returned (Err e))
      | Inr m \<Rightarrow>
        (case service_command p m cmd of
           Some action \<Rightarrow> (case action s of (t, r) \<Rightarrow> (t, Returned r))
         | None \<Rightarrow>
           ((fst s, snd s @ [UnknownCommand cmd, print_service_help p os env]), ProcessExit 1)))"

text \<open>
  Service mode: the configuration is loaded, the log directory created and the configured services
  run. \<open>None\<close> is a panic of the loader.
\<close>

definition run_service_mode ::
  "'w Platform \<Rightarrow> OS \<Rightarrow> (string \<Rightarrow> string option)
   \<Rightarrow> (string \<Rightarrow> TomlError + ConfigFile) \<Rightarrow> (string \<Rightarrow> bool) \<Rightarrow> (string \<Rightarrow> IoError + string)
   \<Rightarrow> string option \<Rightarrow> string option \<Rightarrow> string list \<Rightarrow> 'w console
   \<Rightarrow> ('w console \<times> Service list \<times> (AppError + unit)) option" where
  "run_service_mode p os env from_str exists_path read_file env_token joined args s =
     (case RuntimeManager_new from_str exists_path read_file args of
        None \<Rightarrow> None
      | Some (_, Inl e) \<Rightarrow> Some (s, [], Err e)
      | Some (_, Inr runtime) \<Rightarrow>
          (case GscFqServiceManager_new p os env of
             Inl e \<Rightarrow> Some (s, [], Err e)
           | Inr m \<Rightarrow>
               (case ensure_log_directory p m s of
                  (t, Inl e) \<Rightarrow> Some (t, [], Err e)
                | (t, Inr _) \<Rightarrow> Some (t, run env_token joined runtime))))"

section \<open>Specification of the commands\<close>

text \<open>
  What is documented of the service manager of a host, for the service of this program.
  \<open>view w\<close> is the status of the service in the state \<open>w\<close> of the host: a query reports it, a call
  that succeeds has its effect, a call that fails has none, and creating directories or running
  \<open>chmod\<close> has none. Only an installed service can be started, stopped or removed.
\<close>

definition host_call ::
  "('w \<Rightarrow> ServiceStatus) \<Rightarrow> ('w \<Rightarrow> 'w \<times> ('e + 'a)) \<Rightarrow> (ServiceStatus \<Rightarrow> ServiceStatus option) \<Rightarrow> bool" where
  "host_call view f goal \<longleftrightarrow>
     (\<forall>w. case f w of
        (w', Inl _) \<Rightarrow> view w' = view w
      | (w', Inr _) \<Rightarrow> goal (view w) = Some (view w'))"

definition to_if_installed :: "ServiceStatus \<Rightarrow> ServiceStatus \<Rightarrow> ServiceStatus option" where
  "to_if_installed t s = (if s = NotInstalled then None else Some t)"

definition platform_ok :: "'w Platform \<Rightarrow> ('w \<Rightarrow> ServiceStatus) \<Rightarrow> bool" where
  "platform_ok p view \<longleftrightarrow>
     (\<forall>w. case os_status p ''gsc-fq'' w of
        Inr active \<Rightarrow> view w = (if active then Running else Stopped)
      | Inl (ServiceNotFound _) \<Rightarrow> view w = NotInstalled
      | Inl (OtherServiceError _) \<Rightarrow> True)
     \<and> (\<forall>c. sc_name c = ''gsc-fq'' \<longrightarrow>
          host_call view (os_install p c) (\<lambda>s. Some (if s = NotInstalled then Stopped else s)))
     \<and> host_call view (os_remove p ''gsc-fq'') (to_if_installed NotInstalled)
     \<and> host_call view (os_start p ''gsc-fq'') (to_if_installed Running)
     \<and> host_call view (os_stop p ''gsc-fq'') (to_if_installed Stopped)
     \<and> (\<forall>d. host_call view (create_dir_all p d) Some)
     \<and> (\<forall>c. host_call view (command_status p c) Some)"

text \<open>
  The service as the command line presents it: a command with its outcome, \<open>True\<close> for success.
  A failed command leaves the status alone, but removing or restarting a running service may
  stop it first and then fail.
\<close>

inductive service_step :: "string \<Rightarrow> ServiceStatus \<Rightarrow> bool \<Rightarrow> ServiceStatus \<Rightarrow> bool" where
  installed: "service_step ''install'' s True (if s = NotInstalled then Stopped else s)"
| uninstalled: "s \<noteq> NotInstalled \<Longrightarrow> service_step ''uninstall'' s True NotInstalled"
| started: "s \<noteq> NotInstalled \<Longrightarrow> service_step ''start'' s True Running"
| stopped: "s \<noteq> NotInstalled \<Longrightarrow> service_step ''stop'' s True Stopped"
| restarted: "s \<noteq> NotInstalled \<Longrightarrow> service_step ''restart'' s True Running"
| shown: "service_step ''status'' s True s"
| failed: "service_step c s False s"
| left_stopped: "c = ''uninstall'' \<or> c = ''restart'' \<Longrightarrow> service_step c Running False Stopped"

inductive_simps service_step_simps:
  "service_step ''install'' s b t" "service_step ''uninstall'' s b t" "service_step ''start'' s b t"
  "service_step ''stop'' s b t" "service_step ''restart'' s b t" "service_step ''status'' s b t"

text \<open>The effect of an action on the status: a relation of the status before, the result and the status after.\<close>

definition effects ::
  "('w \<Rightarrow> ServiceStatus) \<Rightarrow> ('w, 'a) action \<Rightarrow> (ServiceStatus \<Rightarrow> AppError + 'a \<Rightarrow> ServiceStatus \<Rightarrow> bool) \<Rightarrow> bool" where
  "effects view a R \<longleftrightarrow> (\<forall>s. case a s of (t, r) \<Rightarrow> R (view (fst s)) r (view (fst t)))"

named_theorems effect_rules \<open>the effects of actions on the status of the service\<close>

lemma effects_D: "effects view a R \<Longrightarrow> a s = (t, r) \<Longrightarrow> R (view (fst s)) r (view (fst t))"
  unfolding effects_def by (drule spec [of _ s]) simp

lemma effects_I: "(\<And>s t r. a s = (t, r) \<Longrightarrow> R (view (fst s)) r (view (fst t))) \<Longrightarrow> effects view a R"
  unfolding effects_def by (simp split: prod.splits del: split_paired_All)

lemma effects_weaken: "effects view a R \<Longrightarrow> (\<And>s r t. R s r t \<Longrightarrow> Q s r t) \<Longrightarrow> effects view a Q"
  by (auto simp: effects_def split: prod.splits)

lemma effects_return [effect_rules]: "effects view (act_return x) (\<lambda>s r t. r = Ok x \<and> t = s)"
  by (simp add: effects_def act_return_def)

lemma effects_say [effect_rules]: "effects view (say rs) (\<lambda>s r t. r = Ok () \<and> t = s)"
  by (simp add: effects_def say_def)

lemma effects_observe: "(\<And>w. R (view w) (f w) (view w)) \<Longrightarrow> effects view (observe f) R"
  by (simp add: effects_def observe_def)

lemma effects_host:
  "host_call view f goal \<Longrightarrow>
   effects view (host conv f) (\<lambda>s r t. if is_ok r then goal s = Some t else t = s)"
  unfolding effects_def host_def host_call_def
proof (intro allI)
  fix s :: "'a \<times> Report list"
  assume a: "\<forall>w. case f w of (w', Inl _) \<Rightarrow> view w' = view w | (w', Inr _) \<Rightarrow> goal (view w) = Some (view w')"
  obtain w r where f: "f (fst s) = (w, r)" by (cases "f (fst s)")
  with a [rule_format, of "fst s"]
  show "case case f (fst s) of (w, r) \<Rightarrow> ((w, snd s), map_err conv r) of
      (t, r) \<Rightarrow> if is_ok r then goal (view (fst s)) = Some (view (fst t)) else view (fst t) = view (fst s)"
    by (cases r) auto
qed

lemma effects_bind:
  assumes "effects view a R" "\<And>x. effects view (f x) (Q x)"
  shows "effects view (act_bind a f)
           (\<lambda>s r t. (\<exists>e. r = Err e \<and> R s (Err e) t) \<or> (\<exists>x u. R s (Ok x) u \<and> Q x u r t))"
proof (rule effects_I)
  fix s t r assume b: "act_bind a f s = (t, r)"
  show "(\<exists>e. r = Err e \<and> R (view (fst s)) (Err e) (view (fst t)))
      \<or> (\<exists>x u. R (view (fst s)) (Ok x) u \<and> Q x u r (view (fst t)))"
  proof (cases "a s")
    case (Pair u q)
    with effects_D [OF assms(1)] have "R (view (fst s)) q (view (fst u))" .
    with b Pair effects_D [OF assms(2), of _ u t r] show ?thesis
      by (cases q) (auto simp: act_bind_def simp del: split_paired_Ex)
  qed
qed


section \<open>Refinement\<close>

lemma platform_okD:
  assumes "platform_ok p view"
  shows "os_status p ''gsc-fq'' w = Ok active \<Longrightarrow> view w = (if active then Running else Stopped)"
    and "os_status p ''gsc-fq'' w = Err (ServiceNotFound t) \<Longrightarrow> view w = NotInstalled"
    and "sc_name c = ''gsc-fq'' \<Longrightarrow>
           host_call view (os_install p c) (\<lambda>s. Some (if s = NotInstalled then Stopped else s))"
    and "host_call view (os_remove p ''gsc-fq'') (to_if_installed NotInstalled)"
    and "host_call view (os_start p ''gsc-fq'') (to_if_installed Running)"
    and "host_call view (os_stop p ''gsc-fq'') (to_if_installed Stopped)"
    and "host_call view (create_dir_all p d) Some"
    and "host_call view (command_status p cmd) Some"
  using assms unfolding platform_ok_def
  by (auto split: sum.splits ServiceError.splits)

text \<open>Each operation of the manager, for the name it is built with.\<close>

abbreviation reaches :: "(ServiceStatus \<Rightarrow> ServiceStatus option) \<Rightarrow> ServiceStatus \<Rightarrow> AppError + 'a \<Rightarrow> ServiceStatus \<Rightarrow> bool" where
  "reaches goal s r t \<equiv> if is_ok r then goal s = Some t else t = s"

lemma effects_call:
  assumes "host_call view f goal"
  shows "effects view (act_bind (host conv f) (\<lambda>_. say rs)) (reaches goal)"
  by (rule effects_weaken [OF effects_bind [OF effects_host [OF assms] effects_say]])
     (auto split: if_splits)

lemma start_effect:
  "platform_ok p view \<Longrightarrow> service_name m = ''gsc-fq'' \<Longrightarrow>
   effects view (start p m) (reaches (to_if_installed Running))"
  by (simp add: start_def effects_call platform_okD(5))

lemma stop_effect:
  "platform_ok p view \<Longrightarrow> service_name m = ''gsc-fq'' \<Longrightarrow>
   effects view (stop p m) (reaches (to_if_installed Stopped))"
  by (simp add: stop_def effects_call platform_okD(6))

lemma platform_status:
  assumes "platform_ok p view"
  obtains "view w \<noteq> NotInstalled" "os_status p ''gsc-fq'' w = Ok (view w = Running)"
  | t where "view w = NotInstalled" "os_status p ''gsc-fq'' w = Err (ServiceNotFound t)"
  | t where "os_status p ''gsc-fq'' w = Err (OtherServiceError t)"
proof (cases "os_status p ''gsc-fq'' w")
  case (Inl e)
  then show thesis using that(2,3) platform_okD(2) [OF assms] by (cases e) auto
next
  case (Inr active)
  then show thesis using that(1) platform_okD(1) [OF assms Inr] by (cases active) auto
qed

lemma is_running_effect:
  assumes "platform_ok p view" "service_name m = ''gsc-fq''"
  shows "effects view (is_running p m) (\<lambda>s r t. t = s \<and> (\<forall>x. r = Ok x \<longrightarrow> x = (s = Running)))"
  unfolding is_running_def assms(2)
proof (rule effects_observe)
  fix w show "view w = view w \<and> (\<forall>x. (case os_status p ''gsc-fq'' w of
      Inr active \<Rightarrow> Ok active | Inl (ServiceNotFound _) \<Rightarrow> Ok False
    | Inl e \<Rightarrow> Err (failed_to ''Failed to check service status'' e)) = Ok x \<longrightarrow> x = (view w = Running))"
    by (rule platform_status [OF assms(1), of w]) auto
qed

text \<open>\<open>status\<close> reports the status.\<close>

lemma service_status_effect:
  assumes "platform_ok p view" "service_name m = ''gsc-fq''"
  shows "effects view (service_status p m) (\<lambda>s r t. t = s \<and> (\<forall>x. r = Ok x \<longrightarrow> x = s))"
proof (rule effects_I)
  fix s t r assume "service_status p m s = (t, r)"
  then show "view (fst t) = view (fst s) \<and> (\<forall>x. r = Ok x \<longrightarrow> x = view (fst s))"
    by (cases "fst s" rule: platform_status [OF assms(1)]; cases "view (fst s)")
       (auto simp: service_status_def is_installed_def act_bind_def observe_def act_return_def assms(2)
         split: if_splits)
qed

lemma service_step_iff:
  "service_step ''install'' s b t \<longleftrightarrow> t = (if b \<and> s = NotInstalled then Stopped else s)"
  "service_step ''uninstall'' s b t \<longleftrightarrow>
     s \<noteq> NotInstalled \<and> (b \<and> t = NotInstalled \<or> \<not> b \<and> t = Stopped) \<or> \<not> b \<and> t = s"
  "service_step ''start'' s b t \<longleftrightarrow> (if b then s \<noteq> NotInstalled \<and> t = Running else t = s)"
  "service_step ''stop'' s b t \<longleftrightarrow> (if b then s \<noteq> NotInstalled \<and> t = Stopped else t = s)"
  "service_step ''restart'' s b t \<longleftrightarrow>
     s \<noteq> NotInstalled \<and> (b \<and> t = Running \<or> \<not> b \<and> t = Stopped) \<or> \<not> b \<and> t = s"
  "service_step ''status'' s b t \<longleftrightarrow> t = s"
  by (simp_all add: service_step_simps; cases s; cases b; auto)+

lemma restart_effect:
  assumes "platform_ok p view" "service_name m = ''gsc-fq''"
  shows "effects view (restart p m) (\<lambda>s r t. service_step ''restart'' s (is_ok r) t)"
  unfolding restart_def
  by (rule effects_weaken [OF effects_bind [OF stop_effect [OF assms]
          effects_bind [OF start_effect [OF assms] effects_say]]])
     (auto simp: to_if_installed_def service_step_iff split: if_splits)

lemma effects_stop_if:
  assumes "platform_ok p view" "service_name m = ''gsc-fq''"
  shows "effects view (if x then stop p m else act_return ())
           (\<lambda>s r t. if x then reaches (to_if_installed Stopped) s r t else r = Ok () \<and> t = s)"
  by (cases x) (simp_all add: stop_effect [OF assms] effects_return)

lemma uninstall_effect:
  assumes "platform_ok p view" "service_name m = ''gsc-fq''"
  shows "effects view (uninstall p m) (\<lambda>s r t. service_step ''uninstall'' s (is_ok r) t)"
  unfolding uninstall_def assms(2)
  by (rule effects_weaken [OF effects_bind [OF is_running_effect [OF assms]
          effects_bind [OF effects_stop_if [OF assms]
            effects_call [OF platform_okD(4) [OF assms(1)]]]]])
     (auto simp: to_if_installed_def service_step_iff split: if_splits)

lemma directories_effect:
  assumes "platform_ok p view"
  shows "effects view (ensure_log_directory p m) (reaches Some)"
    and "effects view (ensure_config_directory p m) (reaches Some)"
proof -
  have 1: "effects view (if sm_os m = Windows then act_return ()
      else act_bind (host (\<lambda>e. Internal (''Failed to set log directory permissions: '' @ io_text e))
             (command_status p [''chmod'', ''755'', log_path m])) (\<lambda>_. act_return ())) (reaches Some)"
    by (auto intro!: effects_weaken [OF effects_return]
        effects_weaken [OF effects_bind [OF effects_host [OF platform_okD(8) [OF assms]] effects_return]]
        split: if_splits)
  show "effects view (ensure_log_directory p m) (reaches Some)"
    unfolding ensure_log_directory_def
    by (rule effects_weaken [OF effects_bind [OF effects_host [OF platform_okD(7) [OF assms]] 1]])
       (auto split: if_splits)
  show "effects view (ensure_config_directory p m) (reaches Some)"
    unfolding ensure_config_directory_def by (rule effects_host [OF platform_okD(7) [OF assms]])
qed

lemma install_effect:
  assumes "platform_ok p view" "service_name m = ''gsc-fq''"
  shows "effects view (install p m exe)
           (reaches (\<lambda>s. Some (if s = NotInstalled then Stopped else s)))"
  unfolding install_def
  by (rule effects_call) (rule platform_okD(3) [OF assms(1)], simp add: service_config_def assms(2))

lemma install_command_effect:
  assumes "platform_ok p view" "service_name m = ''gsc-fq''"
  shows "effects view
      (act_bind (observe (\<lambda>_. map_err f (current_exe p))) (\<lambda>exe.
       act_bind (ensure_log_directory p m) (\<lambda>_.
       act_bind (ensure_config_directory p m) (\<lambda>_. install p m exe))))
      (\<lambda>s r t. service_step ''install'' s (is_ok r) t)"
proof -
  have 1: "effects view (observe (\<lambda>_. map_err f (current_exe p))) (\<lambda>s r t. t = s)"
    by (rule effects_observe) simp
  show ?thesis
    by (rule effects_weaken [OF effects_bind [OF 1 effects_bind [OF directories_effect(1) [OF assms(1)]
            effects_bind [OF directories_effect(2) [OF assms(1)] install_effect [OF assms]]]]])
       (auto simp: service_step_iff split: if_splits)
qed

lemma service_command_effect:
  assumes ok: "platform_ok p view" "service_name m = ''gsc-fq''" and c: "service_command p m cmd = Some a"
  shows "effects view a (\<lambda>s r t. service_step cmd s (is_ok r) t)"
proof -
  have 1: "effects view (act_bind (service_status p m) (\<lambda>status. say (f status)))
      (\<lambda>s r t. service_step ''status'' s (is_ok r) t)" for f
    by (rule effects_weaken [OF effects_bind [OF service_status_effect [OF ok] effects_say]])
       (auto simp: service_step_iff)
  have 2: "effects view (start p m) (\<lambda>s r t. service_step ''start'' s (is_ok r) t)"
    by (rule effects_weaken [OF start_effect [OF ok]])
       (auto simp: service_step_iff to_if_installed_def split: if_splits)
  have 3: "effects view (stop p m) (\<lambda>s r t. service_step ''stop'' s (is_ok r) t)"
    by (rule effects_weaken [OF stop_effect [OF ok]])
       (auto simp: service_step_iff to_if_installed_def split: if_splits)
  show ?thesis
    using c restart_effect [OF ok] uninstall_effect [OF ok] install_command_effect [OF ok] 1 2 3
    by (auto simp: service_command_def split: if_splits)
qed

definition service_commands :: "string list" where
  "service_commands = [''install'', ''uninstall'', ''start'', ''stop'', ''restart'', ''status'']"

lemma service_command_None: "service_command p m cmd = None \<longleftrightarrow> cmd \<notin> set service_commands"
  by (simp add: service_command_def service_commands_def)

lemma new_manager:
  "GscFqServiceManager_new p os env = Ok m \<Longrightarrow> service_name m = ''gsc-fq''"
  by (auto simp: GscFqServiceManager_new_def and_then_Ok_iff)

lemma status_command_shows:
  assumes "platform_ok p view" "service_name m = ''gsc-fq''" "service_command p m ''status'' = Some a"
    "a s = (t, Ok ())"
  shows "StatusShown (view (fst s)) \<in> set (snd t) \<and> fst t = fst s"
proof -
  obtain u q where q: "service_status p m s = (u, q)" by (cases "service_status p m s")
  then have "u = s"
    by (auto simp: service_status_def is_installed_def act_bind_def observe_def act_return_def
        split: sum.splits ServiceError.splits if_splits)
  with assms(3,4) q effects_D [OF service_status_effect [OF assms(1,2)] q] show ?thesis
    by (auto simp: service_command_def act_bind_def say_def split: sum.splits)
qed


text \<open>
  A host with nothing but this service, whose manager never fails on an installed service. The
  state is the status of the service.
\<close>

definition sample_platform :: "ServiceStatus Platform" where
  "sample_platform =
     \<lparr>build_manager = Ok (),
      os_install = (\<lambda>c w. (if w = NotInstalled then Stopped else w, Ok ())),
      os_remove = (\<lambda>n w. if w = NotInstalled then (w, Err (ServiceNotFound ''not found'')) else (NotInstalled, Ok ())),
      os_start = (\<lambda>n w. if w = NotInstalled then (w, Err (ServiceNotFound ''not found'')) else (Running, Ok ())),
      os_stop = (\<lambda>n w. if w = NotInstalled then (w, Err (ServiceNotFound ''not found'')) else (Stopped, Ok ())),
      os_status = (\<lambda>n w. if w = NotInstalled then Err (ServiceNotFound ''not found'') else Ok (w = Running)),
      create_dir_all = (\<lambda>d w. (w, Ok ())),
      command_status = (\<lambda>c w. (w, Ok 0)),
      open_append = (\<lambda>f w. (w, Ok ())),
      daemon_start = (\<lambda>d w. (w, Ok ())),
      current_exe = Ok ''/opt/gsc-fq/bin/gsc-fq''\<rparr>"

lemma sample_platform_ok: "platform_ok sample_platform (\<lambda>w. w)"
  unfolding platform_ok_def
proof (intro conjI allI impI)
  fix w show "case os_status sample_platform ''gsc-fq'' w of
      Inr active \<Rightarrow> w = (if active then Running else Stopped)
    | Inl (ServiceNotFound _) \<Rightarrow> w = NotInstalled | Inl (OtherServiceError _) \<Rightarrow> True"
    by (cases w) (simp_all add: sample_platform_def)
qed (auto simp: sample_platform_def host_call_def to_if_installed_def split: if_splits)

lemmas service_eval = handle_service_command_def GscFqServiceManager_new_def service_command_def
  uninstall_def is_running_def stop_def start_def install_def restart_def act_bind_def observe_def
  host_def say_def act_return_def ensure_log_directory_def ensure_config_directory_def

lemma sample_uninstall:
  "handle_service_command sample_platform Linux env ''uninstall'' (Running, []) =
     ((NotInstalled, [ServiceStopped, ServiceUninstalled]), Returned (Ok ()))"
  by (simp add: service_eval sample_platform_def)


section \<open>Sequences of commands\<close>

text \<open>Commands run one after another, each by a process of its own, are a simulation.\<close>

definition command_step ::
  "OS \<Rightarrow> (string \<Rightarrow> string option) \<Rightarrow> string
   \<Rightarrow> 'w Platform \<times> ('w \<Rightarrow> ServiceStatus) \<times> 'w console
   \<Rightarrow> 'w Platform \<times> ('w \<Rightarrow> ServiceStatus) \<times> 'w console" where
  "command_step os env cmd = (\<lambda>(p, view, s). (p, view, fst (handle_service_command p os env cmd s)))"

definition status_step :: "string \<Rightarrow> ServiceStatus \<Rightarrow> ServiceStatus \<Rightarrow> bool" where
  "status_step cmd s t \<longleftrightarrow> s = t \<or> (\<exists>b. service_step cmd s b t)"

lemma handle_service_command_step:
  assumes "platform_ok p view"
  shows "status_step cmd (view (fst s)) (view (fst (fst (handle_service_command p os env cmd s))))"
proof (cases "GscFqServiceManager_new p os env")
  case (Inl e)
  then show ?thesis by (simp add: handle_service_command_def status_step_def)
next
  case (Inr m)
  show ?thesis
  proof (cases "service_command p m cmd")
    case None
    with Inr show ?thesis by (simp add: handle_service_command_def status_step_def)
  next
    case (Some a)
    obtain t r where t: "a s = (t, r)" by (cases "a s")
    with effects_D [OF service_command_effect [OF assms new_manager [OF Inr] Some] t] Inr Some
    show ?thesis by (auto simp: handle_service_command_def status_step_def)
  qed
qed

interpretation service: simulation
  "\<lambda>(p, view, s). platform_ok p view" "command_step os env"
  "\<lambda>(p, view, s). view (fst s)" status_step for os env
  by unfold_locales
     (clarsimp simp: command_step_def
       handle_service_command_step [where s = "(w, out)" for w out, simplified])+

lemma status_step_leaves_NotInstalled:
  "status_step c NotInstalled t \<Longrightarrow> t \<noteq> NotInstalled \<Longrightarrow> c = ''install'' \<and> t = Stopped"
  by (auto simp: status_step_def elim!: service_step.cases split: if_splits)

lemma status_step_enters_Running:
  "status_step c s Running \<Longrightarrow> s \<noteq> Running \<Longrightarrow> c = ''start'' \<or> c = ''restart''"
  by (auto simp: status_step_def elim!: service_step.cases split: if_splits)

text \<open>
  A service that is not installed comes to run, by whatever sequence of commands and whatever of
  them failed, only if it was installed and later started or restarted.
\<close>

theorem running_was_installed_and_started:
  assumes ok: "platform_ok p view" and "view w = NotInstalled"
    and f: "fold (command_step os env) cmds (p, view, (w, out)) = (p', view', (w', out'))"
    and r: "view w' = Running"
  shows "\<exists>xs ys zs c. cmds = xs @ ''install'' # ys @ c # zs \<and> (c = ''start'' \<or> c = ''restart'')"
proof -
  have same: "view' = view"
    using f
  proof (induction cmds arbitrary: w out)
    case (Cons c cmds)
    then show ?case
      by (cases "fst (handle_service_command p os env c (w, out))") (auto simp: command_step_def)
  qed simp
  from service.fold_simulates [of "(p, view, (w, out))" cmds os env] ok f same r assms(2)
  have path: "label_path status_step cmds NotInstalled Running" by simp
  obtain xs a ys v where 1: "cmds = xs @ a # ys" "status_step a NotInstalled v" "v \<noteq> NotInstalled"
    and path': "label_path status_step ys v Running"
    by (rule label_path_first [OF path, of "\<lambda>s. s = NotInstalled"]) auto
  with status_step_leaves_NotInstalled have a: "a = ''install''" "v = Stopped" by auto
  obtain ys' c zs u where 2: "ys = ys' @ c # zs" "status_step c u Running" "u \<noteq> Running"
    by (rule label_path_first [OF path', of "\<lambda>s. s \<noteq> Running"]) (auto simp: a)
  with 1 a status_step_enters_Running [OF 2(2,3)] show ?thesis by auto
qed

lemma sample_commands:
  "fold (command_step Linux env) [''start'', ''install'', ''status'', ''restart'']
     (sample_platform, (\<lambda>w. w), (NotInstalled, [])) =
   (sample_platform, (\<lambda>w. w),
     (Running, [ServiceInstalled ''gsc-fq'' ''/opt/gsc-fq/bin/gsc-fq'' ''/var/log/gsc-fq'', StatusShown Stopped,
        ServiceStopped, ServiceStarted, ServiceRestarted]))"
  by (simp add: command_step_def service_eval service_status_def is_installed_def sample_platform_def
      get_log_path_def)

theorem running_was_installed_and_started_witness:
  "\<exists>xs ys zs c. [''start'', ''install'', ''status'', ''restart''] = xs @ ''install'' # ys @ c # zs
     \<and> (c = ''start'' \<or> c = ''restart'')"
  by (rule running_was_installed_and_started [OF sample_platform_ok _ sample_commands]) simp_all

section \<open>Service mode\<close>

lemma search_paths_loop_cong:
  assumes "\<And>q. q \<in> set paths \<Longrightarrow> ex q = ex' q" "\<And>q. q \<in> set paths \<Longrightarrow> ex q \<Longrightarrow> rd q = rd' q"
  shows "search_paths_loop from_str ex rd paths = search_paths_loop from_str ex' rd' paths"
  using assms
proof (induction paths)
  case (Cons q paths)
  then have "ex q \<Longrightarrow> load_from_file from_str rd q = load_from_file from_str rd' q"
    by (simp add: load_from_file_def)
  with Cons show ?case by (auto split: option.splits prod.splits sum.splits)
qed simp

lemma service_mode_search:
  "get_cli_config_path [exe, ''service-mode''] = None"
  by (simp add: get_cli_config_path_def)

text \<open>
  The installed service is started in the directory of the executable with the argument
  \<open>service-mode\<close>. What it does depends on the files of three names in its working directory
  only: not on the directory that installation creates for the configuration and that \<open>status\<close> reports.
\<close>

theorem service_mode_reads_working_directory:
  assumes "\<And>q. q \<in> {''default.toml'', ''config.toml'', ''gsc-fq.toml''} \<Longrightarrow> ex q = ex' q \<and> rd q = rd' q"
    and "d \<noteq> []" "last d \<noteq> CHR ''/''" "last d \<noteq> CHR ''.''" "f \<noteq> []" "CHR ''/'' \<notin> set f" "f \<noteq> ''.''"
    and c: "c = service_config m (d @ ''/'' @ f)"
  shows "working_dir c = d
    \<and> run_service_mode p os env from_str ex rd env_token joined (exec_path c # sc_args c) s
      = run_service_mode p os env from_str ex' rd' env_token joined (exec_path c # sc_args c) s"
proof -
  have args: "exec_path c # sc_args c = [d @ ''/'' @ f, ''service-mode'']"
    by (simp add: c service_config_def)
  have "search_paths_loop from_str ex rd get_config_search_paths
      = search_paths_loop from_str ex' rd' get_config_search_paths"
    by (rule search_paths_loop_cong) (use assms(1) in \<open>auto simp: get_config_search_paths_def\<close>)
  then have "RuntimeManager_new from_str ex rd (exec_path c # sc_args c)
      = RuntimeManager_new from_str ex' rd' (exec_path c # sc_args c)"
    by (simp add: RuntimeManager_new_def load_with_search_def args service_mode_search)
  moreover have "working_dir c = d" using path_parent_file [OF assms(2-7)]
    by (simp add: c service_config_def)
  ultimately show ?thesis by (simp add: run_service_mode_def)
qed

text \<open>With a file in the configuration directory and without it.\<close>

definition sample_manager :: GscFqServiceManager where
  "sample_manager = \<lparr>service_name = ''gsc-fq'', sm_os = Linux, sm_env = (\<lambda>_. None)\<rparr>"

theorem service_mode_reads_working_directory_witness:
  "run_service_mode sample_platform Linux (\<lambda>_. None) sample_from_str
     (\<lambda>q. q = ''/etc/gsc-fq/config.toml'') sample_read None None [''/opt/bin/gsc-fq'', ''service-mode''] (Running, [])
   = run_service_mode sample_platform Linux (\<lambda>_. None) sample_from_str
     (\<lambda>q. False) sample_read None None [''/opt/bin/gsc-fq'', ''service-mode''] (Running, [])
   \<and> working_dir (service_config sample_manager ''/opt/bin/gsc-fq'') = ''/opt/bin''"
  using service_mode_reads_working_directory [of "\<lambda>q. q = ''/etc/gsc-fq/config.toml''" "\<lambda>q. False"
      sample_read sample_read "''/opt/bin''" "''gsc-fq''" _ sample_manager sample_platform Linux
      "\<lambda>_. None" sample_from_str None None "(Running, [])", OF _ _ _ _ _ _ _ refl]
  by (simp add: service_config_def) auto

end
