(* ===== verification/Crypto.thy ===== *)
theory Crypto
  imports F64 Errors Rust_Path
begin

text \<open>
  Message encryption and its statistics, \<^verbatim>\<open>src/src/crypto/mod.rs\<close>.

  The authenticated cipher (\<open>ring\<close>) is a pair of functions of a key, a nonce, associated data and a
  text; the sealed text ends in a tag of sixteen bytes. The hash is a function on byte strings.
  Both are parameters. What is printed is left out.
\<close>

section \<open>Keys\<close>

record Aead =
  seal_in_place :: "bytes \<Rightarrow> bytes \<Rightarrow> bytes \<Rightarrow> bytes \<Rightarrow> string + bytes"
  open_in_place :: "bytes \<Rightarrow> bytes \<Rightarrow> bytes \<Rightarrow> bytes \<Rightarrow> string + bytes"

record EncryptionKey =
  ek_key :: bytes
  nonce_sequence :: u64

text \<open>The random bytes are an argument; a key has thirty-two, or making it fails.\<close>

definition key_of_bytes :: "bytes \<Rightarrow> EncryptionKey option" where
  "key_of_bytes bs = (if length bs = 32 then Some \<lparr>ek_key = bs, nonce_sequence = 0\<rparr> else None)"

definition EncryptionKey_generate :: "bytes \<Rightarrow> EncryptionKey option" where
  "EncryptionKey_generate key_bytes = key_of_bytes key_bytes"

definition from_shared_secret :: "(bytes \<Rightarrow> bytes) \<Rightarrow> bytes \<Rightarrow> bytes \<Rightarrow> EncryptionKey option" where
  "from_shared_secret sha256 tok cfg = key_of_bytes (sha256 (tok @ cfg))"

definition generate_nonce :: "EncryptionKey \<Rightarrow> bytes" where
  "generate_nonce k = replicate 4 0 @ take 8 (u64_to_le_bytes (nonce_sequence k))"

definition crypto_error :: "string \<Rightarrow> AppError" where
  "crypto_error e = ReverseProxy (CryptoError e)"

definition encrypt :: "Aead \<Rightarrow> EncryptionKey \<Rightarrow> bytes \<Rightarrow> bytes \<Rightarrow> AppError + bytes" where
  "encrypt aead k plaintext associated_data =
     map_err crypto_error
       (seal_in_place aead (ek_key k) (generate_nonce k) associated_data (plaintext @ replicate 16 0))"

definition decrypt :: "Aead \<Rightarrow> EncryptionKey \<Rightarrow> bytes \<Rightarrow> bytes \<Rightarrow> AppError + bytes" where
  "decrypt aead k ciphertext associated_data =
     map_err crypto_error
       (open_in_place aead (ek_key k) (generate_nonce k) associated_data ciphertext)"

section \<open>The processor\<close>

definition has_aes_ni :: "string \<Rightarrow> bool \<Rightarrow> bool" where
  "has_aes_ni target_arch feature_detected = (target_arch = ''x86_64'' \<and> feature_detected)"

definition optimal_cipher_suite :: "bool \<Rightarrow> string" where
  "optimal_cipher_suite aes_ni =
     (if aes_ni then ''TLS_AES_256_GCM_SHA384 (AES-NI hardware acceleration)''
      else ''TLS_AES_128_GCM_SHA256 (ChaCha20 fallback for ARM/no-AES)'')"

definition optimal_algorithm :: "bool \<Rightarrow> string" where
  "optimal_algorithm aes_ni =
     (if aes_ni then ''AES-256-GCM-SIV (hardware accelerated)'' else ''ChaCha20-Poly1305 (software optimized)'')"

definition get_performance_characteristics :: "bool \<Rightarrow> f64 \<times> f64 \<times> string" where
  "get_performance_characteristics aes_ni =
     (if aes_ni then (Finite 305, Finite 1300, ''AES-NI hardware acceleration'')
      else (Finite 275, Finite 1100, ''software optimized''))"

section \<open>Connections\<close>

record EncryptionMetrics =
  handshakes_completed :: u64
  bytes_encrypted :: u64
  bytes_decrypted :: u64
  total_handshake_time_us :: u64
  em_cpu_utilization_percent :: f64

definition EncryptionMetrics_default :: EncryptionMetrics where
  "EncryptionMetrics_default =
     \<lparr>handshakes_completed = 0, bytes_encrypted = 0, bytes_decrypted = 0, total_handshake_time_us = 0,
      em_cpu_utilization_percent = Finite 0\<rparr>"

definition elapsed_seconds :: "(rat \<Rightarrow> f64) \<Rightarrow> u64 \<Rightarrow> f64" where
  "elapsed_seconds rnd elapsed_time_ms = f64_div rnd (u64_as_f64 rnd elapsed_time_ms) 1000"

definition throughput_mbps :: "(rat \<Rightarrow> f64) \<Rightarrow> u64 \<Rightarrow> EncryptionMetrics \<Rightarrow> f64" where
  "throughput_mbps rnd elapsed_time_ms m =
     (if elapsed_time_ms = 0 then Finite 0
      else f64_div rnd
             (f64_div rnd (f64_mul rnd (u64_as_f64 rnd (bytes_encrypted m + bytes_decrypted m)) (Finite 8))
                (finite_part (elapsed_seconds rnd elapsed_time_ms)))
             1000000)"

definition handshake_rate :: "(rat \<Rightarrow> f64) \<Rightarrow> u64 \<Rightarrow> EncryptionMetrics \<Rightarrow> f64" where
  "handshake_rate rnd elapsed_time_ms m =
     (if elapsed_time_ms = 0 then Finite 0
      else f64_div rnd (u64_as_f64 rnd (handshakes_completed m)) (finite_part (elapsed_seconds rnd elapsed_time_ms)))"

definition avg_handshake_time_us :: "EncryptionMetrics \<Rightarrow> u64" where
  "avg_handshake_time_us m =
     (if handshakes_completed m = 0 then 0 else total_handshake_time_us m div handshakes_completed m)"

record EncryptedConnection =
  ec_name :: string
  ec_metrics :: EncryptionMetrics
  ec_has_aes_ni :: bool

definition EncryptedConnection_new :: "bool \<Rightarrow> string \<Rightarrow> EncryptedConnection" where
  "EncryptedConnection_new aes_ni name =
     \<lparr>ec_name = name, ec_metrics = EncryptionMetrics_default, ec_has_aes_ni = aes_ni\<rparr>"

text \<open>\<open>None\<close> is the panic of a slice that ends inside a character.\<close>

definition create_client_with_token :: "bool \<Rightarrow> string \<Rightarrow> EncryptedConnection option" where
  "create_client_with_token aes_ni tok =
     (let n = min 8 (length tok) in
      if is_char_boundary tok n
      then Some (EncryptedConnection_new aes_ni (''TLS-Client-'' @ take n tok)) else None)"

definition create_server_with_cert :: "bool \<Rightarrow> string \<Rightarrow> EncryptedConnection" where
  "create_server_with_cert aes_ni cert_path =
     EncryptedConnection_new aes_ni
       (''TLS-Server-'' @ (case file_stem cert_path of Some s \<Rightarrow> s | None \<Rightarrow> ''unknown''))"

text \<open>The delay is that of the simulation; the time that has really passed is an argument.\<close>

definition handshake_delay_us :: "u64 \<Rightarrow> EncryptedConnection \<Rightarrow> nat" where
  "handshake_delay_us random c = (if ec_has_aes_ni c then 500 else 1200) + unat (random mod 200)"

definition simulate_handshake :: "nat \<Rightarrow> EncryptedConnection \<Rightarrow> EncryptedConnection" where
  "simulate_handshake total_time_us c =
     c\<lparr>ec_metrics := (ec_metrics c)\<lparr>handshakes_completed := handshakes_completed (ec_metrics c) + 1,
        total_handshake_time_us := total_handshake_time_us (ec_metrics c) + word_of_nat total_time_us\<rparr>\<rparr>"

definition simulate_data_transfer :: "usize \<Rightarrow> EncryptedConnection \<Rightarrow> EncryptedConnection" where
  "simulate_data_transfer n c =
     c\<lparr>ec_metrics := (ec_metrics c)\<lparr>bytes_encrypted := bytes_encrypted (ec_metrics c) + n,
        bytes_decrypted := bytes_decrypted (ec_metrics c) + n\<rparr>\<rparr>"

text \<open>
  The benchmarks: the times of the handshakes are an argument, one for each iteration. The printed average divides by the
  number of iterations, so none at all is a panic. The total of the transfer wraps.
\<close>

definition benchmark_handshakes :: "bool \<Rightarrow> nat list \<Rightarrow> EncryptionMetrics option" where
  "benchmark_handshakes aes_ni ts =
     Option.bind (create_client_with_token aes_ni ''benchmark'') (\<lambda>conn.
       if ts = [] then None else Some (ec_metrics (fold simulate_handshake ts conn)))"

definition benchmark_data_transfer :: "bool \<Rightarrow> usize \<Rightarrow> nat \<Rightarrow> (EncryptedConnection \<times> usize) option" where
  "benchmark_data_transfer aes_ni data_size_mb iterations =
     map_option
       (\<lambda>conn. ((simulate_data_transfer (data_size_mb * 1024 * 1024) ^^ iterations) conn,
                data_size_mb * 1024 * 1024 * of_nat iterations))
       (create_client_with_token aes_ni ''data-bench'')"

section \<open>Properties\<close>

text \<open>What is promised of the cipher: a sealed text is sixteen bytes longer and opens to the text it was made of.\<close>

definition aead_ok :: "Aead \<Rightarrow> bool" where
  "aead_ok aead \<longleftrightarrow>
     (\<forall>k n a p. \<exists>c. seal_in_place aead k n a p = Ok c \<and> length c = length p + 16 \<and> open_in_place aead k n a c = Ok p)"

definition sample_aead :: Aead where
  "sample_aead =
     \<lparr>seal_in_place = \<lambda>k n a p. Ok (p @ replicate 16 0), open_in_place = \<lambda>k n a c. Ok (take (length c - 16) c)\<rparr>"

lemma sample_aead_ok: "aead_ok sample_aead"
  by (simp add: aead_ok_def sample_aead_def)

lemma encrypt_ok:
  assumes "aead_ok aead"
  obtains c where "encrypt aead k p a = Ok c" "length c = length p + 32"
    "seal_in_place aead (ek_key k) (generate_nonce k) a (p @ replicate 16 0) = Ok c"
    "decrypt aead k c a = Ok (p @ replicate 16 0)"
proof -
  from assms obtain c where "seal_in_place aead (ek_key k) (generate_nonce k) a (p @ replicate 16 0) = Ok c"
    "length c = length (p @ replicate 16 (0 :: u8)) + 16"
    "open_in_place aead (ek_key k) (generate_nonce k) a c = Ok (p @ replicate 16 0)"
    unfolding aead_ok_def by blast
  with that show thesis by (simp add: encrypt_def decrypt_def)
qed

text \<open>
  Decrypting what was encrypted does not give the message back but the message followed by
  sixteen zero bytes, because room for the tag is added before the cipher adds the tag itself; the encrypted
  message is thirty-two bytes longer than the message.
\<close>

theorem decrypt_appends_zeros:
  assumes "aead_ok aead"
  shows "\<exists>c. encrypt aead k p a = Ok c \<and> length c = length p + 32 \<and> decrypt aead k c a = Ok (p @ replicate 16 0)"
  by (rule encrypt_ok [OF assms]) blast

theorem decrypt_appends_zeros_witness:
  "\<exists>c. decrypt sample_aead \<lparr>ek_key = replicate 32 7, nonce_sequence = 0\<rparr> c [9] = Ok ([1, 2] @ replicate 16 0)"
  using decrypt_appends_zeros [OF sample_aead_ok, of "\<lparr>ek_key = replicate 32 7, nonce_sequence = 0\<rparr>" "[1, 2]" "[9]"] by blast

lemma be_bytes_zero: "be_bytes n 0 = replicate n 0"
  by (induction n) (simp_all add: replicate_append_same)

text \<open>
  Every message under a key is sealed with the same nonce: all keys the program makes have
  sequence number zero, nothing advances it, and so encryption is a function of key,
  message and associated data.
\<close>

theorem nonce_never_changes:
  assumes "EncryptionKey_generate bs = Some k \<or> from_shared_secret sha256 tok cfg = Some k"
  shows "generate_nonce k = replicate 12 0
    \<and> encrypt aead k p a = map_err crypto_error (seal_in_place aead (ek_key k) (replicate 12 0) a (p @ replicate 16 0))"
proof -
  have "nonce_sequence k = 0"
    using assms by (auto simp: EncryptionKey_generate_def from_shared_secret_def key_of_bytes_def split: if_splits)
  then have "generate_nonce k = replicate 12 0"
    by (simp add: generate_nonce_def u64_to_le_bytes_def be_bytes_zero flip: replicate_add)
  then show ?thesis by (simp add: encrypt_def)
qed

theorem nonce_never_changes_witness:
  "generate_nonce \<lparr>ek_key = replicate 32 7, nonce_sequence = 0\<rparr> = replicate 12 0"
  using nonce_never_changes [of "replicate 32 7" "\<lparr>ek_key = replicate 32 7, nonce_sequence = 0\<rparr>" "\<lambda>_. []" "[]" "[]"]
  by (simp add: EncryptionKey_generate_def key_of_bytes_def)

text \<open>Token and configuration are joined without a separator: moving bytes between them keeps the key.\<close>

lemma shared_secret_boundary: "from_shared_secret sha256 (a @ b) c = from_shared_secret sha256 a (b @ c)"
  by (simp add: from_shared_secret_def)

lemma average_handshake:
  assumes "ts \<noteq> []" "sum_list ts < 2 ^ 64" "length ts < 2 ^ 64"
  shows "unat (avg_handshake_time_us (ec_metrics (fold simulate_handshake ts (EncryptedConnection_new aes_ni name))))
    = sum_list ts div length ts"
proof -
  have "handshakes_completed (ec_metrics (fold simulate_handshake ts c)) = handshakes_completed (ec_metrics c) + of_nat (length ts)
      \<and> total_handshake_time_us (ec_metrics (fold simulate_handshake ts c)) = total_handshake_time_us (ec_metrics c) + of_nat (sum_list ts)" for c
    by (induction ts arbitrary: c) (simp_all add: simulate_handshake_def algebra_simps)
  moreover have "unat (of_nat (length ts) :: u64) = length ts" "unat (of_nat (sum_list ts) :: u64) = sum_list ts"
    using assms by (simp_all only: unat_of_nat) simp_all
  moreover have "(of_nat (length ts) :: u64) \<noteq> 0" using assms(1) calculation(2) by (metis length_0_conv unsigned_0)
  ultimately show ?thesis
    by (simp add: avg_handshake_time_us_def EncryptedConnection_new_def EncryptionMetrics_default_def unat_div)
qed

lemma benchmark_handshakes_counts:
  "ts \<noteq> [] \<Longrightarrow> \<exists>m. benchmark_handshakes aes_ni ts = Some m \<and> handshakes_completed m = of_nat (length ts)"
proof -
  have "handshakes_completed (ec_metrics (fold simulate_handshake ts c)) = handshakes_completed (ec_metrics c) + of_nat (length ts)" for c
    by (induction ts arbitrary: c) (simp_all add: simulate_handshake_def algebra_simps)
  moreover assume "ts \<noteq> []"
  ultimately show ?thesis
    by (simp add: benchmark_handshakes_def create_client_with_token_def EncryptedConnection_new_def
        EncryptionMetrics_default_def is_char_boundary_def)
qed

text \<open>What is counted on the connection is what the benchmark reports.\<close>

lemma benchmark_data_transfer_total:
  "benchmark_data_transfer aes_ni mb n = Some (conn, tot) \<Longrightarrow>
     bytes_encrypted (ec_metrics conn) = tot \<and> bytes_decrypted (ec_metrics conn) = tot"
proof -
  have "bytes_encrypted (ec_metrics ((simulate_data_transfer k ^^ n) c)) = bytes_encrypted (ec_metrics c) + k * of_nat n
      \<and> bytes_decrypted (ec_metrics ((simulate_data_transfer k ^^ n) c)) = bytes_decrypted (ec_metrics c) + k * of_nat n" for k c
    by (induction n) (simp_all add: simulate_data_transfer_def algebra_simps)
  then show "benchmark_data_transfer aes_ni mb n = Some (conn, tot) \<Longrightarrow>
     bytes_encrypted (ec_metrics conn) = tot \<and> bytes_decrypted (ec_metrics conn) = tot"
    by (auto simp: benchmark_data_transfer_def create_client_with_token_def EncryptedConnection_new_def
        EncryptionMetrics_default_def is_char_boundary_def)
qed

lemma server_named_after_certificate:
  "create_server_with_cert aes_ni ''/etc/ssl/proxy.example.pem'' = EncryptedConnection_new aes_ni ''TLS-Server-proxy.example''"
proof -
  have "file_name (''/etc/ssl'' @ ''/'' @ ''proxy.example.pem'') = Some ''proxy.example.pem''"
    by (rule file_name_file) simp_all
  moreover have "stem_of (''proxy.example'' @ ''.'' @ ''pem'') = ''proxy.example''" by (rule stem_of_dot) simp_all
  ultimately show ?thesis by (simp add: create_server_with_cert_def file_stem_def)
qed

end
