(* ===== verification/Crypto_Stream.thy ===== *)
theory Crypto_Stream
  imports Crypto Stream_IO
begin

text \<open>
  The encrypted stream, \<^verbatim>\<open>src/src/crypto/stream_cipher.rs\<close>, and the demonstration of a handshake,
  \<^verbatim>\<open>src/src/crypto/handshake.rs\<close>. Neither file is part of the crate, and the first names a variant of
  the reverse proxy's errors that does not exist, \<open>IoError\<close>: the type \<open>StreamError\<close> has it beside the others.

  A stream has a reader and a writer of its peer. The random bytes of a nonce, the clock and the
  processor's features are arguments.
\<close>

section \<open>The stream\<close>

datatype StreamError = StreamIo IoError | StreamApp AppError

record EncryptedStream =
  inner_reader :: Reader
  inner_writer :: Writer
  es_key :: EncryptionKey
  read_buffer :: bytes
  write_buffer :: bytes
  read_pos :: nat
  read_len :: nat
  message_counter :: u64

type_synonym 'a stream_result = "(StreamError + 'a) \<times> EncryptedStream"

definition EncryptedStream_new :: "Reader \<Rightarrow> Writer \<Rightarrow> EncryptionKey \<Rightarrow> EncryptedStream" where
  "EncryptedStream_new r w key =
     \<lparr>inner_reader = r, inner_writer = w, es_key = key, read_buffer = [], write_buffer = [],
      read_pos = 0, read_len = 0, message_counter = 0\<rparr>"

definition stream_bind :: "'a stream_result \<Rightarrow> ('a \<Rightarrow> EncryptedStream \<Rightarrow> 'b stream_result) \<Rightarrow> 'b stream_result" where
  "stream_bind x f = (case x of (Inl e, st) \<Rightarrow> (Err e, st) | (Inr a, st) \<Rightarrow> f a st)"

definition inner_read :: "nat \<Rightarrow> EncryptedStream \<Rightarrow> bytes stream_result" where
  "inner_read n st =
     (case read_exact n (inner_reader st) of
        (r, rd) \<Rightarrow> (map_err StreamIo r, st\<lparr>inner_reader := rd\<rparr>))"

definition inner_write :: "bytes \<Rightarrow> EncryptedStream \<Rightarrow> unit stream_result" where
  "inner_write bs st =
     (case write_all bs (inner_writer st) of
        (r, w) \<Rightarrow> (map_err StreamIo r, st\<lparr>inner_writer := w\<rparr>))"

definition inner_flush :: "EncryptedStream \<Rightarrow> unit stream_result" where
  "inner_flush st =
     (case flush (inner_writer st) of
        (r, w) \<Rightarrow> (map_err StreamIo r, st\<lparr>inner_writer := w\<rparr>))"

definition stream_nonce :: "bytes \<Rightarrow> EncryptedStream \<Rightarrow> bytes" where
  "stream_nonce random st = u64_to_le_bytes (message_counter st) @ random"

definition create_associated_data :: "bytes \<Rightarrow> EncryptedStream \<Rightarrow> bytes" where
  "create_associated_data nonce st = u64_to_le_bytes (message_counter st) @ nonce"

definition write_message :: "bytes \<Rightarrow> bytes \<Rightarrow> EncryptedStream \<Rightarrow> unit stream_result" where
  "write_message nonce encrypted_data st =
     stream_bind (inner_write (u32_to_be_bytes (word_of_nat (length nonce))) st) (\<lambda>_ st.
     stream_bind (inner_write nonce st) (\<lambda>_ st.
     stream_bind (inner_write (u32_to_be_bytes (word_of_nat (length encrypted_data))) st) (\<lambda>_ st.
     stream_bind (inner_write encrypted_data st) (\<lambda>_ st.
     stream_bind (inner_flush st) (\<lambda>_ st.
     (Ok (), st\<lparr>message_counter := message_counter st + 1\<rparr>))))))"

definition as_crypto_error :: "AppError \<Rightarrow> StreamError" where
  "as_crypto_error e = StreamApp (ReverseProxy (CryptoError (show_AppError e)))"

definition encrypt_send :: "Aead \<Rightarrow> bytes \<Rightarrow> bytes \<Rightarrow> EncryptedStream \<Rightarrow> unit stream_result" where
  "encrypt_send aead random data st =
     (let nonce = stream_nonce random st;
          associated_data = create_associated_data nonce st
      in (case map_err as_crypto_error (encrypt aead (es_key st) data associated_data) of
            Inl e \<Rightarrow> (Err e, st)
          | Inr encrypted_data \<Rightarrow> write_message nonce encrypted_data st))"

definition fill_read_buffer :: "Aead \<Rightarrow> EncryptedStream \<Rightarrow> unit stream_result" where
  "fill_read_buffer aead st =
     stream_bind (inner_read 4 st) (\<lambda>nonce_len_bytes st.
     stream_bind (inner_read (unat (u32_from_be_bytes nonce_len_bytes)) st) (\<lambda>nonce st.
     stream_bind (inner_read 4 st) (\<lambda>data_len_bytes st.
     stream_bind (inner_read (unat (u32_from_be_bytes data_len_bytes)) st) (\<lambda>encrypted_data st.
     (case map_err as_crypto_error
             (decrypt aead (es_key st) encrypted_data (create_associated_data nonce st)) of
        Inl e \<Rightarrow> (Err e, st)
      | Inr decrypted_data \<Rightarrow>
          (Ok (), st\<lparr>read_buffer := decrypted_data, read_pos := 0, read_len := length decrypted_data\<rparr>))))))"

text \<open>\<open>decrypt_receive\<close> returns the bytes it copies to a buffer of \<open>n\<close> bytes.\<close>

definition copy_out :: "nat \<Rightarrow> EncryptedStream \<Rightarrow> bytes stream_result" where
  "copy_out n st =
     (let to_copy = min (read_len st - read_pos st) n
      in (Ok (take to_copy (drop (read_pos st) (read_buffer st))),
          st\<lparr>read_pos := read_pos st + to_copy\<rparr>))"

definition decrypt_receive :: "Aead \<Rightarrow> nat \<Rightarrow> EncryptedStream \<Rightarrow> bytes stream_result" where
  "decrypt_receive aead n st =
     stream_bind (if read_len st \<le> read_pos st then fill_read_buffer aead st else (Ok (), st))
       (\<lambda>_ st. copy_out n st)"

definition send_control_message :: "Aead \<Rightarrow> bytes \<Rightarrow> u8 \<Rightarrow> bytes \<Rightarrow> EncryptedStream \<Rightarrow> unit stream_result" where
  "send_control_message aead random message_type payload st = encrypt_send aead random (message_type # payload) st"

text \<open>The implementations of \<open>AsyncRead\<close> and \<open>AsyncWrite\<close>; every error becomes one of kind \<open>Other\<close>.\<close>

definition poll_read :: "Aead \<Rightarrow> nat \<Rightarrow> EncryptedStream \<Rightarrow> (ErrorKind \<times> StreamError + bytes) \<times> EncryptedStream" where
  "poll_read aead n st = apfst (map_err (Pair OtherKind)) (decrypt_receive aead n st)"

definition poll_write ::
  "Aead \<Rightarrow> bytes \<Rightarrow> bytes \<Rightarrow> EncryptedStream \<Rightarrow> (ErrorKind \<times> StreamError + nat) \<times> EncryptedStream" where
  "poll_write aead random buf st =
     (case encrypt_send aead random buf st of
        (Inr _, st') \<Rightarrow> (Ok (length buf), st')
      | (Inl e, st') \<Rightarrow> (Err (OtherKind, e), st'))"

definition poll_flush :: "EncryptedStream \<Rightarrow> unit stream_result" where
  "poll_flush st = inner_flush st"

section \<open>Lemmas\<close>

lemma stream_bind_simps [simp]:
  "stream_bind (Inr a, st) f = f a st" "stream_bind (Inl e, st) f = (Inl e, st)"
  by (simp_all add: stream_bind_def)

lemma stream_bind_Ok:
  "stream_bind x f = (Inr b, st') \<longleftrightarrow> (\<exists>a st. x = (Inr a, st) \<and> f a st = (Inr b, st'))"
  by (cases x; cases "fst x") (auto simp: stream_bind_def)

lemma inner_read_Ok:
  "inner_read n st = (Ok bs, st') \<longleftrightarrow>
     n \<le> length (rd_data (inner_reader st)) \<and> bs = take n (rd_data (inner_reader st))
     \<and> st' = st\<lparr>inner_reader := (inner_reader st)\<lparr>rd_data := drop n (rd_data (inner_reader st))\<rparr>\<rparr>"
  by (cases "n \<le> length (rd_data (inner_reader st))") (auto simp: inner_read_def)

lemma inner_read_append [simp]:
  "rd_data (inner_reader st) = bs @ rest \<Longrightarrow> length bs = n \<Longrightarrow>
   inner_read n st = (Ok bs, st\<lparr>inner_reader := (inner_reader st)\<lparr>rd_data := rest\<rparr>\<rparr>)"
  by (simp add: inner_read_def)

lemma inner_write_healthy [simp]:
  "wr_fail (inner_writer st) = None \<Longrightarrow>
   inner_write bs st = (Ok (), st\<lparr>inner_writer := (inner_writer st)\<lparr>wr_data := wr_data (inner_writer st) @ bs\<rparr>\<rparr>)"
  by (simp add: inner_write_def)

lemma fill_shrinks:
  assumes "fill_read_buffer aead st = (Ok u, st')"
  shows "length (rd_data (inner_reader st')) < length (rd_data (inner_reader st))"
    and "read_pos st' = 0" "read_len st' = length (read_buffer st')"
  using assms
  by (auto simp: fill_read_buffer_def stream_bind_Ok inner_read_Ok split: sum.splits)

section \<open>Control messages\<close>

text \<open>
  The payload is read until nothing is read. Every round takes bytes from the buffer or from the
  stream. As \<open>read_len\<close> is the length of the buffer, nothing read is an empty list.
\<close>

definition unread :: "EncryptedStream \<Rightarrow> nat" where
  "unread st = read_len st - read_pos st"

lemma decrypt_receive_progress:
  assumes "decrypt_receive aead n st = (Ok bs, st')" "bs \<noteq> []"
  shows "length (rd_data (inner_reader st')) < length (rd_data (inner_reader st))
    \<or> length (rd_data (inner_reader st')) = length (rd_data (inner_reader st)) \<and> unread st' < unread st"
proof (cases "read_len st \<le> read_pos st")
  case True
  with assms obtain u st1 where f: "fill_read_buffer aead st = (Ok u, st1)" "copy_out n st1 = (Ok bs, st')"
    by (auto simp: decrypt_receive_def stream_bind_Ok)
  then have "inner_reader st' = inner_reader st1" by (auto simp: copy_out_def Let_def)
  with fill_shrinks(1) [OF f(1)] show ?thesis by simp
next
  case False
  with assms have "copy_out n st = (Ok bs, st')" by (simp add: decrypt_receive_def)
  with False assms(2) show ?thesis by (auto simp: copy_out_def Let_def unread_def)
qed

function receive_payload :: "Aead \<Rightarrow> bytes \<Rightarrow> EncryptedStream \<Rightarrow> bytes stream_result" where
  "receive_payload aead payload st =
     (case decrypt_receive aead 4096 st of
        (Inl e, st') \<Rightarrow> (Err e, st')
      | (Inr bs, st') \<Rightarrow>
          if bs = [] then (Ok payload, st') else receive_payload aead (payload @ bs) st')"
  by pat_completeness auto
termination
  by (relation "measures [\<lambda>(aead, payload, st). length (rd_data (inner_reader st)), \<lambda>(aead, payload, st). unread st]")
     (auto dest!: sym [of "(_, _)" "decrypt_receive _ _ _"] decrypt_receive_progress)

declare receive_payload.simps [simp del]

definition receive_control_message :: "Aead \<Rightarrow> EncryptedStream \<Rightarrow> (u8 \<times> bytes) stream_result" where
  "receive_control_message aead st =
     stream_bind (decrypt_receive aead 1 st) (\<lambda>header st.
     stream_bind (receive_payload aead [] st) (\<lambda>payload st.
     (Ok (case header of [] \<Rightarrow> 0 | b # _ \<Rightarrow> b, payload), st)))"

section \<open>Metrics and handshake\<close>

record StreamMetrics =
  sm_messages_encrypted :: u64
  sm_messages_decrypted :: u64
  sm_bytes_encrypted :: u64
  sm_bytes_decrypted :: u64
  sm_encryption_time_ms :: u64
  sm_decryption_time_ms :: u64
  sm_cpu_utilization_percent :: f64

definition StreamMetrics_new :: StreamMetrics where
  "StreamMetrics_new =
     \<lparr>sm_messages_encrypted = 0, sm_messages_decrypted = 0, sm_bytes_encrypted = 0, sm_bytes_decrypted = 0,
      sm_encryption_time_ms = 0, sm_decryption_time_ms = 0, sm_cpu_utilization_percent = Finite 0\<rparr>"

definition stream_throughput_mbps :: "(rat \<Rightarrow> f64) \<Rightarrow> StreamMetrics \<Rightarrow> f64" where
  "stream_throughput_mbps rnd m =
     (let total_bytes = sm_bytes_encrypted m + sm_bytes_decrypted m;
          total_time_ms = sm_encryption_time_ms m + sm_decryption_time_ms m
      in if total_time_ms = 0 then Finite 0
         else f64_div rnd
                (f64_div rnd (f64_mul rnd (u64_as_f64 rnd total_bytes) (Finite 8))
                   (finite_part (f64_div rnd (u64_as_f64 rnd total_time_ms) 1000)))
                1000000)"

record HandshakeResult =
  hr_encryption_key :: EncryptionKey
  hr_session_id :: string
  hr_algorithm_used :: string
  hr_supports_aes_ni :: bool
  hr_handshake_time_ms :: u64

record ClientHandshake =
  auth_token :: string
  ch_config_hash :: string

definition ClientHandshake_new :: "string \<Rightarrow> string \<Rightarrow> ClientHandshake" where
  "ClientHandshake_new tok hash = \<lparr>auth_token = tok, ch_config_hash = hash\<rparr>"

text \<open>
  The seconds since the epoch, \<open>None\<close> for a clock before it, and the milliseconds that passed are
  arguments. \<open>None\<close> is a panic.
\<close>

definition perform_handshake ::
  "(bytes \<Rightarrow> bytes) \<Rightarrow> bool \<Rightarrow> nat option \<Rightarrow> u32 \<Rightarrow> nat \<Rightarrow> ClientHandshake \<Rightarrow> HandshakeResult option" where
  "perform_handshake sha256 aes_ni epoch_secs random elapsed_ms c =
     Option.bind (from_shared_secret sha256 (as_bytes (auth_token c)) (as_bytes (ch_config_hash c))) (\<lambda>key.
     Option.bind epoch_secs (\<lambda>now.
     Some \<lparr>hr_encryption_key = key,
           hr_session_id = ''session_'' @ nat_to_string now @ ''_'' @ nat_to_string (unat random),
           hr_algorithm_used = optimal_algorithm aes_ni, hr_supports_aes_ni = aes_ni,
           hr_handshake_time_ms = word_of_nat elapsed_ms\<rparr>))"

section \<open>Counters\<close>

text \<open>The message on the wire, and the rejection of a message under another counter.\<close>

definition frame :: "bytes \<Rightarrow> bytes \<Rightarrow> bytes" where
  "frame nonce c = u32_to_be_bytes (word_of_nat (length nonce)) @ nonce @ u32_to_be_bytes (word_of_nat (length c)) @ c"

definition aead_rejects :: "Aead \<Rightarrow> bool" where
  "aead_rejects aead \<longleftrightarrow>
     (\<forall>key n i j nonce p c. length nonce = 12 \<longrightarrow> i \<noteq> j \<longrightarrow>
        seal_in_place aead key n (u64_to_le_bytes i @ nonce) p = Ok c \<longrightarrow>
        \<not> is_ok (open_in_place aead key n (u64_to_le_bytes j @ nonce) c))"

lemma encrypt_send_frame:
  assumes "encrypt aead (es_key st) data (create_associated_data (stream_nonce random st) st) = Ok c"
    and "healthy (inner_writer st)"
  shows "encrypt_send aead random data st =
    (Ok (), st\<lparr>inner_writer := (inner_writer st)\<lparr>wr_data := wr_data (inner_writer st) @ frame (stream_nonce random st) c\<rparr>,
               message_counter := message_counter st + 1\<rparr>)"
  using assms by (simp add: encrypt_send_def write_message_def inner_flush_def frame_def Let_def)

lemma fill_frame:
  assumes "rd_data (inner_reader st) = frame nonce c @ rest" "length nonce < 2 ^ 32" "length c < 2 ^ 32"
  defines "st1 \<equiv> st\<lparr>inner_reader := (inner_reader st)\<lparr>rd_data := rest\<rparr>\<rparr>"
  shows "fill_read_buffer aead st =
    (case map_err as_crypto_error (decrypt aead (es_key st) c (create_associated_data nonce st)) of
       Inl e \<Rightarrow> (Err e, st1)
     | Inr d \<Rightarrow> (Ok (), st1\<lparr>read_buffer := d, read_pos := 0, read_len := length d\<rparr>))"
proof -
  have len: "unat (word_of_nat (length xs) :: u32) = length xs" if "length xs < 2 ^ 32" for xs :: bytes
    using that by (simp only: unat_of_nat) simp
  show ?thesis
    using assms(1) unfolding st1_def
    by (simp add: fill_read_buffer_def frame_def len [OF assms(2)] len [OF assms(3)]
        create_associated_data_def)
qed

text \<open>
  C39. A message sent with the counter \<open>i\<close> is accepted exactly by a receiver whose own counter is \<open>i\<close>, and
  then gives the data followed by sixteen zero bytes. As a receiver counts only what it sends itself, of a stream
  of messages in one direction the first is accepted and the second is not.
\<close>

theorem message_accepted_iff_counters_agree:
  assumes aead: "aead_ok aead" "aead_rejects aead" and w: "healthy (inner_writer st)"
    and random: "length random = 4" and len: "length data + 32 < 2 ^ 32"
    and key: "es_key rcv = es_key st"
    and sent: "encrypt_send aead random data st = (r, st')"
    and wire: "wr_data (inner_writer st') = wr_data (inner_writer st) @ wire" "rd_data (inner_reader rcv) = wire @ rest"
    and fill: "fill_read_buffer aead rcv = (q, rcv')"
  shows "r = Ok () \<and> message_counter st' = message_counter st + 1
    \<and> message_counter rcv' = message_counter rcv
    \<and> (is_ok q \<longleftrightarrow> message_counter st = message_counter rcv)
    \<and> (is_ok q \<longrightarrow> read_buffer rcv' = data @ replicate 16 0 \<and> rd_data (inner_reader rcv') = rest)"
proof -
  let ?nonce = "stream_nonce random st"
  have nonce: "length ?nonce = 12" using random by (simp add: stream_nonce_def)
  obtain c where c: "encrypt aead (es_key st) data (create_associated_data ?nonce st) = Ok c" "length c = length data + 32"
    "seal_in_place aead (ek_key (es_key st)) (generate_nonce (es_key st)) (create_associated_data ?nonce st) (data @ replicate 16 0) = Ok c"
    "decrypt aead (es_key st) c (create_associated_data ?nonce st) = Ok (data @ replicate 16 0)"
    by (rule encrypt_ok [OF aead(1)])
  note send = encrypt_send_frame [OF c(1) w]
  with sent wire(1) have "wire = frame ?nonce c" by auto
  with wire(2) c(2) len nonce fill have f: "(q, rcv') =
      (case map_err as_crypto_error (decrypt aead (es_key st) c (create_associated_data ?nonce rcv)) of
         Inl e \<Rightarrow> (Err e, rcv\<lparr>inner_reader := (inner_reader rcv)\<lparr>rd_data := rest\<rparr>\<rparr>)
       | Inr d \<Rightarrow> (Ok (), rcv\<lparr>inner_reader := (inner_reader rcv)\<lparr>rd_data := rest\<rparr>, read_buffer := d,
                    read_pos := 0, read_len := length d\<rparr>))"
    by (simp add: fill_frame key)
  show ?thesis
  proof (cases "message_counter st = message_counter rcv")
    case True
    then have "create_associated_data ?nonce rcv = create_associated_data ?nonce st"
      by (simp add: create_associated_data_def)
    with True f c(4) send sent show ?thesis by auto
  next
    case False
    with aead(2) c(3) nonce
    have "\<not> is_ok (open_in_place aead (ek_key (es_key st)) (generate_nonce (es_key st)) (create_associated_data ?nonce rcv) c)"
      unfolding aead_rejects_def create_associated_data_def by blast
    with False f send sent show ?thesis
      by (cases "open_in_place aead (ek_key (es_key st)) (generate_nonce (es_key st)) (create_associated_data ?nonce rcv) c")
         (auto simp: decrypt_def)
  qed
qed

text \<open>A toy cipher whose tag is the beginning of the associated data.\<close>

definition toy_tag :: "bytes \<Rightarrow> bytes" where
  "toy_tag a = take 16 (a @ replicate 16 0)"

definition toy_aead :: Aead where
  "toy_aead =
     \<lparr>seal_in_place = \<lambda>k n a p. Ok (p @ toy_tag a),
      open_in_place = \<lambda>k n a c. if drop (length c - 16) c = toy_tag a then Ok (take (length c - 16) c) else Err ''Unspecified''\<rparr>"

lemma length_toy_tag [simp]: "length (toy_tag a) = 16"
  by (simp add: toy_tag_def)

lemma toy_aead_ok: "aead_ok toy_aead"
  by (simp add: aead_ok_def toy_aead_def)

lemma toy_aead_rejects: "aead_rejects toy_aead"
proof -
  have "i = j" if "toy_tag (u64_to_le_bytes i @ nonce) = toy_tag (u64_to_le_bytes j @ nonce)" for i j nonce
  proof -
    have "take 8 (toy_tag (u64_to_le_bytes k @ nonce)) = u64_to_le_bytes k" for k
      by (simp add: toy_tag_def)
    with that show "i = j" by (metis u64_to_le_bytes_inj)
  qed
  then show ?thesis by (auto simp: aead_rejects_def toy_aead_def)
qed

definition demo_key :: EncryptionKey where
  "demo_key = \<lparr>ek_key = replicate 32 7, nonce_sequence = 0\<rparr>"

definition demo_stream :: "bytes \<Rightarrow> EncryptedStream" where
  "demo_stream incoming =
     EncryptedStream_new \<lparr>rd_data = incoming, rd_end = IoError UnexpectedEof ''early eof''\<rparr>
       \<lparr>wr_data = [], wr_fail = None, wr_flush = None\<rparr> demo_key"

definition demo_wire :: "u64 \<Rightarrow> bytes \<Rightarrow> bytes" where
  "demo_wire i data =
     wr_data (inner_writer (snd (encrypt_send toy_aead [1, 2, 3, 4] data ((demo_stream [])\<lparr>message_counter := i\<rparr>))))"

text \<open>A receiver that has sent nothing accepts the first message and rejects the second.\<close>

theorem message_accepted_iff_counters_agree_witness:
  "is_ok (fst (fill_read_buffer toy_aead (demo_stream (demo_wire 0 [5, 6]))))
   \<and> read_buffer (snd (fill_read_buffer toy_aead (demo_stream (demo_wire 0 [5, 6])))) = [5, 6] @ replicate 16 0
   \<and> \<not> is_ok (fst (fill_read_buffer toy_aead (demo_stream (demo_wire 1 [5, 6]))))"
proof -
  let ?fill = "\<lambda>i. fill_read_buffer toy_aead (demo_stream (demo_wire i [5, 6]))"
  have *: "is_ok (fst (?fill i)) = (i = 0)
      \<and> (is_ok (fst (?fill i)) \<longrightarrow> read_buffer (snd (?fill i)) = [5, 6] @ replicate 16 0)" for i
  proof -
    let ?st = "(demo_stream [])\<lparr>message_counter := i\<rparr>" and ?rcv = "demo_stream (demo_wire i [5, 6])"
    have sides: "healthy (inner_writer ?st)" "length [1, 2, 3, 4 :: u8] = 4" "length [5, 6 :: u8] + 32 < 2 ^ 32"
      "es_key ?rcv = es_key ?st" "rd_data (inner_reader ?rcv) = demo_wire i [5, 6] @ []"
      "message_counter ?st = message_counter ?rcv \<longleftrightarrow> i = 0"
      by (simp_all add: demo_stream_def EncryptedStream_new_def)
    have wire: "wr_data (inner_writer (snd (encrypt_send toy_aead [1, 2, 3, 4] [5, 6] ?st)))
        = wr_data (inner_writer ?st) @ demo_wire i [5, 6]"
      by (simp add: demo_wire_def demo_stream_def EncryptedStream_new_def)
    from message_accepted_iff_counters_agree [OF toy_aead_ok toy_aead_rejects sides(1-4)
        prod.collapse [symmetric] wire sides(5) prod.collapse [symmetric]] sides(6)
    show ?thesis by blast
  qed
  from * [of 0] * [of 1] show ?thesis by simp
qed

section \<open>Control messages are not received\<close>

lemma decrypt_receive_buffered:
  "read_pos st < read_len st \<Longrightarrow> decrypt_receive aead n st = copy_out n st"
  by (simp add: decrypt_receive_def)

lemma receive_payload_drains:
  assumes "read_len st = length (read_buffer st)" "rd_data (inner_reader st) = []"
  shows "\<exists>st'. receive_payload aead payload st = (Err (StreamIo (rd_end (inner_reader st))), st')"
  using assms
proof (induction "unread st" arbitrary: st payload rule: less_induct)
  case less
  show ?case
  proof (cases "read_len st \<le> read_pos st")
    case True
    with less.prems have "fst (decrypt_receive aead 4096 st) = Err (StreamIo (rd_end (inner_reader st)))"
      by (simp add: decrypt_receive_def fill_read_buffer_def inner_read_def)
    then show ?thesis by (subst receive_payload.simps) (auto split: prod.splits)
  next
    case False
    let ?n = "min (read_len st - read_pos st) 4096"
    let ?st = "st\<lparr>read_pos := read_pos st + ?n\<rparr>"
    have bs: "take ?n (drop (read_pos st) (read_buffer st)) \<noteq> []" using False less.prems(1) by simp
    have "unread ?st < unread st" using False by (simp add: unread_def)
    with less.hyps [of ?st] less.prems obtain st' where
      "receive_payload aead (payload @ take ?n (drop (read_pos st) (read_buffer st))) ?st
        = (Err (StreamIo (rd_end (inner_reader st))), st')" by auto
    with False bs show ?thesis
      by (subst receive_payload.simps) (simp add: decrypt_receive_buffered copy_out_def Let_def)
  qed
qed

text \<open>
  A control message is never received: the receiver waits for a message without content, which
  cannot come since sixteen zero bytes are added to each, and fails when the stream ends.
\<close>

theorem control_message_never_received:
  assumes aead: "aead_ok aead" and w: "healthy (inner_writer st)"
    and random: "length random = 4" and len: "length payload + 33 < 2 ^ 32"
    and sent: "send_control_message aead random message_type payload st = (r, st')"
    and wire: "wr_data (inner_writer st') = wr_data (inner_writer st) @ wire"
    and rcv: "rcv = EncryptedStream_new \<lparr>rd_data = wire, rd_end = e\<rparr> rw (es_key st)"
    and "message_counter st = 0"
  shows "r = Ok () \<and> fst (receive_control_message aead rcv) = Err (StreamIo e)"
proof -
  let ?nonce = "stream_nonce random st" and ?data = "message_type # payload"
  have nonce: "length ?nonce = 12" using random by (simp add: stream_nonce_def)
  obtain c where c: "encrypt aead (es_key st) ?data (create_associated_data ?nonce st) = Ok c" "length c = length ?data + 32"
    "decrypt aead (es_key st) c (create_associated_data ?nonce st) = Ok (?data @ replicate 16 0)"
    by (rule encrypt_ok [OF aead])
  note send = encrypt_send_frame [OF c(1) w]
  with sent wire have r: "r = Ok ()" "wire = frame ?nonce c" by (auto simp: send_control_message_def)
  have "create_associated_data ?nonce rcv = create_associated_data ?nonce st" "es_key rcv = es_key st"
    "rd_data (inner_reader rcv) = frame ?nonce c @ []"
    using assms(8) r by (simp_all add: create_associated_data_def rcv EncryptedStream_new_def)
  with c len nonce fill_frame [of rcv ?nonce c "[]" aead] have f: "fill_read_buffer aead rcv =
      (Ok (), rcv\<lparr>inner_reader := (inner_reader rcv)\<lparr>rd_data := []\<rparr>, read_buffer := ?data @ replicate 16 0,
         read_pos := 0, read_len := length (?data @ replicate 16 (0::u8))\<rparr>)"
    by simp
  let ?st1 = "rcv\<lparr>inner_reader := (inner_reader rcv)\<lparr>rd_data := []\<rparr>, read_buffer := ?data @ replicate 16 0,
      read_pos := 1, read_len := length (?data @ replicate 16 (0::u8))\<rparr>"
  have "decrypt_receive aead 1 rcv = (Ok [message_type], ?st1)"
    using f by (simp add: decrypt_receive_def copy_out_def rcv EncryptedStream_new_def)
  moreover have "rd_end (inner_reader ?st1) = e" by (simp add: rcv EncryptedStream_new_def)
  ultimately show ?thesis
    using r receive_payload_drains [of ?st1 aead "[]"] by (auto simp: receive_control_message_def)
qed

theorem control_message_never_received_witness:
  "fst (receive_control_message toy_aead
     (demo_stream (wr_data (inner_writer (snd (send_control_message toy_aead [1, 2, 3, 4] 9 [8] (demo_stream [])))))))
   = Err (StreamIo (IoError UnexpectedEof ''early eof''))"
  using control_message_never_received [OF toy_aead_ok, of "demo_stream []" "[1, 2, 3, 4]" "[8]" 9, OF _ _ _ prod.collapse [symmetric]]
  by (simp add: demo_stream_def EncryptedStream_new_def)

end
