(* ===== verification/Shutdown.thy ===== *)
theory Shutdown
  imports Proxy_Server Transition
begin

text \<open>
  How the forward proxy starts and the program ends: the startup information and the wait for a signal in
  \<^verbatim>\<open>src/src/proxy/server.rs\<close>, the way a signal takes from there through the tasks of the proxy, and the
  signal handler of \<^verbatim>\<open>src/src/utils/signal.rs\<close>.

  The tasks of a server are a state with a step relation. Its tasks are those of the instances, each with a loop for
  packets beside it, and those of the connections and packets that were accepted. \<open>Notify\<close>, of
  \<open>tokio\<close>, is a parameter with the behaviour its documentation promises.
\<close>

section \<open>Waiting for a signal\<close>

datatype Signal = Sigterm | Sigint | OtherSignal

datatype WaitResult = Panicked string | Woken Signal | CtrlC | StillWaiting

text \<open>
  The arguments are the errors of registering the two handlers, those of \<open>ctrl_c\<close> on Windows, and the signals that
  arrive afterwards.
\<close>

definition wait_for_shutdown :: "bool \<Rightarrow> IoError option \<Rightarrow> IoError option \<Rightarrow> Signal list \<Rightarrow> WaitResult" where
  "wait_for_shutdown unix term_error int_error signals =
     (if unix then
        (case (term_error, int_error) of
           (Some _, _) \<Rightarrow> Panicked ''Failed to setup SIGTERM handler''
         | (None, Some _) \<Rightarrow> Panicked ''Failed to setup SIGINT handler''
         | (None, None) \<Rightarrow>
             (case find (\<lambda>s. s = Sigterm \<or> s = Sigint) signals of
                Some s \<Rightarrow> Woken s
              | None \<Rightarrow> StillWaiting))
      else if int_error \<noteq> None \<or> Sigint \<in> set signals then CtrlC else StillWaiting)"

section \<open>The startup information\<close>

text \<open>
  Before anything listens, the server tests the remotes one after the other and prints a line for each rule and its
  status. Durations are in nanoseconds, the texts in UTF-8. The address printed is the server's, also when the
  instance listens on one of its own.
\<close>

definition connectivity_status :: "AppError + nat \<Rightarrow> string" where
  "connectivity_status r =
     (case r of
        Inr d \<Rightarrow>
          [CHR 0xE2, CHR 0x9C, CHR 0x85] @ '' Connected (''
          @ (if d div 10 ^ 6 = 0 then nat_to_string (d div 10 ^ 3) @ [CHR 0xCE, CHR 0xBC] @ ''s)''
             else nat_to_string (d div 10 ^ 6) @ ''ms)'')
      | Inl e \<Rightarrow> [CHR 0xE2, CHR 0x9D, CHR 0x8C] @ '' Failed: '' @ show_AppError e)"

definition rule_line :: "IpAddr \<Rightarrow> nat \<Rightarrow> ProxyInstance \<Rightarrow> string" where
  "rule_line server_ip i inst =
     ''  '' @ nat_to_string (i + 1) @ ''. '' @ show_ip server_ip @ '':'' @ nat_to_string (unat (sa_port (bind_addr inst)))
     @ '' -> '' @ show_ip (sa_ip (pi_remote_addr inst)) @ '':'' @ nat_to_string (unat (sa_port (pi_remote_addr inst)))
     @ (case pi_source_ip inst of Some ip \<Rightarrow> '' (via '' @ show_ip ip @ '')'' | None \<Rightarrow> [])"

definition startup_rules :: "(ProxyInstance \<Rightarrow> ConnectEnv) \<Rightarrow> ProxyServer \<Rightarrow> string list" where
  "startup_rules env srv =
     concat (map (\<lambda>(i, inst).
         [rule_line (ps_bind_ip srv) i inst,
          ''     Status: '' @ connectivity_status (test_remote_connectivity (env inst) inst)])
       (enumerate 0 (proxy_instances srv)))"

section \<open>The signal handler\<close>

text \<open>
  A notifier: a task registers to be notified, and \<open>notify_waiters\<close> wakes those that are registered.
  \<open>notify_ok\<close> is its documented behaviour, over the sets of tasks that wait and that were woken.
\<close>

record 'n Notify =
  notified :: "nat \<Rightarrow> 'n \<Rightarrow> 'n"
  notify_waiters :: "'n \<Rightarrow> 'n"

definition notify_ok :: "'n Notify \<Rightarrow> 'n \<Rightarrow> ('n \<Rightarrow> nat set) \<Rightarrow> ('n \<Rightarrow> nat set) \<Rightarrow> bool" where
  "notify_ok ops new waiting woken \<longleftrightarrow>
     waiting new = {} \<and> woken new = {}
     \<and> (\<forall>t n. waiting (notified ops t n) = insert t (waiting n) \<and> woken (notified ops t n) = woken n)
     \<and> (\<forall>n. waiting (notify_waiters ops n) = {} \<and> woken (notify_waiters ops n) = woken n \<union> waiting n)"

record 'n SignalHandler =
  shutdown_notify :: 'n
  term_task :: bool
  int_task :: bool

definition SignalHandler_new :: "'n \<Rightarrow> 'n SignalHandler" where
  "SignalHandler_new new = \<lparr>shutdown_notify = new, term_task = False, int_task = False\<rparr>"

text \<open>On Unix. A failure to register the second handler leaves the task of the first behind.\<close>

definition setup_signal_handlers ::
  "IoError option \<Rightarrow> IoError option \<Rightarrow> 'n SignalHandler \<Rightarrow> (AppError + unit) \<times> 'n SignalHandler" where
  "setup_signal_handlers term_error int_error h =
     (case term_error of
        Some e \<Rightarrow> (Err (System (SignalHandlingFailed (''Failed to setup SIGTERM handler: '' @ io_text e))), h)
      | None \<Rightarrow>
          (case int_error of
             Some e \<Rightarrow> (Err (System (SignalHandlingFailed (''Failed to setup SIGINT handler: '' @ io_text e))),
                        h\<lparr>term_task := True\<rparr>)
           | None \<Rightarrow> (Ok (), h\<lparr>term_task := True, int_task := True\<rparr>)))"

text \<open>On Windows one task waits for Ctrl+C; when it cannot be set up, that is not reported.\<close>

definition setup_signal_handlers_windows :: "IoError option \<Rightarrow> 'n SignalHandler \<Rightarrow> (AppError + unit) \<times> 'n SignalHandler" where
  "setup_signal_handlers_windows ctrl_c_error h = (Ok (), h\<lparr>int_task := (ctrl_c_error = None)\<rparr>)"

datatype SignalEvent = Arrives Signal | Waits nat | Trigger

text \<open>\<open>wait_for_shutdown\<close> of the handler registers the calling task.\<close>

definition await_shutdown :: "'n Notify \<Rightarrow> nat \<Rightarrow> 'n SignalHandler \<Rightarrow> 'n SignalHandler" where
  "await_shutdown ops t h = h\<lparr>shutdown_notify := notified ops t (shutdown_notify h)\<rparr>"

definition trigger_shutdown :: "'n Notify \<Rightarrow> 'n SignalHandler \<Rightarrow> 'n SignalHandler" where
  "trigger_shutdown ops h = h\<lparr>shutdown_notify := notify_waiters ops (shutdown_notify h)\<rparr>"

text \<open>A signal is handled by its task, which waits for one signal only and then ends.\<close>

fun signal_event :: "'n Notify \<Rightarrow> SignalEvent \<Rightarrow> 'n SignalHandler \<Rightarrow> 'n SignalHandler" where
  "signal_event ops (Arrives Sigterm) h =
     (if term_task h
      then h\<lparr>term_task := False, shutdown_notify := notify_waiters ops (shutdown_notify h)\<rparr> else h)"
| "signal_event ops (Arrives Sigint) h =
     (if int_task h
      then h\<lparr>int_task := False, shutdown_notify := notify_waiters ops (shutdown_notify h)\<rparr> else h)"
| "signal_event ops (Arrives OtherSignal) h = h"
| "signal_event ops (Waits t) h = await_shutdown ops t h"
| "signal_event ops Trigger h = trigger_shutdown ops h"

text \<open>The positions at which waiting tasks are woken: a trigger, and the first signal of either kind.\<close>

definition wakes :: "SignalEvent list \<Rightarrow> SignalEvent \<Rightarrow> bool" where
  "wakes before ev \<longleftrightarrow>
     ev = Trigger \<or> (ev = Arrives Sigterm \<or> ev = Arrives Sigint) \<and> ev \<notin> set before"

definition woken_by :: "SignalEvent list \<Rightarrow> nat \<Rightarrow> bool" where
  "woken_by evs t \<longleftrightarrow> (\<exists>xs ys ev zs. evs = xs @ Waits t # ys @ ev # zs \<and> wakes (xs @ Waits t # ys) ev)"

abbreviation handler_after :: "'n Notify \<Rightarrow> 'n \<Rightarrow> SignalEvent list \<Rightarrow> 'n SignalHandler" where
  "handler_after ops new evs \<equiv>
     fold (signal_event ops) evs (snd (setup_signal_handlers None None (SignalHandler_new new)))"

lemma notify_okD:
  assumes "notify_ok ops new waiting woken"
  shows "waiting new = {}" "woken new = {}"
    "waiting (notified ops t n) = insert t (waiting n)" "woken (notified ops t n) = woken n"
    "waiting (notify_waiters ops n) = {}" "woken (notify_waiters ops n) = woken n \<union> waiting n"
  using assms by (simp_all add: notify_ok_def)

lemma signal_tasks:
  "term_task (handler_after ops new evs) \<longleftrightarrow> Arrives Sigterm \<notin> set evs"
  "int_task (handler_after ops new evs) \<longleftrightarrow> Arrives Sigint \<notin> set evs"
proof (induction evs rule: rev_induct)
  case (snoc ev evs)
  { case 1 then show ?case using snoc by (cases "(ops, ev, handler_after ops new evs)" rule: signal_event.cases)
      (auto simp: await_shutdown_def trigger_shutdown_def) }
  { case 2 then show ?case using snoc by (cases "(ops, ev, handler_after ops new evs)" rule: signal_event.cases)
      (auto simp: await_shutdown_def trigger_shutdown_def) }
qed (simp_all add: setup_signal_handlers_def)

lemma signal_event_notify:
  "shutdown_notify (handler_after ops new (evs @ [ev])) =
     (let n = shutdown_notify (handler_after ops new evs) in
      if wakes evs ev then notify_waiters ops n
      else case ev of Waits t \<Rightarrow> notified ops t n | _ \<Rightarrow> n)"
  using signal_tasks [of ops evs new]
  by (cases "(ops, ev, handler_after ops new evs)" rule: signal_event.cases)
     (auto simp: wakes_def Let_def await_shutdown_def trigger_shutdown_def)

lemma waiting_or_woken:
  assumes "notify_ok ops new waiting woken"
  defines "n \<equiv> \<lambda>evs. shutdown_notify (handler_after ops new evs)"
  shows "waiting (n evs) \<union> woken (n evs) = {t. Waits t \<in> set evs}"
proof (induction evs rule: rev_induct)
  case Nil
  then show ?case by (simp add: n_def setup_signal_handlers_def SignalHandler_new_def notify_okD [OF assms(1)])
next
  case (snoc ev evs)
  have "n (evs @ [ev]) = (if wakes evs ev then notify_waiters ops (n evs)
      else case ev of Waits t \<Rightarrow> notified ops t (n evs) | _ \<Rightarrow> n evs)"
    unfolding n_def by (simp only: signal_event_notify Let_def)
  with snoc show ?case
    by (cases ev) (auto simp: notify_okD [OF assms(1)] wakes_def)
qed

lemma woken_by_snoc: "woken_by (evs @ [ev]) t \<longleftrightarrow> woken_by evs t \<or> Waits t \<in> set evs \<and> wakes evs ev"
proof
  assume "woken_by (evs @ [ev]) t"
  then obtain xs ys e zs where split: "evs @ [ev] = xs @ Waits t # ys @ e # zs" "wakes (xs @ Waits t # ys) e"
    by (auto simp: woken_by_def)
  show "woken_by evs t \<or> Waits t \<in> set evs \<and> wakes evs ev"
  proof (cases zs rule: rev_cases)
    case Nil
    with split(1) have "evs = xs @ Waits t # ys" "ev = e"
      using append1_eq_conv [of evs ev "xs @ Waits t # ys" e] by simp_all
    with split(2) show ?thesis by simp
  next
    case (snoc zs' z)
    with split(1) have "evs = xs @ Waits t # ys @ e # zs'"
      using append1_eq_conv [of evs ev "xs @ Waits t # ys @ e # zs'" z] by simp
    with split(2) show ?thesis by (auto simp: woken_by_def)
  qed
next
  assume "woken_by evs t \<or> Waits t \<in> set evs \<and> wakes evs ev"
  then show "woken_by (evs @ [ev]) t"
  proof
    assume "woken_by evs t"
    then show ?thesis by (fastforce simp: woken_by_def)
  next
    assume "Waits t \<in> set evs \<and> wakes evs ev"
    then obtain xs ys where "evs = xs @ Waits t # ys" "wakes evs ev" by (meson split_list)
    then show ?thesis unfolding woken_by_def by (intro exI [of _ xs] exI [of _ ys] exI [of _ ev] exI [of _ "[]"]) simp
  qed
qed

lemma woken_by_Nil: "\<not> woken_by [] t"
  by (simp add: woken_by_def)


text \<open>A notifier made of the two sets, and a signal that comes before anything waits for it.\<close>

definition set_notify :: "(nat set \<times> nat set) Notify" where
  "set_notify = \<lparr>notified = \<lambda>t (w, d). (insert t w, d), notify_waiters = \<lambda>(w, d). ({}, d \<union> w)\<rparr>"

lemma set_notify_ok: "notify_ok set_notify ({}, {}) fst snd"
  by (auto simp: notify_ok_def set_notify_def split: prod.splits)


section \<open>The tasks of the forward proxy\<close>

datatype TaskState = NotStarted | Binding | Serving | Finished

datatype Phase = Announcing | Spawning | WaitingForSignal | Joining | Returned

text \<open>
  An instance has its task and, once it is bound, a loop for packets, whose receiver misses a broadcast that was
  sent before the loop was made. \<open>open_tasks\<close> counts the tasks of accepted connections and packets that
  still run; nobody waits for them.
\<close>

record InstanceRun =
  task :: TaskState
  udp_loop :: bool
  udp_deaf :: bool

record ServerRun =
  phase :: Phase
  instances :: "InstanceRun list"
  shutdown_sent :: bool
  open_tasks :: nat

definition set_instance :: "nat \<Rightarrow> (InstanceRun \<Rightarrow> InstanceRun) \<Rightarrow> ServerRun \<Rightarrow> ServerRun" where
  "set_instance i f s = s\<lparr>instances := (instances s)[i := f (instances s ! i)]\<rparr>"

text \<open>Steps of the server and its instances, and steps of clients.\<close>

inductive server_step :: "ServerRun \<Rightarrow> ServerRun \<Rightarrow> bool" where
  announced: "phase s = Announcing \<Longrightarrow> server_step s (s\<lparr>phase := Spawning\<rparr>)"
| spawned: "phase s = Spawning \<Longrightarrow> i < length (instances s) \<Longrightarrow> task (instances s ! i) = NotStarted \<Longrightarrow>
    list_all (\<lambda>r. task r \<noteq> NotStarted) (take i (instances s)) \<Longrightarrow>
    server_step s (set_instance i (task_update (\<lambda>_. Binding)) s)"
| all_spawned: "phase s = Spawning \<Longrightarrow> list_all (\<lambda>r. task r \<noteq> NotStarted) (instances s) \<Longrightarrow>
    server_step s (s\<lparr>phase := WaitingForSignal\<rparr>)"
| bind_failed: "i < length (instances s) \<Longrightarrow> task (instances s ! i) = Binding \<Longrightarrow>
    server_step s (set_instance i (task_update (\<lambda>_. Finished)) s)"
| bound: "i < length (instances s) \<Longrightarrow> task (instances s ! i) = Binding \<Longrightarrow>
    server_step s (set_instance i (\<lambda>r. r\<lparr>task := Serving, udp_loop := True, udp_deaf := shutdown_sent s\<rparr>) s)"
| signalled: "phase s = WaitingForSignal \<Longrightarrow> server_step s (s\<lparr>phase := Joining, shutdown_sent := True\<rparr>)"
| instance_stops: "i < length (instances s) \<Longrightarrow> task (instances s ! i) = Serving \<Longrightarrow> shutdown_sent s \<Longrightarrow>
    server_step s (set_instance i (task_update (\<lambda>_. Finished)) s)"
| udp_stops: "i < length (instances s) \<Longrightarrow> udp_loop (instances s ! i) \<Longrightarrow> shutdown_sent s \<Longrightarrow>
    \<not> udp_deaf (instances s ! i) \<or> phase s = Returned \<Longrightarrow>
    server_step s (set_instance i (udp_loop_update (\<lambda>_. False)) s)"
| joined: "phase s = Joining \<Longrightarrow> list_all (\<lambda>r. task r = Finished) (instances s) \<Longrightarrow>
    server_step s (s\<lparr>phase := Returned\<rparr>)"

inductive client_step :: "ServerRun \<Rightarrow> ServerRun \<Rightarrow> bool" where
  accepted: "i < length (instances s) \<Longrightarrow> task (instances s ! i) = Serving \<Longrightarrow>
    client_step s (s\<lparr>open_tasks := Suc (open_tasks s)\<rparr>)"
| packet: "i < length (instances s) \<Longrightarrow> udp_loop (instances s ! i) \<Longrightarrow>
    client_step s (s\<lparr>open_tasks := Suc (open_tasks s)\<rparr>)"
| task_ends: "open_tasks s = Suc n \<Longrightarrow> client_step s (s\<lparr>open_tasks := n\<rparr>)"

inductive_cases server_stepE: "server_step s t"
inductive_cases client_stepE: "client_step s t"

definition run_step :: "ServerRun \<Rightarrow> ServerRun \<Rightarrow> bool" where
  "run_step s t \<longleftrightarrow> server_step s t \<or> client_step s t"

definition run_start :: "ServerRun \<Rightarrow> bool" where
  "run_start s \<longleftrightarrow>
     phase s = Announcing \<and> \<not> shutdown_sent s \<and> open_tasks s = 0
     \<and> list_all (\<lambda>r. r = \<lparr>task = NotStarted, udp_loop = False, udp_deaf = False\<rparr>) (instances s)"

definition run_inv :: "ServerRun \<Rightarrow> bool" where
  "run_inv s \<longleftrightarrow>
     (shutdown_sent s \<longleftrightarrow> phase s = Joining \<or> phase s = Returned)
     \<and> (phase s \<noteq> Announcing \<and> phase s \<noteq> Spawning \<longrightarrow> list_all (\<lambda>r. task r \<noteq> NotStarted) (instances s))
     \<and> (phase s = Returned \<longrightarrow> list_all (\<lambda>r. task r = Finished) (instances s))
     \<and> list_all (\<lambda>r. udp_loop r \<longrightarrow> task r = Serving \<or> shutdown_sent s) (instances s)"

lemmas run_inv_simps = run_inv_def set_instance_def list_all_length nth_list_update

lemma server_step_inv: "server_step s t \<Longrightarrow> run_inv s \<Longrightarrow> run_inv t"
  by (induction rule: server_step.induct) (auto simp: run_inv_simps split: if_splits)

lemma client_step_inv: "client_step s t \<Longrightarrow> run_inv s \<Longrightarrow> run_inv t"
  by (induction rule: client_step.induct) (auto simp: run_inv_simps)

interpretation server_run: invariant run_start run_step run_inv
proof unfold_locales
  show "run_inv s" if "run_start s" for s using that by (auto simp: run_inv_simps run_start_def)
  show "run_inv t" if "run_inv s" "run_step s t" for s t
    using that by (auto simp: run_step_def intro: server_step_inv client_step_inv)
qed

text \<open>What is left to do for the server and its instances.\<close>

fun task_work :: "TaskState \<Rightarrow> nat" where
  "task_work NotStarted = 4"
| "task_work Binding = 3"
| "task_work Serving = 1"
| "task_work Finished = 0"

fun phase_work :: "Phase \<Rightarrow> nat" where
  "phase_work Announcing = 4"
| "phase_work Spawning = 3"
| "phase_work WaitingForSignal = 2"
| "phase_work Joining = 1"
| "phase_work Returned = 0"

definition instance_work :: "InstanceRun \<Rightarrow> nat" where
  "instance_work r = task_work (task r) + (if udp_loop r then 1 else 0)"

definition work :: "ServerRun \<Rightarrow> nat" where
  "work s = phase_work (phase s) + (\<Sum>r \<leftarrow> instances s. instance_work r)"

lemma set_instance_work:
  assumes "i < length (instances s)" "instance_work (f (instances s ! i)) < instance_work (instances s ! i)"
  shows "work (set_instance i f s) < work s"
proof -
  have le: "xs ! i \<le> sum_list xs" if "i < length xs" for xs :: "nat list"
    using that by (simp add: elem_le_sum_list)
  have "(\<Sum>r \<leftarrow> (instances s)[i := f (instances s ! i)]. instance_work r)
      = (\<Sum>r \<leftarrow> instances s. instance_work r) + instance_work (f (instances s ! i)) - instance_work (instances s ! i)"
    using assms(1) by (simp add: map_update sum_list_update)
  with le [of "map instance_work (instances s)"] assms show ?thesis
    by (simp add: work_def set_instance_def)
qed

lemma server_step_work: "server_step s t \<Longrightarrow> work t < work s"
  by (induction rule: server_step.induct)
     ((rule set_instance_work; simp add: instance_work_def) | simp add: work_def)+

lemma client_step_work: "client_step s t \<Longrightarrow> work t = work s \<and> phase t = phase s \<and> shutdown_sent t = shutdown_sent s"
  by (induction rule: client_step.induct) (simp_all add: work_def)

lemma server_step_sent: "server_step s t \<Longrightarrow> shutdown_sent s \<Longrightarrow> shutdown_sent t"
  by (induction rule: server_step.induct) (simp_all add: set_instance_def)

lemma sent_progress:
  assumes inv: "run_inv s" and sent: "shutdown_sent s"
  shows "(\<exists>t. server_step s t)
    \<or> phase s = Returned \<and> list_all (\<lambda>r. task r = Finished \<and> \<not> udp_loop r) (instances s)"
proof (cases "list_all (\<lambda>r. task r = Finished) (instances s)")
  case fin: True
  from inv sent have "phase s = Joining \<or> phase s = Returned" by (simp add: run_inv_def)
  then show ?thesis
  proof
    assume "phase s = Joining"
    with fin joined show ?thesis by blast
  next
    assume ret: "phase s = Returned"
    show ?thesis
    proof (cases "list_all (\<lambda>r. \<not> udp_loop r) (instances s)")
      case True
      with fin ret show ?thesis by (simp add: list_all_iff)
    next
      case False
      then obtain i where "i < length (instances s)" "udp_loop (instances s ! i)" by (auto simp: list_all_length)
      with sent ret udp_stops show ?thesis by blast
    qed
  qed
next
  case False
  then obtain i where i: "i < length (instances s)" "task (instances s ! i) \<noteq> Finished" by (auto simp: list_all_length)
  with inv sent have "task (instances s ! i) \<noteq> NotStarted" by (auto simp: run_inv_simps)
  with i have "task (instances s ! i) = Binding \<or> task (instances s ! i) = Serving"
    by (cases "task (instances s ! i)") auto
  with i sent bind_failed instance_stops show ?thesis by blast
qed

text \<open>
  C17. Shutdown completes. Once a signal has come, the server or one of its instances can take a step
  until the server has returned with every listener closed and every loop ended; every such step leaves
  less to do, whatever clients do meanwhile; and the server does not return before all its instances have stopped.
\<close>

theorem shutdown_completes:
  assumes "reach run_start run_step s"
  shows "(shutdown_sent s \<longrightarrow> (\<exists>t. server_step s t)
       \<or> phase s = Returned \<and> list_all (\<lambda>r. task r = Finished \<and> \<not> udp_loop r) (instances s))
    \<and> (\<forall>t. server_step s t \<longrightarrow> work t < work s)
    \<and> (\<forall>t. client_step s t \<longrightarrow> work t = work s)
    \<and> (\<forall>t. run_step s t \<and> shutdown_sent s \<longrightarrow> shutdown_sent t)
    \<and> (phase s = Returned \<longrightarrow> shutdown_sent s \<and> list_all (\<lambda>r. task r = Finished) (instances s))"
proof -
  note inv = server_run.reach_inv [OF assms]
  then have "phase s = Returned \<longrightarrow> shutdown_sent s \<and> list_all (\<lambda>r. task r = Finished) (instances s)"
    by (simp add: run_inv_def)
  then show ?thesis
    using sent_progress [OF inv] server_step_work client_step_work server_step_sent
    unfolding run_step_def by blast
qed

definition one_instance :: "Phase \<Rightarrow> TaskState \<Rightarrow> bool \<Rightarrow> bool \<Rightarrow> nat \<Rightarrow> ServerRun" where
  "one_instance ph ts udp sent n =
     \<lparr>phase = ph, instances = [\<lparr>task = ts, udp_loop = udp, udp_deaf = False\<rparr>], shutdown_sent = sent, open_tasks = n\<rparr>"

lemma one_instance_reach:
  "reach run_start run_step (one_instance Joining Serving True True 1)"
  "reach run_start run_step (one_instance Returned Finished True True 1)"
proof -
  let ?R = "reach run_start run_step"
  have step: "?R s \<Longrightarrow> server_step s t \<Longrightarrow> ?R t" for s t
    using reach_step [of run_start run_step s t] by (simp add: run_step_def)
  have "?R (one_instance Announcing NotStarted False False 0)"
    by (rule reach_init) (simp add: run_start_def one_instance_def)
  then have "?R (one_instance Spawning NotStarted False False 0)"
    by (rule step) (use announced [of "one_instance Announcing NotStarted False False 0"] in
        \<open>simp add: one_instance_def\<close>)
  then have "?R (one_instance Spawning Binding False False 0)"
    by (rule step) (use spawned [of "one_instance Spawning NotStarted False False 0" 0] in
        \<open>simp add: one_instance_def set_instance_def\<close>)
  then have "?R (one_instance WaitingForSignal Binding False False 0)"
    by (rule step) (use all_spawned [of "one_instance Spawning Binding False False 0"] in
        \<open>simp add: one_instance_def\<close>)
  then have "?R (one_instance WaitingForSignal Serving True False 0)"
    by (rule step) (use bound [of 0 "one_instance WaitingForSignal Binding False False 0"] in
        \<open>simp add: one_instance_def set_instance_def\<close>)
  moreover have "client_step (one_instance WaitingForSignal Serving True False 0) (one_instance WaitingForSignal Serving True False 1)"
    using accepted [of 0 "one_instance WaitingForSignal Serving True False 0"] by (simp add: one_instance_def)
  ultimately have "?R (one_instance WaitingForSignal Serving True False 1)"
    using reach_step [of run_start run_step "one_instance WaitingForSignal Serving True False 0"]
    by (simp add: run_step_def)
  then show j: "?R (one_instance Joining Serving True True 1)"
    by (rule step) (use signalled [of "one_instance WaitingForSignal Serving True False 1"] in
        \<open>simp add: one_instance_def\<close>)
  then have "?R (one_instance Joining Finished True True 1)"
    by (rule step) (use instance_stops [of 0 "one_instance Joining Serving True True 1"] in
        \<open>simp add: one_instance_def set_instance_def\<close>)
  then show "?R (one_instance Returned Finished True True 1)"
    by (rule step) (use joined [of "one_instance Joining Finished True True 1"] in
        \<open>simp add: one_instance_def\<close>)
qed

theorem shutdown_completes_witness:
  "\<exists>t. server_step (one_instance Joining Serving True True 1) t
     \<and> work t < work (one_instance Joining Serving True True 1)"
proof -
  have "shutdown_sent (one_instance Joining Serving True True 1)"
    "phase (one_instance Joining Serving True True 1) \<noteq> Returned" by (simp_all add: one_instance_def)
  with shutdown_completes [OF one_instance_reach(1)] show ?thesis by blast
qed

text \<open>The server returns while connections it has accepted are still served.\<close>

theorem shutdown_leaves_connections:
  "\<exists>s. reach run_start run_step s \<and> phase s = Returned \<and> 0 < open_tasks s"
  using one_instance_reach(2) by (auto simp: one_instance_def)

end
