(* ===== verification/System_Utils.thy ===== *)
theory System_Utils
  imports Copy_Loops
begin

text \<open>
  The checks of the system, \<^verbatim>\<open>src/src/utils/system.rs\<close>, and the debug switch, \<^verbatim>\<open>src/src/utils/debug.rs\<close>. The
  files of the system, its environment and its limits are arguments; what the checks find out is
  computed and dropped, as in the code.
\<close>

section \<open>Strings\<close>

text \<open>\<open>lines\<close>, with a line feed and an optional carriage return as the end of a line, and the second word of \<open>split_whitespace\<close>.\<close>

definition strip_cr :: "string \<Rightarrow> string" where
  "strip_cr l = (if l \<noteq> [] \<and> last l = CHR 0x0D then butlast l else l)"

definition str_lines :: "string \<Rightarrow> string list" where
  "str_lines s =
     (let ls = split_on (CHR 0x0A) s
      in map strip_cr (butlast ls) @ (if last ls = [] then [] else [last ls]))"

fun span_word :: "string \<Rightarrow> string \<times> string" where
  "span_word [] = ([], [])"
| "span_word (c # cs) = (if 0 < ws_len (c # cs) then ([], c # cs) else apfst ((#) c) (span_word cs))"

definition second_word :: "string \<Rightarrow> string option" where
  "second_word s =
     (let first = trim_start s;
          second = trim_start (snd (span_word first))
      in if first = [] \<or> second = [] then None else Some (fst (span_word second)))"

definition parse_bounded :: "nat \<Rightarrow> string \<Rightarrow> nat option" where
  "parse_bounded bound s =
     (let ds = strip_plus s
      in if ds = [] then None
         else (case digits_val 0 ds of None \<Rightarrow> None | Some n \<Rightarrow> if n < bound then Some n else None))"

section \<open>The checks\<close>

definition read_sysfs_value :: "(string \<Rightarrow> IoError + string) \<Rightarrow> string \<Rightarrow> AppError + string" where
  "read_sysfs_value read_file path =
     (case read_file path of
        Inl e \<Rightarrow> Err (System (SystemCallFailed (''Failed to read '' @ path @ '': '' @ io_text e)))
      | Inr s \<Rightarrow> Ok (trim s))"

text \<open>\<open>rlimit\<close> is the soft limit of open files, \<open>None\<close> when it cannot be read; whether it is low is dropped.\<close>

definition check_file_descriptor_limits :: "OS \<Rightarrow> nat option \<Rightarrow> AppError + unit" where
  "check_file_descriptor_limits os rlimit =
     (let _ = (if os = Windows then None else map_option (\<lambda>current_limit. current_limit < 65536) rlimit)
      in Ok ())"

text \<open>
  \<open>pipe1\<close> and \<open>pipe2\<close> are the errors of making the two pipes. The write to the first and the \<open>splice\<close> between
  them are made and their results dropped.
\<close>

definition check_splice_availability :: "string option \<Rightarrow> string option \<Rightarrow> AppError + unit" where
  "check_splice_availability pipe1 pipe2 =
     (case pipe1 of
        Some e \<Rightarrow> Err (System (SystemCallFailed (''Failed to create test pipe: '' @ e)))
      | None \<Rightarrow>
          (case pipe2 of
             Some e \<Rightarrow> Err (System (SystemCallFailed (''Failed to create second test pipe: '' @ e)))
           | None \<Rightarrow> Ok ()))"

definition check_linux_network_settings ::
  "(string \<Rightarrow> IoError + string) \<Rightarrow> string option \<Rightarrow> string option \<Rightarrow> AppError + unit" where
  "check_linux_network_settings read_file pipe1 pipe2 =
     (let _ = (case read_sysfs_value read_file ''/proc/sys/net/core/somaxconn'' of
                 Inr s \<Rightarrow> parse_bounded (2 ^ 64) s | Inl _ \<Rightarrow> None);
          _ = read_sysfs_value read_file ''/proc/sys/net/ipv4/tcp_tw_reuse'';
          _ = read_sysfs_value read_file ''/proc/sys/net/ipv4/tcp_fin_timeout''
      in check_splice_availability pipe1 pipe2)"

definition memory_total_mb :: "string \<Rightarrow> nat list" where
  "memory_total_mb meminfo =
     List.map_filter
       (\<lambda>l. if strip_prefix ''MemTotal:'' l \<noteq> None
            then map_option (\<lambda>total_kb. total_kb div 1024) (Option.bind (second_word l) (parse_bounded (2 ^ 64)))
            else None)
       (str_lines meminfo)"

definition check_memory_limits :: "OS \<Rightarrow> (string \<Rightarrow> IoError + string) \<Rightarrow> AppError + unit" where
  "check_memory_limits os read_file =
     (let _ = (if os = Linux then
                 (case read_sysfs_value read_file ''/proc/meminfo'' of
                    Inr meminfo \<Rightarrow> memory_total_mb meminfo | Inl _ \<Rightarrow> [])
               else [])
      in Ok ())"

definition check_system_requirements ::
  "OS \<Rightarrow> nat option \<Rightarrow> (string \<Rightarrow> IoError + string) \<Rightarrow> string option \<Rightarrow> string option \<Rightarrow> AppError + unit" where
  "check_system_requirements os rlimit read_file pipe1 pipe2 =
     and_then (check_file_descriptor_limits os rlimit) (\<lambda>_.
     and_then (if os = Linux then check_linux_network_settings read_file pipe1 pipe2 else Ok ()) (\<lambda>_.
     and_then (check_memory_limits os read_file) (\<lambda>_. Ok ())))"

definition optimize_system_settings :: "AppError + unit" where
  "optimize_system_settings = Ok ()"

text \<open>\<open>env\<close> is the environment.\<close>

definition is_running_in_container ::
  "OS \<Rightarrow> (string \<Rightarrow> bool) \<Rightarrow> (string \<Rightarrow> IoError + string) \<Rightarrow> (string \<Rightarrow> string option) \<Rightarrow> bool" where
  "is_running_in_container os exists_path read_file env =
     (if os = Linux then
        (if exists_path ''/.dockerenv'' then True
         else if (case read_file ''/proc/1/cgroup'' of
                    Inr cgroup_content \<Rightarrow> contains_str ''docker'' cgroup_content \<or> contains_str ''containerd'' cgroup_content
                  | Inl _ \<Rightarrow> False) then True
         else env ''container'' \<noteq> None)
      else False)"

record SystemInfo =
  si_os :: string
  si_arch :: string
  si_target_env :: string
  si_family :: string

text \<open>The constants of the target; the environment is filled with the operating system once more.\<close>

definition get_system_info :: "string \<Rightarrow> string \<Rightarrow> string \<Rightarrow> SystemInfo" where
  "get_system_info os_name arch fam =
     \<lparr>si_os = os_name, si_arch = arch, si_target_env = os_name, si_family = fam\<rparr>"

definition show_system_info :: "SystemInfo \<Rightarrow> string" where
  "show_system_info i =
     ''System Information:'' @ [CHR 0x0A]
     @ ''- OS: '' @ si_os i @ [CHR 0x0A]
     @ ''- Architecture: '' @ si_arch i @ [CHR 0x0A]
     @ ''- Environment: '' @ si_target_env i @ [CHR 0x0A]
     @ ''- Family: '' @ si_family i"

section \<open>The debug switch\<close>

text \<open>Initializing the logger a second time is a panic, \<open>None\<close>.\<close>

record DebugState =
  debug_flag :: bool
  rust_log :: "string option"
  logger_set :: bool

definition init_debug :: "bool \<Rightarrow> DebugState \<Rightarrow> DebugState option" where
  "init_debug enabled st =
     (let st1 = st\<lparr>debug_flag := enabled\<rparr> in
      if enabled then
        (if logger_set st then None
         else Some (st1\<lparr>rust_log := Some ''debug'', logger_set := True\<rparr>))
      else Some st1)"

definition is_debug_enabled :: "DebugState \<Rightarrow> bool" where
  "is_debug_enabled st = debug_flag st"

section \<open>Properties\<close>

text \<open>
  The system requirements are met exactly when two pipes can be made, and on other systems than Linux always:
  neither the limits, nor the settings of the network, nor the memory count.
\<close>

lemma requirements_are_pipes:
  "is_ok (check_system_requirements os rlimit read_file pipe1 pipe2) \<longleftrightarrow> os = Linux \<longrightarrow> pipe1 = None \<and> pipe2 = None"
  by (auto simp: check_system_requirements_def check_file_descriptor_limits_def check_linux_network_settings_def
      check_splice_availability_def check_memory_limits_def Let_def split: option.splits)

lemma in_container_iff:
  "is_running_in_container Linux ex rd env \<longleftrightarrow>
     ex ''/.dockerenv'' \<or> env ''container'' \<noteq> None
     \<or> (\<exists>s. rd ''/proc/1/cgroup'' = Ok s \<and> (contains_str ''docker'' s \<or> contains_str ''containerd'' s))"
  by (auto simp: is_running_in_container_def split: sum.splits)

lemma span_word_append: "fst (span_word s) @ snd (span_word s) = s"
  by (induction s) auto

text \<open>The line of the memory file that the check looks for.\<close>

lemma memory_total_sample:
  "memory_total_mb (''MemTotal:       16384 kB'' @ [CHR 0x0A] @ ''MemFree: 7 kB'') = [16]"
  by (simp add: memory_total_mb_def str_lines_def second_word_def parse_bounded_def map_filter_def
      strip_cr_def ws_len_def eval_simps)

text \<open>The switch can be turned on once and then only off.\<close>

lemma init_debug_twice:
  "init_debug True st = Some st' \<Longrightarrow> init_debug True st' = None
     \<and> (\<exists>st''. init_debug False st' = Some st'' \<and> \<not> is_debug_enabled st'')"
  by (auto simp: init_debug_def is_debug_enabled_def Let_def split: if_splits)

end
