(* ===== verification/Bench.thy ===== *)
theory Bench
  imports Copy_Loops F64
begin

text \<open>
  The programs around the crate: the throughput benchmark, \<^verbatim>\<open>src/src/bin/bench_throughput.rs\<close>, which sends blocks from a client to a server that
  counts what arrives, and the build script, \<^verbatim>\<open>src/build.rs\<close>.
\<close>

section \<open>The benchmark\<close>

text \<open>The command line, with the name of the program first. \<open>None\<close> is a panic.\<close>

datatype BenchMode = ServerMode string | ClientMode string

definition bench_main :: "string list \<Rightarrow> BenchMode option" where
  "bench_main args =
     (if length args \<le> 2 then None
      else
        (let mode = args ! 1; addr = ''127.0.0.1:'' @ args ! 2 in
         if mode = ''server'' then Some (ServerMode addr)
         else if mode = ''client'' then Some (ClientMode addr)
         else None))"

text \<open>A connection of the server: it reads until the end of the stream or an error, and counts.\<close>

function sink_loop :: "nat \<Rightarrow> Arrival list \<Rightarrow> nat" where
  "sink_loop total_bytes src =
     (case read_some (KiB 64) src of
        (Inl e, src1) \<Rightarrow> total_bytes
      | (Inr d, src1) \<Rightarrow> if d = [] then total_bytes else sink_loop (total_bytes + length d) src1)"
  by pat_completeness auto
termination
  by (relation "measure (\<lambda>(total_bytes, src). source_size src)")
    (auto dest!: sym [of "(_, _)" "read_some _ _"] read_some_Ok)

declare sink_loop.simps [simp del]

text \<open>The server accepts until accepting fails: the counts of the connections, and the error.\<close>

datatype Incoming = Connection "Arrival list" | AcceptFailed IoError

fun accept_connections :: "Incoming list \<Rightarrow> nat list \<times> IoError option" where
  "accept_connections [] = ([], None)"
| "accept_connections (Connection src # evs) = apfst ((#) (sink_loop 0 src)) (accept_connections evs)"
| "accept_connections (AcceptFailed e # evs) = ([], Some e)"

definition bench_run_server :: "IoError option \<Rightarrow> Incoming list \<Rightarrow> nat list \<times> IoError option" where
  "bench_run_server bind_error evs =
     (case bind_error of Some e \<Rightarrow> ([], Some e) | None \<Rightarrow> accept_connections evs)"

text \<open>The client writes a block of ones again and again; \<open>None\<close> is a run without end.\<close>

definition bench_block :: bytes where
  "bench_block = replicate (KiB 64) 1"

partial_function (option) send_loop :: "nat \<Rightarrow> Writer \<Rightarrow> (nat \<times> Writer) option" where
  "send_loop total_bytes w =
     (case write_all bench_block w of
        (Inr _, w1) \<Rightarrow> send_loop (total_bytes + length bench_block) w1
      | (Inl e, w1) \<Rightarrow> Some (total_bytes, w1))"

definition bench_run_client :: "IoError option \<Rightarrow> Writer \<Rightarrow> (IoError + nat \<times> Writer) option" where
  "bench_run_client connect_error w =
     (case connect_error of Some e \<Rightarrow> Some (Err e) | None \<Rightarrow> map_option Ok (send_loop 0 w))"

text \<open>A line of statistics, each second: the speed since the last one.\<close>

definition megabytes :: "(rat \<Rightarrow> f64) \<Rightarrow> u64 \<Rightarrow> f64" where
  "megabytes rnd n = f64_div rnd (f64_div rnd (u64_as_f64 rnd n) 1024) 1024"

fun speed_reports :: "(rat \<Rightarrow> f64) \<Rightarrow> u64 \<Rightarrow> u64 list \<Rightarrow> (f64 \<times> f64) list" where
  "speed_reports rnd last_bytes [] = []"
| "speed_reports rnd last_bytes (current_bytes # samples) =
     (megabytes rnd (current_bytes - last_bytes), megabytes rnd current_bytes) # speed_reports rnd current_bytes samples"

section \<open>The build script\<close>

text \<open>The lines for \<open>cargo\<close>, from the variables \<open>TARGET\<close> and \<open>PROFILE\<close>.\<close>

definition build_main :: "string option \<Rightarrow> string option \<Rightarrow> string list" where
  "build_main TARGET PROFILE =
     (let target = (case TARGET of Some v \<Rightarrow> v | None \<Rightarrow> []);
          profile = (case PROFILE of Some v \<Rightarrow> v | None \<Rightarrow> [])
      in
      (if target = ''arm-unknown-linux-musleabihf'' then
         [''cargo:rustc-cfg=arm_arch'', ''cargo:rustc-link-arg=-specs'',
          ''cargo:rustc-link-arg=/usr/lib/arm-linux-gnueabihf/musl-gcc.specs'']
       else if target = ''aarch64-unknown-linux-musl'' then [''cargo:rustc-cfg=aarch64_arch'']
       else if target = ''x86_64-unknown-linux-musl'' then [''cargo:rustc-cfg=x86_64_arch'']
       else [])
      @ (if profile = ''release'' then [''cargo:rustc-link-arg=-s''] else []))"

section \<open>What is measured\<close>

lemma length_bench_block [simp]: "length bench_block = KiB 64"
  by (simp add: bench_block_def)

lemma sink_loop_total: "clean src \<Longrightarrow> sink_loop tot src = tot + length (payload src)"
proof (induction tot src rule: sink_loop.induct)
  case (1 tot src)
  obtain r src1 where r: "read_some (KiB 64) src = (r, src1)" by fastforce
  show ?case
  proof (cases r)
    case (Inl e)
    with r read_some_Err "1.prems" show ?thesis by blast
  next
    case (Inr d)
    with read_some_Ok [of "KiB 64" src d src1] r "1.prems" have
      d: "payload src = d @ payload src1" "clean src1" "d = [] \<longrightarrow> src1 = []" by (auto split: if_splits)
    show ?thesis
    proof (cases "d = []")
      case True
      with d r Inr show ?thesis by (simp add: sink_loop.simps [of tot src])
    next
      case False
      with "1.IH" [OF r [symmetric] Inr] d have "sink_loop (tot + length d) src1 = tot + length d + length (payload src1)"
        by auto
      with False d r Inr show ?thesis by (simp add: sink_loop.simps [of tot src])
    qed
  qed
qed

text \<open>A client whose connection breaks returns, having counted the whole blocks that were written.\<close>

lemma send_loop_returns:
  assumes "wr_fail w = Some (k, e)" "length (wr_data w) \<le> k"
  shows "\<exists>w'. send_loop tot w = Some (tot + (k - length (wr_data w)) div KiB 64 * KiB 64, w') \<and> length (wr_data w') = k"
  using assms
proof (induction "k - length (wr_data w)" arbitrary: tot w rule: less_induct)
  case less
  show ?case
  proof (cases "length (wr_data w) + KiB 64 \<le> k")
    case True
    let ?w = "w\<lparr>wr_data := wr_data w @ bench_block\<rparr>"
    have step: "send_loop tot w = send_loop (tot + KiB 64) ?w"
      using True less.prems by (subst send_loop.simps) (simp add: write_all_def)
    have "(k - length (wr_data w)) div KiB 64 = Suc ((k - length (wr_data ?w)) div KiB 64)"
      using True by (simp add: le_div_geq diff_diff_left)
    with less.hyps [of ?w "tot + KiB 64"] less.prems True step show ?thesis by (auto simp: algebra_simps)
  next
    case False
    then have "(k - length (wr_data w)) div KiB 64 = 0" by simp
    with False less.prems show ?thesis
      by (subst send_loop.simps) (simp add: write_all_def min_def)
  qed
qed

text \<open>A client whose connection never breaks does not return.\<close>

lemma send_loop_fails:
  assumes "send_loop tot w = Some r"
  shows "wr_fail w \<noteq> None"
proof (rule send_loop.raw_induct [OF _ assms])
  fix f tot w r
  assume IH: "\<And>tot w r. f tot w = Some r \<Longrightarrow> wr_fail w \<noteq> None"
    and step: "(case write_all bench_block w of
        (Inl e, w1) \<Rightarrow> Some (tot, w1) | (Inr _, w1) \<Rightarrow> f (tot + length bench_block) w1) = Some r"
  show "wr_fail w \<noteq> None"
  proof
    assume healthy: "wr_fail w = None"
    with step have "f (tot + length bench_block) (w\<lparr>wr_data := wr_data w @ bench_block\<rparr>) = Some r" by simp
    from IH [OF this] healthy show False by simp
  qed
qed

text \<open>
  The benchmark through the proxy measures what it means to. A client whose connection breaks after \<open>k\<close> bytes returns with the count of its
  whole blocks; when the copier of the proxy passes on what it was sent, however it is cut into pieces, the server counts \<open>k\<close>
  bytes: less than a block more. A client whose connection does not break never returns.
\<close>

theorem bench_measures_proxy:
  assumes "wr_data w = []"
  shows "(wr_fail w = None \<longrightarrow> bench_run_client None w = None)
    \<and> (\<forall>k e. wr_fail w = Some (k, e) \<longrightarrow>
        (\<exists>sent w'. bench_run_client None w = Some (Ok (sent, w')) \<and> sent \<le> k \<and> k < sent + KiB 64
          \<and> (\<forall>src out arrived. clean src \<and> payload src = wr_data w' \<and> sk_healthy out \<and> sk_data out = [] \<and> clean arrived
               \<and> payload arrived = sk_data (snd (snd (bulk_copy_optimized (KiB 256) src out)))
               \<longrightarrow> bench_run_server None [Connection arrived] = ([k], None))))"
proof -
  have "bench_run_client None w = None" if "wr_fail w = None"
    using send_loop_fails [of 0 w] that by (cases "send_loop 0 w") (simp_all add: bench_run_client_def)
  moreover have "\<exists>sent w'. bench_run_client None w = Some (Ok (sent, w')) \<and> sent \<le> k \<and> k < sent + KiB 64
      \<and> (\<forall>src out arrived. clean src \<and> payload src = wr_data w' \<and> sk_healthy out \<and> sk_data out = [] \<and> clean arrived
           \<and> payload arrived = sk_data (snd (snd (bulk_copy_optimized (KiB 256) src out)))
           \<longrightarrow> bench_run_server None [Connection arrived] = ([k], None))"
    if "wr_fail w = Some (k, e)" for k e
  proof -
    from send_loop_returns [OF that, of 0] assms obtain w' where
      w': "send_loop 0 w = Some (k div KiB 64 * KiB 64, w')" "length (wr_data w') = k" by auto
    have "bench_run_server None [Connection arrived] = ([k], None)"
      if c: "clean src" "payload src = wr_data w'" "sk_healthy out" "sk_data out = []" "clean arrived"
        "payload arrived = sk_data (snd (snd (bulk_copy_optimized (KiB 256) src out)))" for src out arrived
    proof -
      obtain src' out' where "bulk_copy_optimized (KiB 256) src out = (Inr (length (payload src)), src', out')"
        "sk_data out' = sk_data out @ payload src"
        by (rule bulk256.delivers [OF c(1,3)])
      with c w'(2) show ?thesis by (simp add: bench_run_server_def sink_loop_total)
    qed
    moreover have "k div KiB 64 * KiB 64 \<le> k" "k < k div KiB 64 * KiB 64 + KiB 64"
      using div_mult_mod_eq [of k "KiB 64"] mod_less_divisor [of "KiB 64" k] by linarith+
    ultimately show ?thesis using w' by (auto simp: bench_run_client_def)
  qed
  ultimately show ?thesis by blast
qed

theorem bench_measures_proxy_witness:
  "\<exists>sent w'. bench_run_client None \<lparr>wr_data = [], wr_fail = Some (100000, IoError BrokenPipe []), wr_flush = None\<rparr>
       = Some (Ok (sent, w')) \<and> sent \<le> 100000 \<and> 100000 < sent + KiB 64"
  using bench_measures_proxy [of "\<lparr>wr_data = [], wr_fail = Some (100000, IoError BrokenPipe []), wr_flush = None\<rparr>"]
  by fastforce

text \<open>Only a release is stripped, and an unknown target adds nothing.\<close>

lemma build_strips_release:
  "''cargo:rustc-link-arg=-s'' \<in> set (build_main target profile) \<longleftrightarrow> profile = Some ''release''"
  by (cases profile) (auto simp: build_main_def Let_def)

end
