(* ===== verification/Spec2Isabelle.thy ===== *)
theory Spec2Isabelle
  imports Config_Loader Totp Platform_Path Tunnel_Live Conn_Pool Monitoring Enhanced Service Crypto_Stream Shutdown System_Utils Bench
begin

text \<open>
  Verification of \<open>gsc-fq\<close>, a TCP and UDP forward proxy with a reverse proxy tunnel, written in Rust.

  \<^bold>\<open>The program.\<close> \<^verbatim>\<open>main.rs\<close> finds and validates a TOML file and hands it to the runtime manager, which
  starts up to three services. The \<^emph>\<open>forward proxy\<close> (\<^verbatim>\<open>proxy/server.rs\<close>) listens on one port per
  \<open>[[proxies]]\<close> entry and gives every client to a stealth connection handler, which checks an
  allow list and limits, counts, connects to the remote and copies bytes both ways; a refused connection
  is hidden from the client by a blackhole. The \<^emph>\<open>reverse proxy server\<close> accepts clients that
  authenticate with a token and a one-time password, opens the ports they ask for, and
  carries each connection or datagram through a stream of a multiplexed connection. The \<^emph>\<open>reverse
  proxy client\<close> connects, authenticates, and serves these streams from local services; it
  reconnects with growing pauses. Beside these the crate has copy loops for several
  systems, a plain handler, a resilient connection manager, a pool with quality scores, monitoring,
  message encryption, a signal handler and system checks. The repository has more that no module list names: a service
  manager, a handler with sessions, an encrypted stream with a handshake.

  \<^bold>\<open>Theories\<close> (sources are relative to \<^verbatim>\<open>src/src/\<close>).
  \<^item> \<open>Prelude\<close>, \<open>Rust_Str\<close>, \<open>Rust_Net\<close>, \<open>F64\<close>: results and errors as sums, machine integers and their byte
    orders, the string functions, IP and socket addresses with their parsers and printers, and
    floating point arithmetic as the standard library has them. \<open>Stream_IO\<close> has readers and writers of
    \<open>tokio\<close> and the locale \<open>wire_format\<close>; \<open>Transition\<close> has reachability and the locales \<open>invariant\<close> and \<open>simulation\<close>; \<open>Rust_Path\<close> has
    the functions on paths.
  \<^item> \<open>Errors\<close>: \<^verbatim>\<open>error/types.rs\<close>, the error types, their texts and classification.
  \<^item> \<open>Config_Loader\<close>: \<^verbatim>\<open>config/loader.rs\<close>. The sections are records, each accessor and each \<open>validate_*\<close> method
    a function returning a result; the TOML parser and the file system are parameters.
  \<^item> \<open>Totp\<close>: \<^verbatim>\<open>utils/totp.rs\<close>, on words and bytes; HMAC and Base32 are parameters.
  \<^item> \<open>Protocol\<close>, \<open>Bincode\<close>: \<^verbatim>\<open>reverse_proxy/protocol.rs\<close>, the messages and their framing; \<open>Bincode\<close> is the fixed-width
    format, an instance of \<open>wire_format\<close>.
  \<^item> \<open>Reverse_Server\<close>, \<open>Reverse_Client\<close>: \<^verbatim>\<open>reverse_proxy/server.rs\<close> and \<^verbatim>\<open>client.rs\<close>. The registry of sessions is a
    state with a step relation for handlers and clean-up ticks; handshake, tunnel streams and the
    reconnect loop are functions on streams. \<open>Tunnel_Run\<close> has all tunnels of a client at once, for connections and datagrams, a step
    relation of the tasks on both sides over a multiplexer that is a parameter, up to the loss of the connection;
    \<open>Tunnel_Live\<close> shows that each of them can be completed.
  \<^item> \<open>Stealth_Conn\<close>: \<^verbatim>\<open>proxy/stealth_connection_handler.rs\<close> and \<^verbatim>\<open>stealth_handler.rs\<close>; the statistics per address and the
    counters are a state with a step relation for connections and packets. \<open>Forward_Path\<close> composes them with the copier
    to the whole way of a client, \<open>Platform_Path\<close> does so for the copier of each platform.
  \<^item> \<open>Proxy_Server\<close>, \<open>Runtime\<close>: \<^verbatim>\<open>proxy/server.rs\<close>, \<^verbatim>\<open>config/runtime.rs\<close>, \<^verbatim>\<open>main.rs\<close>. \<open>Shutdown\<close>: the end of \<^verbatim>\<open>proxy/server.rs\<close>,
    a step relation of the server, its instances and their clients, and \<^verbatim>\<open>utils/signal.rs\<close> over a notifier.
  \<^item> \<open>Copy_Loops\<close>, \<open>Splice\<close>: \<^verbatim>\<open>proxy/zero_copy.rs\<close>, \<^verbatim>\<open>adaptive_copy.rs\<close>, \<^verbatim>\<open>adaptive_stream.rs\<close>, \<^verbatim>\<open>high_perf.rs\<close>,
    \<^verbatim>\<open>splice_optimizer.rs\<close>. The locales \<open>copier\<close> and \<open>flushing_copier\<close> are the contract of a copy function; the loops of the
    sources are interpretations, and the copy function of the library a parameter that satisfies it.
  \<^item> \<open>Handler\<close>: \<^verbatim>\<open>proxy/handler.rs\<close> and \<^verbatim>\<open>blackhole.rs\<close>.
  \<^item> \<open>Resilient\<close>: \<^verbatim>\<open>proxy/resilient.rs\<close>; the buffer size shared by two directions is a state with a step relation.
  \<^item> \<open>Conn_Pool\<close>: \<^verbatim>\<open>proxy/connection_metrics.rs\<close>, \<^verbatim>\<open>quality_aware_connection.rs\<close>, \<^verbatim>\<open>connection_selector.rs\<close>. The locale
    \<open>selector\<close> is the contract of a choice, interpreted for every strategy.
  \<^item> \<open>Enhanced\<close>: \<^verbatim>\<open>proxy/enhanced_handler.rs\<close> and \<^verbatim>\<open>handler_copy.rs\<close>; the sessions shared by connections and health checks are a state
    with a step relation.
  \<^item> \<open>Service\<close>: \<^verbatim>\<open>service/manager.rs\<close> and \<^verbatim>\<open>cli.rs\<close>. A command is an action on the state of the operating system, which is a
    parameter, and on what is printed; the abstract service has three states.
  \<^item> \<open>Monitoring\<close>: \<^verbatim>\<open>monitoring/mod.rs\<close>. \<open>Crypto\<close>: \<^verbatim>\<open>crypto/mod.rs\<close>. \<open>Crypto_Stream\<close>: \<^verbatim>\<open>crypto/stream_cipher.rs\<close> and
    \<^verbatim>\<open>handshake.rs\<close>. \<open>System_Utils\<close>: \<^verbatim>\<open>utils/system.rs\<close> and \<^verbatim>\<open>debug.rs\<close>, over the contents of the files they read.
  \<^item> \<open>Bench\<close>: \<^verbatim>\<open>bin/bench_throughput.rs\<close>, the loops that send and count, and \<^verbatim>\<open>build.rs\<close> of the repository.

  \<^bold>\<open>What is shown.\<close>
  \<^item> Configuration: validation accepts exactly the well-formed files and leaves a normal form, so that what it accepts can be
    started; the search for a file, the repair of the text and the positions in error messages are those intended.
  \<^item> Authentication: codes are those of RFC 6238, the window is one step either way, the server
    accepts exactly the right hellos, and agreeing peers complete the handshake.
  \<^item> Tunnels: control messages survive the framing, streams of bytes are delivered in both
    directions, oversized messages are refused before they are read; in every interleaving of
    several tunnels each peer talks to the service of its port and to no other, and no tunnel gets stuck while the
    multiplexer carries bytes.
  \<^item> Registry and limits: in every interleaving no listener outlives its client, the connections of an address and
    the rate of new ones stay within the limits, and the counters add up.
  \<^item> Forwarding: what an admitted client and an accepting remote send each other arrives on every
    platform, and the counters return to where they were.
  \<^item> Shutdown: once a signal has come the server ends, whatever clients do, and not before its instances; which tasks a signal wakes.
  \<^item> Service: the commands refine an abstract service, and it runs only after it was installed and started.
  \<^item> Copying: loops deliver a beginning of what was sent, all of it on sound connections, whatever the buffer size; the splice
    loops conserve bytes and return.
  \<^item> Reconnecting, pooling, monitoring: retries, pauses, scores, choices and counts are as specified; the metrics stay well-formed.
  \<^item> Several theorems state what the code does where that is not what it means to do, such as the forwarder
    that echoes, the tunnelled datagrams whose responses are lost, the sessions that outlive their connections, or
    the encrypted stream that accepts one message.

  \<^bold>\<open>Conventions.\<close> A result is a sum, \<open>Inl\<close> the error; a panic is \<open>None\<close>. Clocks, random numbers, and what the
  operating system or a peer does are arguments, so theorems hold for all of it. A machine integer is a word where
  the code can overflow and a natural number where it cannot. Loops are total functions: those over streams
  end because every read consumes part of a finite stream, the retry loops because attempts are
  numbered; the loops around system calls run over the list of outcomes, and \<open>splice_blocking_returns\<close>
  shows that outcomes that make progress lead to a result. The sending loop of the benchmark, which ends only when its connection
  breaks, is a partial function into an option. No fuel is used.

  \<^bold>\<open>Not modelled.\<close> Third-party packages (TOML, HMAC, Base32, hashes, ciphers, the multiplexer and its settings, JSON, random numbers,
  the service manager, the notifier) are parameters with the laws used of them as hypotheses. Fixed texts that are only printed
  (help, performance summaries and demonstrations, debug lines) and the QR code are left out, and so are module lists, tests,
  examples and the measuring harnesses under \<^verbatim>\<open>benches\<close>, which have no logic of their own. What a stream still carries after the
  connection under it has broken is up to the multiplexer: the tasks may go on or stop at any point, and
  only what holds in both cases is stated. The files that no
  module list names are modelled as they are written; \<^verbatim>\<open>crypto/stream_cipher.rs\<close> uses an error variant that does not exist, which the
  model takes to carry the error of the stream.
\<close>

end
